(* ===== verification/C_Prelude.thy ===== *)
theory C_Prelude
  imports Main "HOL-Library.Word" "HOL-Library.Signed_Division" "HOL-Library.Log_Nat"
begin

text \<open>
  Shared prelude of the development.  The programs are C programs for the Zynq-7000 (32-bit ARM,
  little endian, \<^verbatim>\<open>int\<close> and \<^verbatim>\<open>long\<close> of 32 bits), written with global variables, explicit error
  returns, \<^verbatim>\<open>exit\<close> and raw pointers.  This theory fixes
  \<^item> the names of the machine integer types,
  \<^item> the state-passing effect type \<open>io\<close>: a C function takes the state and either returns a value and
    the new state, or stops the process (\<^verbatim>\<open>exit\<close>, an access through an invalid pointer, a write past
    the end of a buffer, or a wait for input that never comes),
  \<^item> the collections of rewrite rules the component proofs use, and a few generic list lemmas.
\<close>

unbundle bit_operations_syntax

named_theorems io_simps \<open>evaluation of the effect type\<close>
named_theorems reg_simps \<open>register reads after register writes\<close>
named_theorems c_defs \<open>the C library functions, unfolded\<close>

section \<open>Machine integers\<close>

type_synonym u8 = "8 word"
type_synonym u16 = "16 word"
type_synonym u32 = "32 word"
type_synonym i16 = "16 word"
type_synonym i32 = "32 word"

text \<open>A C comparison or division of signed words reads them through \<open>sint\<close>; the shift \<open>>>\<close> of a
  signed word is the arithmetic shift of the target.\<close>

abbreviation sless :: "'a::len word \<Rightarrow> 'a word \<Rightarrow> bool" where
  "sless a b \<equiv> sint a < sint b"

abbreviation ucast_to :: "'a::len word \<Rightarrow> 'b::len word" where
  "ucast_to w \<equiv> ucast w"

lemma sint_of_int_range: "- (2 ^ 31) \<le> x \<Longrightarrow> x < 2 ^ 31 \<Longrightarrow> sint (of_int x :: i32) = x"
  by (simp add: sint_sbintrunc' signed_take_bit_int_eq_self)

lemma u32_le_1: "b \<le> 1 \<Longrightarrow> b = 0 \<or> b = 1" for b :: u32
proof -
  assume "b \<le> 1"
  then have "unat b \<le> 1" by (simp add: word_le_nat_alt)
  then have "unat b = 0 \<or> unat b = unat (1::u32)" by auto
  then show ?thesis by (simp add: word_unat_eq_iff)
qed

section \<open>Effects\<close>

datatype stop =
    Exit int      \<comment> \<open>\<^verbatim>\<open>exit(n)\<close>\<close>
  | Fault         \<comment> \<open>a load or store through a pointer that maps nothing\<close>
  | Overrun       \<comment> \<open>a store past the end of an array\<close>
  | Blocked       \<comment> \<open>waiting for an input or an event that never comes\<close>
  | Div_Zero      \<comment> \<open>an integer division by zero\<close>

datatype ('a, 's) outcome = Done 'a 's | Stopped stop 's

type_synonym ('s, 'a) io = "'s \<Rightarrow> ('a, 's) outcome"

definition ret :: "'a \<Rightarrow> ('s, 'a) io" where
  "ret x = (\<lambda>s. Done x s)"

definition halt :: "stop \<Rightarrow> ('s, 'a) io" where
  "halt e = (\<lambda>s. Stopped e s)"

definition bnd :: "('s, 'a) io \<Rightarrow> ('a \<Rightarrow> ('s, 'b) io) \<Rightarrow> ('s, 'b) io" where
  "bnd m f = (\<lambda>s. case m s of Done x t \<Rightarrow> f x t | Stopped e t \<Rightarrow> Stopped e t)"

definition thn :: "('s, 'a) io \<Rightarrow> ('s, 'b) io \<Rightarrow> ('s, 'b) io" where
  "thn m k = bnd m (\<lambda>_. k)"

definition modify :: "('s \<Rightarrow> 's) \<Rightarrow> ('s, unit) io" where
  "modify f = (\<lambda>s. Done () (f s))"

definition gets :: "('s \<Rightarrow> 'a) \<Rightarrow> ('s, 'a) io" where
  "gets f = (\<lambda>s. Done (f s) s)"

text \<open>A sequence of statements, as between the braces of a C block.\<close>

fun stmts :: "('s, unit) io list \<Rightarrow> ('s, unit) io" where
  "stmts [] = ret ()"
| "stmts (c # cs) = thn c (stmts cs)"

definition whn :: "bool \<Rightarrow> ('s, unit) io \<Rightarrow> ('s, unit) io" where
  "whn b c = (if b then c else ret ())"

text \<open>The state a run ends in, whether it returned or stopped.\<close>

fun final :: "('a, 's) outcome \<Rightarrow> 's" where
  "final (Done x s) = s"
| "final (Stopped e s) = s"

fun result :: "('a, 's) outcome \<Rightarrow> 'a option" where
  "result (Done x s) = Some x"
| "result (Stopped e s) = None"

lemma ret_app [simp, io_simps]: "ret x s = Done x s"
  by (simp add: ret_def)

lemma halt_app [simp, io_simps]: "halt e s = Stopped e s"
  by (simp add: halt_def)

lemma modify_app [simp, io_simps]: "modify f s = Done () (f s)"
  by (simp add: modify_def)

lemma gets_app [simp, io_simps]: "gets f s = Done (f s) s"
  by (simp add: gets_def)

lemma bnd_Done [simp, io_simps]: "m s = Done x t \<Longrightarrow> bnd m f s = f x t"
  by (simp add: bnd_def)

lemma bnd_Stopped [simp, io_simps]: "m s = Stopped e t \<Longrightarrow> bnd m f s = Stopped e t"
  by (simp add: bnd_def)

lemma bnd_app: "bnd m f s = (case m s of Done x t \<Rightarrow> f x t | Stopped e t \<Rightarrow> Stopped e t)"
  by (simp add: bnd_def)

lemma thn_app: "thn m k s = (case m s of Done x t \<Rightarrow> k t | Stopped e t \<Rightarrow> Stopped e t)"
  by (simp add: thn_def bnd_def)

lemma thn_Done [simp, io_simps]: "m s = Done x t \<Longrightarrow> thn m k s = k t"
  by (simp add: thn_def)

lemma thn_Stopped [simp, io_simps]: "m s = Stopped e t \<Longrightarrow> thn m k s = Stopped e t"
  by (simp add: thn_def)

lemma whn_True [simp]: "whn True c = c" and whn_False [simp]: "whn False c = ret ()"
  by (simp_all add: whn_def)

lemma bnd_ret_left [simp]: "bnd (ret x) f = f x"
  by (simp add: bnd_def ret_def fun_eq_iff)

lemma bnd_ret_right [simp]: "bnd m ret = m"
  by (auto simp: bnd_def ret_def fun_eq_iff split: outcome.splits)

lemma bnd_assoc: "bnd (bnd m f) g = bnd m (\<lambda>x. bnd (f x) g)"
  by (auto simp: bnd_def fun_eq_iff split: outcome.splits)

lemma bnd_halt [simp]: "bnd (halt e) f = halt e"
  by (simp add: bnd_def halt_def fun_eq_iff)

lemma stmts_append: "stmts (xs @ ys) = thn (stmts xs) (stmts ys)"
  by (induction xs) (simp_all add: thn_def bnd_assoc)

lemma stmts_Cons_app [simp, io_simps]: "c s = Done x t \<Longrightarrow> stmts (c # cs) s = stmts cs t"
  by simp

text \<open>
  Invariants of effects: \<open>keeps P m\<close> says that every run of \<open>m\<close> from a state in \<open>P\<close>, also one that
  stops the process, ends in a state in \<open>P\<close>.
\<close>

definition keeps :: "('s \<Rightarrow> bool) \<Rightarrow> ('s, 'a) io \<Rightarrow> bool" where
  "keeps P m \<longleftrightarrow> (\<forall>s. P s \<longrightarrow> P (final (m s)))"

named_theorems keeps_intros \<open>composition rules for \<open>keeps\<close>\<close>

lemma keepsD: "keeps P m \<Longrightarrow> P s \<Longrightarrow> P (final (m s))"
  by (simp add: keeps_def)

lemma keeps_ret [keeps_intros]: "keeps P (ret x)"
  by (simp add: keeps_def)

lemma keeps_halt [keeps_intros]: "keeps P (halt e)"
  by (simp add: keeps_def)

lemma keeps_gets [keeps_intros]: "keeps P (gets f)"
  by (simp add: keeps_def)

lemma keeps_modify [keeps_intros]: "(\<And>s. P s \<Longrightarrow> P (f s)) \<Longrightarrow> keeps P (modify f)"
  by (simp add: keeps_def)

lemma keeps_bnd [keeps_intros]: "keeps P m \<Longrightarrow> (\<And>x. keeps P (f x)) \<Longrightarrow> keeps P (bnd m f)"
  unfolding keeps_def bnd_def by (force split: outcome.split)

lemma keeps_thn [keeps_intros]: "keeps P m \<Longrightarrow> keeps P k \<Longrightarrow> keeps P (thn m k)"
  by (simp add: thn_def keeps_bnd)

lemma keeps_whn [keeps_intros]: "keeps P c \<Longrightarrow> keeps P (whn b c)"
  by (simp add: whn_def keeps_ret)

lemma keeps_if [keeps_intros]: "keeps P c \<Longrightarrow> keeps P d \<Longrightarrow> keeps P (if b then c else d)"
  by simp

lemma keeps_stmts [keeps_intros]: "(\<And>c. c \<in> set cs \<Longrightarrow> keeps P c) \<Longrightarrow> keeps P (stmts cs)"
  by (induction cs) (simp_all add: keeps_ret keeps_thn)

section \<open>Straight-line evaluation\<close>

text \<open>The rules that push a state through sequenced, nested and conditional statements.  Used alone they evaluate a long
  function body on a state record without touching anything else.\<close>

named_theorems io_eval \<open>straight-line evaluation of effects\<close>

lemma bnd_gets [io_eval]: "bnd (gets f) k s = k (f s) s"
  by simp

lemma thn_modify [io_eval]: "thn (modify f) k s = k (f s)"
  by simp

lemma thn_ret [io_eval]: "thn (ret x) k = k"
  by (simp add: thn_def)

lemma thn_halt [io_eval]: "thn (halt e) k = halt e"
  by (simp add: thn_def)

lemma thn_assoc [io_eval]: "thn (thn a b) c = thn a (thn b c)"
  by (simp add: thn_def bnd_assoc)

lemma thn_bnd [io_eval]: "thn (bnd m f) k = bnd m (\<lambda>x. thn (f x) k)"
  by (simp add: thn_def bnd_assoc)

lemma bnd_thn [io_eval]: "bnd (thn a b) f = thn a (bnd b f)"
  by (simp add: thn_def bnd_assoc)

lemma if_app [io_eval]: "(if b then m else k) s = (if b then m s else k s)"
  by simp

lemma if_bnd [io_eval]: "bnd (if b then m else k) f = (if b then bnd m f else bnd k f)"
  by simp

lemma if_thn [io_eval]: "thn (if b then m else k) c = (if b then thn m c else thn k c)"
  by simp

lemma stmts_thn [io_eval]: "thn (stmts []) k = k" "thn (stmts (c # cs)) k = thn c (thn (stmts cs) k)"
  by (simp_all add: thn_assoc thn_ret)

declare bnd_ret_left [io_eval] bnd_halt [io_eval] halt_app [io_eval] ret_app [io_eval] modify_app [io_eval] gets_app [io_eval]
  whn_def [io_eval] bnd_assoc [io_eval] stmts.simps [io_eval]

text \<open>A postcondition of the returned value and state.\<close>

definition returns :: "('a \<Rightarrow> 's \<Rightarrow> bool) \<Rightarrow> ('a, 's) outcome \<Rightarrow> bool" where
  "returns Q r \<longleftrightarrow> (\<forall>x t. r = Done x t \<longrightarrow> Q x t)"

lemma returns_Done [simp]: "returns Q (Done x t) = Q x t"
  and returns_Stopped [simp]: "returns Q (Stopped e t)"
  by (simp_all add: returns_def)

lemma returns_if: "(b \<Longrightarrow> returns Q m) \<Longrightarrow> (\<not> b \<Longrightarrow> returns Q k) \<Longrightarrow> returns Q (if b then m else k)"
  by simp

lemma returnsD: "returns Q r \<Longrightarrow> r = Done x t \<Longrightarrow> Q x t"
  by (simp add: returns_def)

text \<open>Why a run stopped, if it did.\<close>

definition stop_of :: "('a, 's) outcome \<Rightarrow> stop option" where
  "stop_of r = (case r of Done x s \<Rightarrow> None | Stopped e s \<Rightarrow> Some e)"

lemma stop_of_simps [simp]: "stop_of (Done x s) = None" "stop_of (Stopped e s) = Some e"
  by (simp_all add: stop_of_def)

section \<open>Frames\<close>

text \<open>Frames: \<open>stable view m\<close> says that no run of \<open>m\<close>, also one that stops the process, changes the part of the state that
  \<open>view\<close> shows, and that \<open>m\<close> never waits for ever.\<close>

definition stable :: "('s \<Rightarrow> 'v) \<Rightarrow> ('s, 'a) io \<Rightarrow> bool" where
  "stable view m \<longleftrightarrow> (\<forall>s. view (final (m s)) = view s \<and> stop_of (m s) \<noteq> Some Blocked)"

named_theorems stable_intros \<open>composition rules for \<open>stable\<close>\<close>

lemma stable_ret [stable_intros]: "stable view (ret x)"
  by (simp add: stable_def)

lemma stable_gets [stable_intros]: "stable view (gets f)"
  by (simp add: stable_def)

lemma stable_halt [stable_intros]: "e \<noteq> Blocked \<Longrightarrow> stable view (halt e)"
  by (simp add: stable_def)

lemma stable_modify [stable_intros]: "(\<And>s. view (f s) = view s) \<Longrightarrow> stable view (modify f)"
  by (simp add: stable_def)

lemma stable_bnd [stable_intros]: "stable view m \<Longrightarrow> (\<And>x. stable view (f x)) \<Longrightarrow> stable view (bnd m f)"
proof (unfold stable_def, intro allI)
  fix s
  assume m: "\<forall>s. view (final (m s)) = view s \<and> stop_of (m s) \<noteq> Some Blocked"
    and f: "\<And>x. \<forall>s. view (final (f x s)) = view s \<and> stop_of (f x s) \<noteq> Some Blocked"
  show "view (final (bnd m f s)) = view s \<and> stop_of (bnd m f s) \<noteq> Some Blocked"
    using spec [OF m, of s] f by (cases "m s") auto
qed

lemma stable_thn [stable_intros]: "stable view m \<Longrightarrow> stable view k \<Longrightarrow> stable view (thn m k)"
  by (simp add: thn_def stable_bnd)

lemma stable_whn [stable_intros]: "stable view c \<Longrightarrow> stable view (whn b c)"
  by (simp add: whn_def stable_ret)

lemma stable_if [stable_intros]: "stable view c \<Longrightarrow> stable view d \<Longrightarrow> stable view (if b then c else d)"
  by simp

lemma stable_stmts [stable_intros]: "(\<And>c. c \<in> set cs \<Longrightarrow> stable view c) \<Longrightarrow> stable view (stmts cs)"
  by (induction cs) (simp_all add: stable_ret stable_thn)

lemma stable_option [stable_intros]:
  "stable view m \<Longrightarrow> (\<And>x. stable view (f x)) \<Longrightarrow> stable view (case z of None \<Rightarrow> m | Some x \<Rightarrow> f x)"
  by (cases z) simp_all

lemma stable_prod [stable_intros]: "(\<And>a b. stable view (f a b)) \<Longrightarrow> stable view (case z of (a, b) \<Rightarrow> f a b)"
  by (cases z) simp

lemma stable_Done: "stable view m \<Longrightarrow> m s = Done x t \<Longrightarrow> view t = view s"
  by (metis stable_def final.simps(1))

lemma stable_final: "stable view m \<Longrightarrow> view (final (m s)) = view s"
  by (simp add: stable_def)

lemma stable_Blocked: "stable view m \<Longrightarrow> m s \<noteq> Stopped Blocked t"
  by (metis stable_def stop_of_simps(2))

section \<open>Total correctness\<close>

text \<open>\<open>runs P m Q\<close>: from every state in \<open>P\<close>, \<open>m\<close> returns, in a state in \<open>Q\<close>.\<close>

definition runs :: "('s \<Rightarrow> bool) \<Rightarrow> ('s, 'a) io \<Rightarrow> ('s \<Rightarrow> bool) \<Rightarrow> bool" where
  "runs P m Q \<longleftrightarrow> (\<forall>s. P s \<longrightarrow> (\<exists>x t. m s = Done x t \<and> Q t))"

named_theorems runs_intros \<open>composition rules for \<open>runs\<close>\<close>

lemma runsD: "runs P m Q \<Longrightarrow> P s \<Longrightarrow> \<exists>x t. m s = Done x t \<and> Q t"
  by (simp add: runs_def)

lemma runs_ret [runs_intros]: "runs P (ret x) P"
  by (simp add: runs_def)

lemma runs_modify [runs_intros]: "(\<And>s. P s \<Longrightarrow> Q (f s)) \<Longrightarrow> runs P (modify f) Q"
  by (simp add: runs_def)

lemma runs_bnd: "runs P m Q \<Longrightarrow> (\<And>x. runs Q (f x) R) \<Longrightarrow> runs P (bnd m f) R"
  unfolding runs_def by (metis bnd_Done)

lemma runs_gets: "(\<And>v. runs (\<lambda>s. P s \<and> f s = v) (k v) R) \<Longrightarrow> runs P (bnd (gets f) k) R"
  by (simp add: runs_def)

lemma runs_thn: "runs P m Q \<Longrightarrow> runs Q k R \<Longrightarrow> runs P (thn m k) R"
  unfolding thn_def by (rule runs_bnd)

lemma runs_inv [runs_intros]:
  "runs P m P \<Longrightarrow> (\<And>x. runs P (f x) P) \<Longrightarrow> runs P (bnd m f) P"
  "runs P m P \<Longrightarrow> runs P k P \<Longrightarrow> runs P (thn m k) P"
  "runs P (gets g) P"
  by (simp_all add: runs_bnd runs_thn) (simp add: runs_def)

lemma runs_prod [runs_intros]: "(\<And>a b. runs P (f a b) Q) \<Longrightarrow> runs P (case z of (a, b) \<Rightarrow> f a b) Q"
  by (cases z) simp

lemma runs_whn [runs_intros]: "(b \<Longrightarrow> runs P c P) \<Longrightarrow> runs P (whn b c) P"
  by (simp add: whn_def runs_ret)

lemma runs_if [runs_intros]: "(b \<Longrightarrow> runs P c Q) \<Longrightarrow> (\<not> b \<Longrightarrow> runs P d Q) \<Longrightarrow> runs P (if b then c else d) Q"
  by simp

lemma runs_stmts [runs_intros]: "(\<And>c. c \<in> set cs \<Longrightarrow> runs P c P) \<Longrightarrow> runs P (stmts cs) P"
proof (induction cs)
  case (Cons c cs)
  then have "runs P c P" "runs P (stmts cs) P" by simp_all
  then show ?case by (simp add: runs_inv)
qed (simp add: runs_ret)

lemma runs_pre: "runs P m Q \<Longrightarrow> (\<And>s. P' s \<Longrightarrow> P s) \<Longrightarrow> runs P' m Q"
  by (simp add: runs_def)

text \<open>The same with a postcondition on the returned value.\<close>

definition achieves :: "('s \<Rightarrow> bool) \<Rightarrow> ('s, 'a) io \<Rightarrow> ('a \<Rightarrow> 's \<Rightarrow> bool) \<Rightarrow> bool" where
  "achieves P m Q \<longleftrightarrow> (\<forall>s. P s \<longrightarrow> (\<exists>x t. m s = Done x t \<and> Q x t))"

lemma achD: "achieves P m Q \<Longrightarrow> P s \<Longrightarrow> \<exists>x t. m s = Done x t \<and> Q x t"
  by (simp add: achieves_def)

lemma ach_bnd: "achieves P m Q \<Longrightarrow> (\<And>x. achieves (Q x) (f x) R) \<Longrightarrow> achieves P (bnd m f) R"
  unfolding achieves_def by (metis bnd_Done)

lemma ach_thn: "achieves P m Q \<Longrightarrow> (\<And>x. achieves (Q x) k R) \<Longrightarrow> achieves P (thn m k) R"
  unfolding thn_def by (rule ach_bnd)

lemma ach_ret: "(\<And>s. P s \<Longrightarrow> Q x s) \<Longrightarrow> achieves P (ret x) Q"
  by (simp add: achieves_def)

lemma ach_gets: "(\<And>v. achieves P (f v) Q) \<Longrightarrow> achieves P (bnd (gets g) f) Q"
  by (simp add: achieves_def)

lemma ach_modify: "(\<And>s. P s \<Longrightarrow> Q (g s)) \<Longrightarrow> achieves P (modify g) (\<lambda>_. Q)"
  by (simp add: achieves_def)

lemma ach_if: "(b \<Longrightarrow> achieves P c Q) \<Longrightarrow> (\<not> b \<Longrightarrow> achieves P d Q) \<Longrightarrow> achieves P (if b then c else d) Q"
  by simp

lemma ach_weaken: "achieves P m Q \<Longrightarrow> (\<And>s. P' s \<Longrightarrow> P s) \<Longrightarrow> (\<And>x s. Q x s \<Longrightarrow> Q' x s) \<Longrightarrow> achieves P' m Q'"
  unfolding achieves_def by blast

section \<open>Lists\<close>

lemma dropWhile_length_le: "length (dropWhile P xs) \<le> length xs"
  by (induction xs) auto

lemma takeWhile_all: "(\<And>x. x \<in> set xs \<Longrightarrow> P x) \<Longrightarrow> takeWhile P (xs @ y # ys) = (if P y then xs @ y # takeWhile P ys else xs)"
  by (induction xs) auto

lemma foldl_xor_append:
  fixes a :: "'a::len word"
  shows "foldl (XOR) a (xs @ ys) = foldl (XOR) a xs XOR foldl (XOR) 0 ys"
proof -
  have "foldl (XOR) c ys = c XOR foldl (XOR) 0 ys" for c :: "'a word"
  proof (induction ys arbitrary: c)
    case Nil
    then show ?case by simp
  next
    case (Cons y ys)
    have "foldl (XOR) c (y # ys) = (c XOR y) XOR foldl (XOR) 0 ys"
      using Cons [of "c XOR y"] by simp
    also have "\<dots> = c XOR (y XOR foldl (XOR) 0 ys)"
      by (rule xor.assoc)
    also have "y XOR foldl (XOR) 0 ys = foldl (XOR) 0 (y # ys)"
      using Cons [of y] by simp
    finally show ?case .
  qed
  from this [of "foldl (XOR) a xs"] show ?thesis by simp
qed

end
