(* ===== verification/C_Lib.thy ===== *)
theory C_Lib
  imports C_Prelude
begin

text \<open>
  The part of the C library the programs call on strings and numbers: the conversions of
  \<^verbatim>\<open>printf\<close> (\<open>%d\<close>, \<open>%5d\<close>, \<open>%02d\<close>, \<open>%u\<close>, \<open>%x\<close>, \<open>%08x\<close>), the readers \<^verbatim>\<open>strtol\<close>, \<^verbatim>\<open>strtoul\<close>,
  \<^verbatim>\<open>atoi\<close> and the searches \<^verbatim>\<open>strchr\<close> and \<^verbatim>\<open>strstr\<close>.  A C string is a HOL string without NUL
  characters; an array of characters holds a string up to its first NUL (\<open>cstr\<close>).
  The locale \<open>positional\<close> is the contract between the printers and the readers: a number printed in
  a base is read back by the reader of that base.
\<close>

section \<open>Characters\<close>

abbreviation code :: "char \<Rightarrow> int" where
  "code c \<equiv> of_char c"

abbreviation NUL :: char where
  "NUL \<equiv> CHR 0x00"

abbreviation nl :: string where
  "nl \<equiv> [CHR 0x0A]"

abbreviation cr :: string where
  "cr \<equiv> [CHR 0x0D]"

definition cstr :: "string \<Rightarrow> string" where
  "cstr s = takeWhile (\<lambda>c. c \<noteq> NUL) s"

definition isspace :: "char \<Rightarrow> bool" where
  "isspace c \<longleftrightarrow> code c = 32 \<or> (9 \<le> code c \<and> code c \<le> 13)"

definition digit_chr :: "int \<Rightarrow> char" where
  "digit_chr d = (if d < 10 then char_of (48 + d) else char_of (87 + d))"

definition digit_val :: "int \<Rightarrow> char \<Rightarrow> int option" where
  "digit_val b c =
     (let n = code c;
          d = (if 48 \<le> n \<and> n \<le> 57 then n - 48
               else if 97 \<le> n \<and> n \<le> 122 then n - 87
               else if 65 \<le> n \<and> n \<le> 90 then n - 55
               else 36)
      in if d < b then Some d else None)"

definition is_digit :: "int \<Rightarrow> char \<Rightarrow> bool" where
  "is_digit b c \<longleftrightarrow> digit_val b c \<noteq> None"

section \<open>Printing numbers\<close>

function to_base :: "int \<Rightarrow> int \<Rightarrow> string" where
  "to_base b n = (if b < 2 \<or> n < b then [digit_chr n] else to_base b (n div b) @ [digit_chr (n mod b)])"
  by pat_completeness auto
termination
proof (relation "measure (\<lambda>(b, n). nat n)")
  fix b n :: int
  assume "\<not> (b < 2 \<or> n < b)"
  then have "n div b < n" "0 \<le> n div b" "0 < n"
    using int_div_less_self [of n b] by (auto simp: pos_imp_zdiv_nonneg_iff)
  then show "((b, n div b), b, n) \<in> measure (\<lambda>(b, n). nat n)" by simp
qed simp

declare to_base.simps [simp del]

definition fmt_u :: "int \<Rightarrow> string" where
  "fmt_u n = to_base 10 n"

definition fmt_x :: "int \<Rightarrow> string" where
  "fmt_x n = to_base 16 n"

definition fmt_d :: "int \<Rightarrow> string" where
  "fmt_d i = (if i < 0 then ''-'' @ fmt_u (- i) else fmt_u i)"

definition pad :: "char \<Rightarrow> nat \<Rightarrow> string \<Rightarrow> string" where
  "pad c w s = replicate (w - length s) c @ s"

text \<open>\<open>%5d\<close>: padded with blanks to the field width; \<open>%02d\<close>: zeros between the sign and the digits.\<close>

definition fmt_wd :: "nat \<Rightarrow> int \<Rightarrow> string" where
  "fmt_wd w i = pad (CHR '' '') w (fmt_d i)"

definition fmt_0d :: "nat \<Rightarrow> int \<Rightarrow> string" where
  "fmt_0d w i =
     (if i < 0 then ''-'' @ pad (CHR ''0'') (w - 1) (fmt_u (- i)) else pad (CHR ''0'') w (fmt_u i))"

definition fmt_0x :: "nat \<Rightarrow> int \<Rightarrow> string" where
  "fmt_0x w n = pad (CHR ''0'') w (fmt_x n)"

section \<open>Reading numbers\<close>

definition horner :: "int \<Rightarrow> string \<Rightarrow> int" where
  "horner b s = foldl (\<lambda>a c. a * b + the (digit_val b c)) 0 s"

definition skip_sign :: "string \<Rightarrow> bool \<times> string" where
  "skip_sign s =
     (case s of [] \<Rightarrow> (False, [])
      | c # t \<Rightarrow> if c = CHR ''-'' then (True, t) else if c = CHR ''+'' then (False, t) else (False, s))"

definition skip_0x :: "int \<Rightarrow> string \<Rightarrow> string" where
  "skip_0x b s =
     (case s of z # x # h # t \<Rightarrow>
        if b = 16 \<and> z = CHR ''0'' \<and> (x = CHR ''x'' \<or> x = CHR ''X'') \<and> is_digit 16 h then h # t else s
      | _ \<Rightarrow> s)"

definition strto_parts :: "int \<Rightarrow> string \<Rightarrow> bool \<times> int" where
  "strto_parts b s =
     (let (neg, t) = skip_sign (dropWhile isspace s)
      in (neg, horner b (takeWhile (is_digit b) (skip_0x b t))))"

text \<open>\<^verbatim>\<open>strtol\<close> clamps to the range of a 32-bit \<^verbatim>\<open>long\<close>; \<^verbatim>\<open>strtoul\<close> clamps the magnitude and negates
  modulo \<open>2 ^ 32\<close>; \<^verbatim>\<open>atoi\<close> is \<^verbatim>\<open>strtol\<close> in base ten.\<close>

definition strtol :: "int \<Rightarrow> string \<Rightarrow> int" where
  "strtol b s =
     (let (neg, n) = strto_parts b s; v = (if neg then - n else n)
      in max (- (2 ^ 31)) (min (2 ^ 31 - 1) v))"

definition strtoul :: "int \<Rightarrow> string \<Rightarrow> u32" where
  "strtoul b s =
     (let (neg, n) = strto_parts b s
      in if 2 ^ 32 \<le> n then - 1 else if neg then - of_int n else of_int n)"

definition atoi :: "string \<Rightarrow> int" where
  "atoi s = strtol 10 s"

section \<open>Searching\<close>

definition strchr :: "string \<Rightarrow> char \<Rightarrow> string option" where
  "strchr s c = (case dropWhile (\<lambda>x. x \<noteq> c) s of [] \<Rightarrow> None | t \<Rightarrow> Some t)"

fun strstr :: "string \<Rightarrow> string \<Rightarrow> string option" where
  "strstr [] p = (if p = [] then Some [] else None)"
| "strstr (c # s) p = (if take (length p) (c # s) = p then Some (c # s) else strstr s p)"

section \<open>Lemmas\<close>

lemma code_digit_chr: "0 \<le> d \<Longrightarrow> d < 36 \<Longrightarrow> code (digit_chr d) = (if d < 10 then 48 + d else 87 + d)"
  by (simp add: digit_chr_def)

lemma digit_val_digit_chr [simp]: "0 \<le> d \<Longrightarrow> d < b \<Longrightarrow> b \<le> 36 \<Longrightarrow> digit_val b (digit_chr d) = Some d"
  by (simp add: digit_val_def code_digit_chr)

lemma horner_snoc: "horner b (s @ [c]) = horner b s * b + the (digit_val b c)"
  by (simp add: horner_def)

lemma pad_length [simp]: "length (pad c w s) = max w (length s)"
  by (simp add: pad_def)

lemma skip_sign_digit: "is_digit b c \<Longrightarrow> b \<le> 36 \<Longrightarrow> skip_sign (c # s) = (False, c # s)"
  by (auto simp: skip_sign_def is_digit_def digit_val_def Let_def split: if_splits)

lemma isspace_not_digit: "is_digit b c \<Longrightarrow> b \<le> 36 \<Longrightarrow> \<not> isspace c"
  by (auto simp: isspace_def is_digit_def digit_val_def Let_def split: if_splits)

locale positional =
  fixes b :: int
  assumes base_ge: "2 \<le> b" and base_le: "b \<le> 16"
begin

lemma to_base_small: "n < b \<Longrightarrow> to_base b n = [digit_chr n]"
  by (simp add: to_base.simps)

lemma to_base_big: "b \<le> n \<Longrightarrow> to_base b n = to_base b (n div b) @ [digit_chr (n mod b)]"
  using base_ge by (simp add: to_base.simps [of b n])

lemma to_base_ne: "to_base b n \<noteq> []"
  by (cases "n < b") (simp_all add: to_base_small to_base_big)

lemma quotient_less: "b \<le> n \<Longrightarrow> nat (n div b) < nat n"
  using base_ge int_div_less_self [of n b] by simp

lemma digit_range: "0 \<le> n mod b" "n mod b < b"
  using base_ge by simp_all

lemma to_base_digits: "0 \<le> n \<Longrightarrow> \<forall>c \<in> set (to_base b n). is_digit b c"
proof (induction "nat n" arbitrary: n rule: less_induct)
  case less
  show ?case
  proof (cases "n < b")
    case True
    then show ?thesis using base_le less.prems by (simp add: to_base_small is_digit_def)
  next
    case False
    then have "nat (n div b) < nat n" "0 \<le> n div b"
      using quotient_less base_ge less.prems by (simp_all add: pos_imp_zdiv_nonneg_iff)
    with False less.hyps digit_range show ?thesis
      using base_le by (auto simp: to_base_big is_digit_def)
  qed
qed

lemma horner_to_base: "0 \<le> n \<Longrightarrow> horner b (to_base b n) = n"
proof (induction "nat n" arbitrary: n rule: less_induct)
  case less
  show ?case
  proof (cases "n < b")
    case True
    then show ?thesis using base_le less.prems by (simp add: to_base_small horner_def)
  next
    case False
    then have "nat (n div b) < nat n" "0 \<le> n div b"
      using quotient_less base_ge less.prems by (simp_all add: pos_imp_zdiv_nonneg_iff)
    with False less.hyps digit_range show ?thesis
      using base_le by (simp add: to_base_big horner_snoc)
  qed
qed

lemma to_base_length: "n < b ^ k \<Longrightarrow> 0 < k \<Longrightarrow> length (to_base b n) \<le> k"
proof (induction k arbitrary: n)
  case 0
  then show ?case by simp
next
  case (Suc k)
  show ?case
  proof (cases "n < b")
    case True
    then show ?thesis by (simp add: to_base_small)
  next
    case False
    then have k: "0 < k" using Suc.prems by (cases k) auto
    have "n div b < b ^ k"
    proof (rule ccontr)
      assume "\<not> n div b < b ^ k"
      then have "b ^ k * b \<le> n div b * b" using base_ge by (intro mult_right_mono) auto
      also have "\<dots> \<le> n" using base_ge by (simp add: minus_mod_eq_div_mult [symmetric])
      finally show False using Suc.prems(1) by (simp add: mult.commute)
    qed
    with Suc.IH k have "length (to_base b (n div b)) \<le> k" by blast
    with False show ?thesis by (simp add: to_base_big)
  qed
qed

text \<open>What a reader sees of a printed number: its digits end where a non-digit follows.\<close>

lemma reader_sees:
  assumes "rest = [] \<or> \<not> is_digit b (hd rest)" "0 \<le> n"
  shows "takeWhile (is_digit b) (to_base b n @ rest) = to_base b n"
  using assms to_base_digits by (cases rest) (auto simp: takeWhile_append2 takeWhile_tail)

lemma to_base_Cons: "0 \<le> n \<Longrightarrow> \<exists>c t. to_base b n = c # t \<and> is_digit b c"
  using to_base_ne [of n] to_base_digits [of n] by (cases "to_base b n") auto

lemma skip_front:
  "0 \<le> n \<Longrightarrow> skip_sign (dropWhile isspace (to_base b n @ rest)) = (False, to_base b n @ rest)"
proof -
  assume "0 \<le> n"
  then obtain c t where c: "to_base b n = c # t" "is_digit b c"
    using to_base_Cons by blast
  with base_le show ?thesis by (simp add: skip_sign_digit isspace_not_digit)
qed

end

interpretation dec: positional 10
  by unfold_locales simp_all

interpretation hex: positional 16
  by unfold_locales simp_all

lemma horner_pad_zero: "0 < b \<Longrightarrow> horner b (replicate k (CHR ''0'') @ s) = horner b s"
  by (induction k) (simp_all add: horner_def digit_val_def)

lemma skip_0x_dec [simp]: "skip_0x 10 s = s"
  by (auto simp: skip_0x_def split: list.splits)

lemma strto_parts_dec:
  "0 \<le> n \<Longrightarrow> rest = [] \<or> \<not> is_digit 10 (hd rest) \<Longrightarrow> strto_parts 10 (to_base 10 n @ rest) = (False, n)"
  by (simp add: strto_parts_def dec.skip_front dec.reader_sees dec.horner_to_base)

lemma strto_parts_dec_neg:
  "0 \<le> n \<Longrightarrow> rest = [] \<or> \<not> is_digit 10 (hd rest) \<Longrightarrow> strto_parts 10 (CHR ''-'' # to_base 10 n @ rest) = (True, n)"
  by (simp add: strto_parts_def isspace_def skip_sign_def dec.reader_sees dec.horner_to_base)

text \<open>A printed \<^verbatim>\<open>int\<close> is read back by \<^verbatim>\<open>atoi\<close>.\<close>

lemma atoi_fmt_d:
  assumes "- (2 ^ 31) \<le> i" "i < 2 ^ 31" "rest = [] \<or> \<not> is_digit 10 (hd rest)"
  shows "atoi (fmt_d i @ rest) = i"
proof (cases "i < 0")
  case True
  with assms show ?thesis
    by (simp add: atoi_def strtol_def fmt_d_def fmt_u_def strto_parts_dec_neg)
next
  case False
  with assms show ?thesis
    by (simp add: atoi_def strtol_def fmt_d_def fmt_u_def strto_parts_dec)
qed

lemma fmt_u_length: "n < 10 ^ k \<Longrightarrow> 0 < k \<Longrightarrow> length (fmt_u n) \<le> k"
  unfolding fmt_u_def by (rule dec.to_base_length)

lemma strchr_Some_suffix: "strchr s c = Some t \<Longrightarrow> \<exists>u. s = u @ t \<and> c \<notin> set u \<and> hd t = c \<and> t \<noteq> []"
proof -
  assume "strchr s c = Some t"
  then have t: "dropWhile (\<lambda>x. x \<noteq> c) s = t" "t \<noteq> []"
    by (auto simp: strchr_def split: list.splits)
  have "s = takeWhile (\<lambda>x. x \<noteq> c) s @ t"
    unfolding t(1) [symmetric] by (rule takeWhile_dropWhile_id [symmetric])
  moreover have "c \<notin> set (takeWhile (\<lambda>x. x \<noteq> c) s)" by (auto dest: set_takeWhileD)
  moreover have "hd t = c"
    using t hd_dropWhile [of "\<lambda>x. x \<noteq> c" s] by simp
  ultimately show ?thesis using t(2) by blast
qed

lemma strchr_append [simp]: "c \<notin> set u \<Longrightarrow> strchr (u @ c # t) c = Some (c # t)"
proof -
  assume "c \<notin> set u"
  then have "dropWhile (\<lambda>x. x \<noteq> c) (u @ c # t) = c # t" by (induction u) auto
  then show ?thesis by (simp add: strchr_def)
qed

lemma strchr_None: "c \<notin> set s \<Longrightarrow> strchr s c = None"
proof -
  assume "c \<notin> set s"
  then have "dropWhile (\<lambda>x. x \<noteq> c) s = []" by (auto simp: dropWhile_eq_Nil_conv)
  then show ?thesis by (simp only: strchr_def list.case)
qed

end
