(* ===== verification/C_Float.thy ===== *)
theory C_Float
  imports C_Lib Complex_Main
begin

text \<open>
  The floating point arithmetic of the programs: binary32 (\<^verbatim>\<open>float\<close>) and binary64 (\<^verbatim>\<open>double\<close>) values
  with a sign, a non-negative integer mantissa and a binary exponent, and the operations rounded to nearest, ties
  to even, at the precision of the type (24 or 53 bits).  Signed zeros are kept.  The exponent range
  is not bounded and infinities and NaNs are not represented: no operation of the modelled code
  divides by a variable or leaves the normal range on the values the code produces.  A conversion to
  a 32-bit integer truncates and saturates, as the VFP instruction of the target does.
  \<open>fround_error\<close> bounds the rounding error by half a unit of the last place.
\<close>

datatype flt = Fl (neg: bool) (mant: int) (expo: int)

abbreviation single_prec :: nat where "single_prec \<equiv> 24"
abbreviation double_prec :: nat where "double_prec \<equiv> 53"

section \<open>Rounding\<close>

definition round_div :: "int \<Rightarrow> int \<Rightarrow> int" where
  "round_div n d =
     (let q = n div d; r = n mod d
      in if 2 * r < d \<or> (2 * r = d \<and> even q) then q else q + 1)"

definition scaled :: "int \<Rightarrow> int \<Rightarrow> int \<Rightarrow> int \<times> int" where
  "scaled n d k = (if 0 \<le> k then (n, d * 2 ^ nat k) else (n * 2 ^ nat (- k), d))"

definition fround_exp :: "nat \<Rightarrow> int \<Rightarrow> int \<Rightarrow> int" where
  "fround_exp p n d =
     (let k = bitlen n - bitlen d - int p; (n0, d0) = scaled n d k
      in if n0 < 2 ^ p * d0 then k else k + 1)"

definition fround :: "nat \<Rightarrow> bool \<Rightarrow> int \<Rightarrow> int \<Rightarrow> flt" where
  "fround p s n d =
     (if n = 0 then Fl s 0 0
      else let k = fround_exp p n d; (n1, d1) = scaled n d k in Fl s (round_div n1 d1) k)"

section \<open>Operations\<close>

definition num :: "flt \<Rightarrow> int" where
  "num x = (if 0 \<le> expo x then mant x * 2 ^ nat (expo x) else mant x)"

definition den :: "flt \<Rightarrow> int" where
  "den x = (if 0 \<le> expo x then 1 else 2 ^ nat (- expo x))"

definition snum :: "flt \<Rightarrow> int" where
  "snum x = (if neg x then - num x else num x)"

definition fneg :: "flt \<Rightarrow> flt" where
  "fneg x = Fl (\<not> neg x) (mant x) (expo x)"

definition fmul :: "nat \<Rightarrow> flt \<Rightarrow> flt \<Rightarrow> flt" where
  "fmul p x y = fround p (neg x \<noteq> neg y) (num x * num y) (den x * den y)"

definition fdiv :: "nat \<Rightarrow> flt \<Rightarrow> flt \<Rightarrow> flt" where
  "fdiv p x y = fround p (neg x \<noteq> neg y) (num x * den y) (den x * num y)"

definition fadd :: "nat \<Rightarrow> flt \<Rightarrow> flt \<Rightarrow> flt" where
  "fadd p x y =
     (let v = snum x * den y + snum y * den x
      in fround p (if v = 0 then neg x \<and> neg y else v < 0) \<bar>v\<bar> (den x * den y))"

definition fsub :: "nat \<Rightarrow> flt \<Rightarrow> flt \<Rightarrow> flt" where
  "fsub p x y = fadd p x (fneg y)"

definition f_of_int :: "nat \<Rightarrow> int \<Rightarrow> flt" where
  "f_of_int p i = fround p (i < 0) \<bar>i\<bar> 1"

definition fconv :: "nat \<Rightarrow> flt \<Rightarrow> flt" where
  "fconv p x = fround p (neg x) (num x) (den x)"

text \<open>A decimal literal \<open>n / d\<close> of type \<^verbatim>\<open>double\<close>, and one stored into a \<^verbatim>\<open>float\<close> variable.\<close>

definition dlit :: "int \<Rightarrow> int \<Rightarrow> flt" where
  "dlit n d = fround double_prec False n d"

definition flit :: "int \<Rightarrow> int \<Rightarrow> flt" where
  "flit n d = fconv single_prec (dlit n d)"

definition f_trunc :: "flt \<Rightarrow> int" where
  "f_trunc x = (if neg x then - (num x div den x) else num x div den x)"

definition f_to_i32 :: "flt \<Rightarrow> int" where
  "f_to_i32 x = max (- (2 ^ 31)) (min (2 ^ 31 - 1) (f_trunc x))"

definition f_to_u32 :: "flt \<Rightarrow> u32" where
  "f_to_u32 x = of_int (max 0 (min (2 ^ 32 - 1) (f_trunc x)))"

text \<open>\<^verbatim>\<open>round\<close>: to the nearest integer, halves away from zero; \<^verbatim>\<open>modf\<close>: fraction and integer part.\<close>

definition f_round :: "flt \<Rightarrow> flt" where
  "f_round x = Fl (neg x) ((2 * num x + den x) div (2 * den x)) 0"

definition f_modf_int :: "flt \<Rightarrow> flt" where
  "f_modf_int x = Fl (neg x) (num x div den x) 0"

definition f_modf_frac :: "flt \<Rightarrow> flt" where
  "f_modf_frac x = Fl (neg x) (num x mod den x) (if 0 \<le> expo x then 0 else expo x)"

definition f_less :: "flt \<Rightarrow> flt \<Rightarrow> bool" where
  "f_less x y \<longleftrightarrow> snum x * den y < snum y * den x"

definition f_eq :: "flt \<Rightarrow> flt \<Rightarrow> bool" where
  "f_eq x y \<longleftrightarrow> snum x * den y = snum y * den x"

section \<open>Printing and reading\<close>

text \<open>\<open>%.<w>f\<close>: the exact decimal value rounded to \<open>w\<close> places (\<open>w > 0\<close>).\<close>

definition fmt_f :: "nat \<Rightarrow> flt \<Rightarrow> string" where
  "fmt_f w x =
     (let q = round_div (num x * 10 ^ w) (den x)
      in (if neg x then ''-'' else []) @ fmt_u (q div 10 ^ w) @ ''.'' @ pad (CHR ''0'') w (fmt_u (q mod 10 ^ w)))"

text \<open>\<^verbatim>\<open>atof\<close> on decimal text: blanks, a sign, digits with an optional point, and an optional
  exponent; the result is the double nearest to the decimal number.\<close>

definition atof_exponent :: "string \<Rightarrow> int" where
  "atof_exponent s =
     (case s of [] \<Rightarrow> 0
      | c # t \<Rightarrow>
          if c = CHR ''e'' \<or> c = CHR ''E''
          then (let (sg, u) = skip_sign t; n = horner 10 (takeWhile (is_digit 10) u)
                in if sg then - n else n)
          else 0)"

definition frac_digits :: "string \<Rightarrow> string" where
  "frac_digits r = (case r of [] \<Rightarrow> [] | c # u \<Rightarrow> if c = CHR ''.'' then takeWhile (is_digit 10) u else [])"

definition after_frac :: "string \<Rightarrow> string" where
  "after_frac r = (case r of [] \<Rightarrow> [] | c # u \<Rightarrow> if c = CHR ''.'' then dropWhile (is_digit 10) u else r)"

definition atof :: "string \<Rightarrow> flt" where
  "atof s =
     (let (sg, t) = skip_sign (dropWhile isspace s);
          ip = takeWhile (is_digit 10) t;
          r = dropWhile (is_digit 10) t;
          fp = frac_digits r;
          e = (if ip = [] \<and> fp = [] then 0 else atof_exponent (after_frac r)) - int (length fp);
          m = horner 10 (ip @ fp)
      in if ip = [] \<and> fp = [] then Fl False 0 0
         else if 0 \<le> e then fround double_prec sg (m * 10 ^ nat e) 1
         else fround double_prec sg m (10 ^ nat (- e)))"

section \<open>The value of a float and the rounding error\<close>

definition fval :: "flt \<Rightarrow> real" where
  "fval x = (if neg x then - 1 else 1) * real_of_int (mant x) * 2 powi (expo x)"

text \<open>Every float the operations produce has a non-negative mantissa.\<close>

definition fwf :: "flt \<Rightarrow> bool" where
  "fwf x \<longleftrightarrow> 0 \<le> mant x"

lemma powi_neg: "k < 0 \<Longrightarrow> (2::real) powi k = 1 / 2 ^ nat (- k)"
  by (simp add: power_int_def inverse_eq_divide power_one_over)

lemma powi_nonneg: "0 \<le> k \<Longrightarrow> (2::real) powi k = 2 ^ nat k"
  by (simp add: power_int_def)

lemma den_pos [simp]: "0 < den x"
  by (simp add: den_def)

lemma abs_den [simp]: "\<bar>real_of_int (den x)\<bar> = real_of_int (den x)"
  using den_pos [of x] by (intro abs_of_pos) (simp only: of_int_0_less_iff)

lemma num_nonneg [simp]: "fwf x \<Longrightarrow> 0 \<le> num x"
  by (simp add: num_def fwf_def)

lemma num_den: "real_of_int (num x) / real_of_int (den x) = real_of_int (mant x) * 2 powi (expo x)"
  by (cases "0 \<le> expo x") (simp_all add: num_def den_def powi_neg powi_nonneg)

lemma fval_num_den: "fval x = (if neg x then - 1 else 1) * (real_of_int (num x) / real_of_int (den x))"
  by (simp add: fval_def num_den)

lemma fval_snum: "fval x = real_of_int (snum x) / real_of_int (den x)"
  by (simp add: fval_num_den snum_def)

lemma div_mod_real: "0 < d \<Longrightarrow> real_of_int n / real_of_int d = real_of_int (n div d) + real_of_int (n mod d) / real_of_int d"
proof -
  assume d: "0 < d"
  have "real_of_int n = real_of_int (n div d) * real_of_int d + real_of_int (n mod d)"
    by (simp flip: of_int_mult of_int_add)
  with d show ?thesis by (simp add: field_simps)
qed

lemma round_div_nonneg: "0 \<le> n \<Longrightarrow> 0 < d \<Longrightarrow> 0 \<le> round_div n d"
  by (simp add: round_div_def Let_def pos_imp_zdiv_nonneg_iff)

lemma round_div_error:
  assumes "0 < d"
  shows "\<bar>real_of_int (round_div n d) - real_of_int n / real_of_int d\<bar> \<le> 1 / 2"
proof -
  define q where "q = n div d"
  define r where "r = n mod d"
  have r: "0 \<le> r" "r < d"
    using assms by (simp_all add: r_def)
  have nd: "real_of_int n / real_of_int d = real_of_int q + real_of_int r / real_of_int d"
    unfolding q_def r_def by (rule div_mod_real [OF assms])
  have bounds: "0 \<le> real_of_int r / real_of_int d" "real_of_int r / real_of_int d < 1"
    using assms r by simp_all
  show ?thesis
  proof (cases "2 * r < d \<or> (2 * r = d \<and> even q)")
    case True
    then have "2 * r \<le> d" by auto
    then have "real_of_int r / real_of_int d \<le> 1 / 2"
      using assms by (simp add: divide_le_eq)
    moreover have "round_div n d = q"
      using True unfolding round_div_def Let_def q_def [symmetric] r_def [symmetric] by (rule if_P)
    ultimately show ?thesis using bounds nd by simp
  next
    case False
    then have "d \<le> 2 * r" by auto
    then have "1 / 2 \<le> real_of_int r / real_of_int d"
      using assms by (simp add: le_divide_eq)
    moreover have "round_div n d = q + 1"
      using False unfolding round_div_def Let_def q_def [symmetric] r_def [symmetric] by (rule if_not_P)
    ultimately show ?thesis using bounds nd by simp
  qed
qed

lemma round_div_one [simp]: "round_div n 1 = n"
  by (simp add: round_div_def)

lemma scaled_pos: "0 < d \<Longrightarrow> scaled n d k = (n1, d1) \<Longrightarrow> 0 < d1"
  by (auto simp: scaled_def split: if_splits)

lemma scaled_nonneg: "0 \<le> n \<Longrightarrow> scaled n d k = (n1, d1) \<Longrightarrow> 0 \<le> n1"
  by (auto simp: scaled_def split: if_splits)

lemma scaled_value:
  assumes "0 < d" "scaled n d k = (n1, d1)"
  shows "real_of_int n1 / real_of_int d1 * 2 powi k = real_of_int n / real_of_int d"
  using assms by (cases "0 \<le> k") (auto simp: scaled_def powi_neg powi_nonneg)

lemma fwf_fround: "0 \<le> n \<Longrightarrow> 0 < d \<Longrightarrow> fwf (fround p s n d)"
  by (auto simp: fround_def fwf_def Let_def split: prod.split
      intro!: round_div_nonneg dest: scaled_pos scaled_nonneg)

lemma bitlen_real:
  assumes "0 < n"
  shows "2 powi (bitlen n - 1) \<le> real_of_int n" "real_of_int n < 2 powi (bitlen n)"
proof -
  have f: "0 < bitlen n"
    using assms bitlen_nonneg [of n] bitlen_eq_zero_iff [of n] by auto
  have b: "2 ^ nat (bitlen n - 1) \<le> n" "n < 2 ^ nat (bitlen n)"
    using bitlen_bounds [OF assms] by auto
  have "real_of_int (2 ^ nat (bitlen n - 1)) \<le> real_of_int n"
    using b(1) by (simp only: of_int_le_iff)
  then show "2 powi (bitlen n - 1) \<le> real_of_int n"
    using f by (simp add: powi_nonneg)
  have "real_of_int n < real_of_int (2 ^ nat (bitlen n))"
    using b(2) by (simp only: of_int_less_iff)
  then show "real_of_int n < 2 powi (bitlen n)"
    using f by (simp add: powi_nonneg)
qed

lemma fround_exp_lower:
  assumes "0 < n" "0 < d"
  shows "2 powi (int p - 1) \<le> real_of_int n / real_of_int d / 2 powi (fround_exp p n d)"
proof -
  define k where "k = bitlen n - bitlen d - int p"
  obtain n0 d0 where s: "scaled n d k = (n0, d0)" by fastforce
  have d0: "0 < d0" using assms(2) s by (rule scaled_pos)
  have v: "real_of_int n / real_of_int d = real_of_int n0 / real_of_int d0 * 2 powi k"
    using scaled_value [OF assms(2) s] by simp
  show ?thesis
  proof (cases "n0 < 2 ^ p * d0")
    case True
    then have fe: "fround_exp p n d = k"
      by (simp add: fround_exp_def s flip: k_def)
    have "2 powi (bitlen n - 1) \<le> real_of_int n" "real_of_int d < 2 powi (bitlen d)"
      using bitlen_real assms by blast+
    then have "2 powi (bitlen n - 1) / 2 powi (bitlen d) \<le> real_of_int n / real_of_int d"
      using assms by (intro frac_le) auto
    moreover have "2 powi (bitlen n - 1) / 2 powi (bitlen d) = (2 powi (int p - 1)) * (2 powi k :: real)"
    proof -
      have "(2::real) powi (bitlen n - 1) / 2 powi (bitlen d) = 2 powi (bitlen n - 1 - bitlen d)"
        by (rule power_int_diff [symmetric]) simp
      also have "bitlen n - 1 - bitlen d = (int p - 1) + k"
        by (simp add: k_def)
      also have "(2::real) powi ((int p - 1) + k) = (2 powi (int p - 1)) * (2 powi k)"
        by (rule power_int_add) simp
      finally show ?thesis .
    qed
    ultimately have "2 powi (int p - 1) * 2 powi k \<le> real_of_int n / real_of_int d"
      by (simp only:)
    then show ?thesis
      unfolding fe by (subst pos_le_divide_eq) simp_all
  next
    case False
    then have fe: "fround_exp p n d = k + 1"
      by (simp add: fround_exp_def s flip: k_def)
    have "2 ^ p * d0 \<le> n0" using False by simp
    then have "real_of_int (2 ^ p * d0) \<le> real_of_int n0" by (simp only: of_int_le_iff)
    then have "2 ^ p \<le> real_of_int n0 / real_of_int d0"
      using d0 by (simp add: field_simps)
    then have "2 ^ p * 2 powi k \<le> real_of_int n / real_of_int d"
      unfolding v by (intro mult_right_mono) simp_all
    moreover have "(2 powi (int p - 1)) * (2 powi (k + 1)) = (2 ^ p * 2 powi k :: real)"
      by (simp add: power_int_add power_int_diff)
    ultimately have "(2 powi (int p - 1)) * (2 powi (k + 1)) \<le> real_of_int n / real_of_int d"
      by (simp only:)
    then show ?thesis
      unfolding fe by (subst pos_le_divide_eq) simp_all
  qed
qed

text \<open>The result of an operation differs from the exact quotient by at most \<open>2 ^ -p\<close> of it.\<close>

lemma fround_error:
  assumes "0 \<le> n" "0 < d"
  shows "\<bar>\<bar>fval (fround p s n d)\<bar> - real_of_int n / real_of_int d\<bar> \<le> real_of_int n / real_of_int d / 2 ^ p"
proof (cases "n = 0")
  case True
  then show ?thesis by (simp add: fround_def fval_def)
next
  case False
  then have n: "0 < n" using assms by simp
  define k where "k = fround_exp p n d"
  obtain n1 d1 where sc: "scaled n d k = (n1, d1)" by fastforce
  have d1: "0 < d1" "0 \<le> n1"
    using assms sc by (auto dest: scaled_pos scaled_nonneg)
  define u :: real where "u = 2 powi k"
  have u: "0 < u" by (simp add: u_def)
  have v: "real_of_int n1 / real_of_int d1 * u = real_of_int n / real_of_int d"
    unfolding u_def by (rule scaled_value [OF assms(2) sc])
  have f: "\<bar>fval (fround p s n d)\<bar> = real_of_int (round_div n1 d1) * u"
    using n round_div_nonneg [OF d1(2,1)] by (simp add: fround_def sc fval_def abs_mult u_def flip: k_def)
  have "\<bar>real_of_int (round_div n1 d1) * u - real_of_int n1 / real_of_int d1 * u\<bar>
      = \<bar>real_of_int (round_div n1 d1) - real_of_int n1 / real_of_int d1\<bar> * u"
    unfolding left_diff_distrib [symmetric] using u by (simp only: abs_mult abs_of_pos)
  also have "\<dots> \<le> 1 / 2 * u"
    using round_div_error [OF d1(1), of n1] u by (intro mult_right_mono) auto
  also have "\<dots> \<le> real_of_int n / real_of_int d / 2 ^ p"
  proof -
    have "2 powi (int p - 1) \<le> real_of_int n / real_of_int d / u"
      unfolding u_def k_def by (rule fround_exp_lower [OF n assms(2)])
    then have "2 powi (int p - 1) * u \<le> real_of_int n / real_of_int d"
      by (subst (asm) pos_le_divide_eq [OF u])
    moreover have "(2 powi (int p - 1) :: real) = 2 ^ p / 2"
      by (simp add: power_int_diff)
    ultimately have "1 / 2 * u * 2 ^ p \<le> real_of_int n / real_of_int d" by (simp add: ac_simps)
    then show ?thesis by (subst pos_le_divide_eq) simp_all
  qed
  finally show ?thesis unfolding v f .
qed

lemma fround_sign: "neg (fround p s n d) = s"
  by (simp add: fround_def Let_def split: prod.splits)

lemma fmul_error:
  assumes "fwf x" "fwf y"
  shows "\<bar>\<bar>fval (fmul p x y)\<bar> - \<bar>fval x * fval y\<bar>\<bar> \<le> \<bar>fval x * fval y\<bar> / 2 ^ p"
proof -
  have "\<bar>fval x * fval y\<bar> = real_of_int (num x * num y) / real_of_int (den x * den y)"
    using assms by (simp add: fval_num_den abs_mult)
  then show ?thesis
    using fround_error [of "num x * num y" "den x * den y" p "neg x \<noteq> neg y"] assms
    by (simp add: fmul_def)
qed

text \<open>Integers that fit in the mantissa are represented exactly.\<close>

lemma fround_int_exact:
  assumes "0 \<le> n" "n < 2 ^ p"
  shows "fval (fround p s n 1) = (if s then - real_of_int n else real_of_int n)"
proof (cases "n = 0")
  case True
  then show ?thesis by (simp add: fround_def fval_def)
next
  case False
  then have n: "0 < n" using assms by simp
  define l where "l = nat (bitlen n)"
  have bl: "bitlen n = int l" using bitlen_nonneg [of n] by (simp add: l_def)
  have one: "bitlen (1::int) = 1"
    by (simp add: bitlen_def floorlog_def)
  have l: "0 < l" "2 ^ (l - 1) \<le> n"
    using n bitlen_bounds [OF n] bitlen_nonneg [of n] bitlen_eq_zero_iff [of n]
    by (auto simp: l_def nat_diff_distrib intro!: gr0I)
  have lp: "l \<le> p"
  proof (rule ccontr)
    assume "\<not> l \<le> p"
    then have "(2::int) ^ p \<le> 2 ^ (l - 1)" by (intro power_increasing) auto
    with l(2) assms(2) show False by linarith
  qed
  have sc: "scaled n 1 (int l - 1 - int p) = (n * 2 ^ (p + 1 - l), 1)"
  proof -
    have "nat (- (int l - 1 - int p)) = p + 1 - l" using lp by simp
    with lp show ?thesis by (simp add: scaled_def)
  qed
  have "2 ^ p * 1 \<le> n * 2 ^ (p + 1 - l)"
  proof -
    have "(2::int) ^ p = 2 ^ (l - 1) * 2 ^ (p + 1 - l)"
      using l(1) lp by (simp flip: power_add)
    also have "\<dots> \<le> n * 2 ^ (p + 1 - l)" using l(2) by (rule mult_right_mono) simp
    finally show ?thesis by simp
  qed
  then have fe: "fround_exp p n 1 = int l - int p"
    using sc by (simp add: fround_exp_def one bl)
  have sc': "scaled n 1 (int l - int p) = (n * 2 ^ (p - l), 1)"
    using lp by (cases "l = p") (simp_all add: scaled_def nat_diff_distrib)
  have "(2::real) ^ (p - l) * 2 powi (int l - int p) = 1"
    using lp by (simp add: power_int_diff power_diff)
  then have "real_of_int n * 2 ^ (p - l) * 2 powi (int l - int p) = real_of_int n"
    by (simp add: mult.assoc)
  with fe sc' n show ?thesis by (simp add: fround_def fval_def)
qed

lemma f_of_int_exact: "\<bar>i\<bar> < 2 ^ p \<Longrightarrow> fval (f_of_int p i) = real_of_int i"
  using fround_int_exact [of "\<bar>i\<bar>" p "i < 0"] by (simp add: f_of_int_def)

lemma f_trunc_abs:
  assumes "fwf x"
  shows "real_of_int \<bar>f_trunc x\<bar> \<le> \<bar>fval x\<bar>" "\<bar>fval x\<bar> < real_of_int \<bar>f_trunc x\<bar> + 1"
proof -
  have v: "\<bar>fval x\<bar> = real_of_int (num x) / real_of_int (den x)"
    using assms by (simp add: fval_num_den abs_mult)
  have "0 \<le> num x div den x" using assms by (simp add: pos_imp_zdiv_nonneg_iff)
  then have t: "real_of_int \<bar>f_trunc x\<bar> = real_of_int (num x div den x)"
    by (simp add: f_trunc_def)
  have "0 \<le> num x mod den x" "num x mod den x < den x" by simp_all
  then have "0 \<le> real_of_int (num x mod den x) / real_of_int (den x)"
       "real_of_int (num x mod den x) / real_of_int (den x) < 1"
    by (simp_all only: zero_le_divide_iff divide_less_eq_1 of_int_0_le_iff of_int_less_iff of_int_0_less_iff den_pos) auto
  with v t div_mod_real [of "den x" "num x"]
  show "real_of_int \<bar>f_trunc x\<bar> \<le> \<bar>fval x\<bar>" "\<bar>fval x\<bar> < real_of_int \<bar>f_trunc x\<bar> + 1"
    by simp_all
qed

text \<open>The signed forms: sums, quotients, conversions and truncation of a non-negative value.\<close>

lemma fround_val:
  assumes "0 \<le> n" "0 < d"
  shows "\<bar>fval (fround p s n d) - (if s then - 1 else 1) * (real_of_int n / real_of_int d)\<bar>
    \<le> real_of_int n / real_of_int d / 2 ^ p"
proof -
  let ?x = "fround p s n d"
  have m: "0 \<le> mant ?x" using fwf_fround [OF assms] by (simp add: fwf_def)
  then have "\<bar>real_of_int (mant ?x) * 2 powi (expo ?x)\<bar> = real_of_int (mant ?x) * 2 powi (expo ?x)" by simp
  then have "fval ?x = (if s then - 1 else 1) * \<bar>fval ?x\<bar>"
    unfolding fval_def fround_sign by (cases s) simp_all
  with fround_error [OF assms, of p s] show ?thesis
    by (cases s) (simp_all add: abs_minus_commute)
qed

lemma fadd_error: "\<bar>fval (fadd p x y) - (fval x + fval y)\<bar> \<le> \<bar>fval x + fval y\<bar> / 2 ^ p"
proof -
  define v where "v = snum x * den y + snum y * den x"
  have d: "0 < den x * den y" by simp
  have dr: "0 < real_of_int (den x * den y)" using d by (simp only: of_int_0_less_iff)
  have dx: "real_of_int (den x) \<noteq> 0" "real_of_int (den y) \<noteq> 0"
    using den_pos [of x] den_pos [of y] by (auto simp del: den_pos)
  have sum: "fval x + fval y = real_of_int v / real_of_int (den x * den y)"
    unfolding fval_snum v_def using dx by (simp add: field_simps)
  have "fadd p x y = fround p (if v = 0 then neg x \<and> neg y else v < 0) \<bar>v\<bar> (den x * den y)"
    by (simp add: fadd_def v_def Let_def)
  moreover have "\<bar>fval x + fval y\<bar> = real_of_int \<bar>v\<bar> / real_of_int (den x * den y)"
    unfolding sum abs_divide using dr by (simp only: of_int_abs abs_of_pos)
  moreover have "(if (if v = 0 then neg x \<and> neg y else v < 0) then - 1 else 1) * (real_of_int \<bar>v\<bar> / real_of_int (den x * den y)) = fval x + fval y"
    unfolding sum by (auto simp: abs_if)
  ultimately show ?thesis
    using fround_val [OF _ d, of "\<bar>v\<bar>" p "if v = 0 then neg x \<and> neg y else v < 0"] by (simp only: abs_ge_zero)
qed

lemma fdiv_error:
  assumes "fwf x" "fwf y" "fval y \<noteq> 0"
  shows "\<bar>fval (fdiv p x y) - fval x / fval y\<bar> \<le> \<bar>fval x / fval y\<bar> / 2 ^ p"
proof -
  have n: "0 < num y" using assms num_nonneg [of y] by (auto simp: fval_num_den order_le_less)
  have d: "0 < den x * num y" "0 \<le> num x * den y"
    using n assms(1) by (simp_all add: mult_nonneg_nonneg order_less_imp_le)
  have q: "fval x / fval y = (if neg x \<noteq> neg y then - 1 else 1) * (real_of_int (num x * den y) / real_of_int (den x * num y))"
    unfolding fval_num_den by (simp add: field_simps)
  have "0 \<le> real_of_int (num x * den y) / real_of_int (den x * num y)"
    using d by (simp only: zero_le_divide_iff of_int_0_le_iff) simp
  then have "\<bar>fval x / fval y\<bar> = real_of_int (num x * den y) / real_of_int (den x * num y)"
    unfolding q abs_mult by (simp only: abs_of_nonneg) simp
  with fround_val [OF d(2,1), of p "neg x \<noteq> neg y"] show ?thesis
    unfolding fdiv_def q [symmetric] by (simp only:)
qed

lemma fwf_ops [simp]:
  "fwf (fdiv p x y)" if "fwf x" "fwf y" "0 < num y"
  using that by (simp add: fdiv_def fwf_fround mult_nonneg_nonneg order_less_imp_le)

lemma fwf_fadd [simp]: "fwf (fadd p x y)"
  by (simp add: fadd_def Let_def fwf_fround)

lemma fwf_f_of_int [simp]: "fwf (f_of_int p i)"
  by (simp add: f_of_int_def fwf_fround)

lemma f_trunc_bounds:
  assumes "fwf x" "0 \<le> fval x"
  shows "0 \<le> f_trunc x" "real_of_int (f_trunc x) \<le> fval x" "fval x < real_of_int (f_trunc x) + 1"
proof -
  have "0 \<le> num x div den x" using assms by (simp add: pos_imp_zdiv_nonneg_iff)
  moreover have "neg x \<Longrightarrow> num x = 0"
    using assms num_nonneg [of x] den_pos [of x]
    by (auto simp: fval_num_den zero_le_divide_iff divide_le_0_iff simp del: den_pos num_nonneg)
  ultimately show p: "0 \<le> f_trunc x" by (auto simp: f_trunc_def)
  from f_trunc_abs [OF assms(1)] p assms(2)
  show "real_of_int (f_trunc x) \<le> fval x" "fval x < real_of_int (f_trunc x) + 1" by auto
qed

lemma f_trunc_eq:
  "fwf x \<Longrightarrow> 0 \<le> k \<Longrightarrow> real_of_int k \<le> fval x \<Longrightarrow> fval x < real_of_int k + 1 \<Longrightarrow> f_trunc x = k"
  using f_trunc_bounds [of x] by (smt (verit) of_int_0_le_iff of_int_less_iff of_int_add of_int_1)

lemma fconv_error:
  assumes "fwf x"
  shows "\<bar>fval (fconv p x) - fval x\<bar> \<le> \<bar>fval x\<bar> / 2 ^ p"
proof -
  have n: "0 \<le> num x" using assms by simp
  have "\<bar>fval x\<bar> = real_of_int (num x) / real_of_int (den x)"
    using assms by (simp add: fval_num_den abs_mult)
  with fround_val [OF n den_pos [of x], of p "neg x"] show ?thesis
    unfolding fconv_def by (simp only: fval_num_den [of x, symmetric])
qed

section \<open>Exact operations\<close>

lemma fval_fneg [simp]: "fval (fneg x) = - fval x"
  by (simp add: fval_def fneg_def)

lemma fval_nonneg: "fwf x \<Longrightarrow> \<not> neg x \<Longrightarrow> 0 \<le> fval x"
  by (simp add: fval_def fwf_def)

text \<open>A value that fits the mantissa is not changed by rounding.\<close>

lemma round_div_exact: "0 < d \<Longrightarrow> round_div (q * d) d = q"
  by (simp add: round_div_def)

lemma fround_repr:
  assumes "0 \<le> n" "0 < d" "real_of_int n / real_of_int d = real_of_int m * 2 powi e" "0 \<le> m" "m < 2 ^ p"
  shows "fval (fround p s n d) = (if s then - 1 else 1) * (real_of_int n / real_of_int d)"
proof (cases "n = 0")
  case True
  then show ?thesis by (simp add: fround_def fval_def)
next
  case False
  then have n: "0 < n" using assms by simp
  define k where "k = fround_exp p n d"
  obtain n1 d1 where sc: "scaled n d k = (n1, d1)" by fastforce
  have d1: "0 < d1" using scaled_pos [OF assms(2) sc] .
  have v: "real_of_int n1 / real_of_int d1 * 2 powi k = real_of_int m * 2 powi e"
    using scaled_value [OF assms(2) sc] assms(3) by simp
  have split: "(2::real) powi e = 2 powi (e - k) * 2 powi k" by (simp flip: power_int_add)
  have q: "real_of_int n1 / real_of_int d1 = real_of_int m * 2 powi (e - k)"
  proof -
    have "real_of_int n1 / real_of_int d1 * 2 powi k = real_of_int m * 2 powi (e - k) * 2 powi k"
      unfolding v split by (simp only: mult.assoc)
    moreover have "(2::real) powi k \<noteq> 0" by simp
    ultimately show ?thesis by (rule mult_right_cancel [THEN iffD1, rotated])
  qed
  have ke: "k \<le> e"
  proof (rule ccontr)
    assume "\<not> k \<le> e"
    then have "(2::real) powi (e - k) \<le> 2 powi (- 1)" by (intro power_int_increasing) simp_all
    then have "real_of_int m * 2 powi (e - k) \<le> real_of_int m * (1 / 2)"
      using assms(4) by (intro mult_left_mono) simp_all
    also have "\<dots> < 2 ^ p * (1 / 2)"
      using assms(5) by (intro mult_strict_right_mono) simp_all
    also have "\<dots> = 2 powi (int p - 1)" by (simp add: power_int_diff)
    finally have "real_of_int m * 2 powi (e - k) < 2 powi (int p - 1)" .
    moreover have "2 powi (int p - 1) \<le> real_of_int n / real_of_int d / 2 powi k"
      unfolding k_def by (rule fround_exp_lower [OF n assms(2)])
    moreover have "real_of_int n / real_of_int d / 2 powi k = real_of_int m * 2 powi (e - k)"
      unfolding assms(3) split by simp
    ultimately show False by simp
  qed
  have "real_of_int n1 / real_of_int d1 = real_of_int (m * 2 ^ nat (e - k))" unfolding q using ke by (simp add: powi_nonneg)
  then have "real_of_int n1 = real_of_int (m * 2 ^ nat (e - k)) * real_of_int d1"
    using d1 by (subst (asm) divide_eq_eq) simp
  then have "n1 = m * 2 ^ nat (e - k) * d1" by (simp only: of_int_mult [symmetric] of_int_eq_iff)
  then have "round_div n1 d1 = m * 2 ^ nat (e - k)" using round_div_exact [OF d1] by simp
  moreover have "fval (fround p s n d) = (if s then - 1 else 1) * (real_of_int (round_div n1 d1) * 2 powi k)"
    using n sc by (simp add: fround_def k_def [symmetric] fval_def)
  moreover have "real_of_int (m * 2 ^ nat (e - k)) * 2 powi k = real_of_int m * 2 powi e"
    using ke unfolding split by (simp add: powi_nonneg)
  ultimately show ?thesis by (simp only: assms(3))
qed

lemma modf_parts:
  assumes "fwf x" "\<not> neg x"
  shows "fval (f_modf_int x) = of_int \<lfloor>fval x\<rfloor>" "fval (f_modf_frac x) = fval x - of_int \<lfloor>fval x\<rfloor>"
    "fwf (f_modf_int x)" "fwf (f_modf_frac x)" "\<not> neg (f_modf_int x)" "\<not> neg (f_modf_frac x)"
proof -
  have v: "fval x = real_of_int (num x) / real_of_int (den x)" using assms(2) by (simp add: fval_num_den)
  have fl: "\<lfloor>fval x\<rfloor> = num x div den x" unfolding v by (rule floor_divide_of_int_eq)
  have n: "0 \<le> num x" using assms(1) by simp
  show i: "fval (f_modf_int x) = of_int \<lfloor>fval x\<rfloor>"
    using assms(2) by (simp add: f_modf_int_def fval_def [of "Fl _ _ _"] fl)
  have d: "real_of_int (num x mod den x) / real_of_int (den x) = fval x - real_of_int (num x div den x)"
    unfolding v using div_mod_real [OF den_pos, of "num x" x] by simp
  show "fval (f_modf_frac x) = fval x - of_int \<lfloor>fval x\<rfloor>"
  proof (cases "0 \<le> expo x")
    case True
    then have "den x = 1" by (simp add: den_def)
    with d True assms(2) show ?thesis by (simp add: f_modf_frac_def fval_def [of "Fl _ _ _"] fl)
  next
    case False
    then have "2 powi (expo x) = 1 / real_of_int (den x)" by (simp add: den_def powi_neg)
    with d False assms(2) show ?thesis
      unfolding f_modf_frac_def by (simp add: fval_def [of "Fl _ _ _"] fl)
  qed
  show "fwf (f_modf_int x)" "fwf (f_modf_frac x)" "\<not> neg (f_modf_int x)" "\<not> neg (f_modf_frac x)"
    using assms n by (simp_all add: f_modf_int_def f_modf_frac_def fwf_def pos_imp_zdiv_nonneg_iff)
qed

lemma f_round_error:
  assumes "fwf x" "\<not> neg x"
  shows "\<bar>fval (f_round x) - fval x\<bar> \<le> 1 / 2" "fwf (f_round x)" "\<not> neg (f_round x)"
    "fval x = of_int k \<Longrightarrow> fval (f_round x) = of_int k" "\<exists>k. 0 \<le> k \<and> fval (f_round x) = of_int k"
proof -
  have v: "fval x = real_of_int (num x) / real_of_int (den x)" using assms(2) by (simp add: fval_num_den)
  have dn: "0 < real_of_int (den x)" by (simp only: of_int_0_less_iff den_pos)
  have f: "fval (f_round x) = of_int \<lfloor>fval x + 1 / 2\<rfloor>"
  proof -
    have "fval x + 1 / 2 = real_of_int (2 * num x + den x) / real_of_int (2 * den x)"
      unfolding v using dn by (simp add: field_simps del: den_pos)
    then have "\<lfloor>fval x + 1 / 2\<rfloor> = (2 * num x + den x) div (2 * den x)"
      by (simp only: floor_divide_of_int_eq)
    then show ?thesis using assms(2) by (simp add: f_round_def fval_def [of "Fl _ _ _"])
  qed
  have n: "0 \<le> (2 * num x + den x) div (2 * den x)" using assms(1) by (simp add: pos_imp_zdiv_nonneg_iff add_nonneg_nonneg order_less_imp_le)
  show "\<bar>fval (f_round x) - fval x\<bar> \<le> 1 / 2" unfolding f by linarith
  show "fwf (f_round x)" "\<not> neg (f_round x)" using n assms by (simp_all add: f_round_def fwf_def)
  show "fval x = of_int k \<Longrightarrow> fval (f_round x) = of_int k" unfolding f by (simp add: floor_eq_iff)
  have "0 \<le> fval x" using assms by (rule fval_nonneg)
  then show "\<exists>k. 0 \<le> k \<and> fval (f_round x) = of_int k" unfolding f by (intro exI [of _ "\<lfloor>fval x + 1 / 2\<rfloor>"]) simp
qed

text \<open>Non-negative operands.\<close>

definition fpos :: "flt \<Rightarrow> bool" where
  "fpos x \<longleftrightarrow> fwf x \<and> \<not> neg x"

lemma fpos_val: "fpos x \<Longrightarrow> 0 \<le> fval x \<and> fval x = real_of_int (num x) / real_of_int (den x) \<and> 0 \<le> num x"
  using fval_nonneg [of x] by (simp add: fpos_def fval_num_den)

lemma fpos_num: "fpos x \<Longrightarrow> 0 < fval x \<Longrightarrow> 0 < num x"
  using fpos_val [of x] by (auto simp: order_le_less)

lemma fpos_fround: "0 \<le> n \<Longrightarrow> 0 < d \<Longrightarrow> fpos (fround p False n d)"
  by (simp add: fpos_def fwf_fround fround_sign)

lemma fpos_ops [intro]:
  "fpos x \<Longrightarrow> fpos y \<Longrightarrow> fpos (fmul p x y)"
  "fpos x \<Longrightarrow> fpos y \<Longrightarrow> 0 < fval y \<Longrightarrow> fpos (fdiv p x y)"
  "fpos x \<Longrightarrow> fpos y \<Longrightarrow> fpos (fadd p x y)"
  "fpos x \<Longrightarrow> fpos (f_round x)" "0 \<le> i \<Longrightarrow> fpos (f_of_int p i)"
  "fpos x \<Longrightarrow> fpos (f_modf_int x)" "fpos x \<Longrightarrow> fpos (f_modf_frac x)"
proof -
  show "fpos x \<Longrightarrow> fpos y \<Longrightarrow> fpos (fmul p x y)"
    by (simp add: fmul_def fpos_def fwf_fround fround_sign)
  show "fpos x \<Longrightarrow> fpos y \<Longrightarrow> 0 < fval y \<Longrightarrow> fpos (fdiv p x y)"
    using fpos_num [of y] by (simp add: fdiv_def fpos_def fwf_fround fround_sign mult_nonneg_nonneg order_less_imp_le)
  show "fpos x \<Longrightarrow> fpos y \<Longrightarrow> fpos (fadd p x y)"
  proof -
    assume "fpos x" "fpos y"
    then have "0 \<le> snum x * den y + snum y * den x"
      by (simp add: fpos_def snum_def add_nonneg_nonneg mult_nonneg_nonneg order_less_imp_le)
    with \<open>fpos x\<close> show ?thesis by (simp add: fadd_def fpos_def Let_def fwf_fround fround_sign)
  qed
  show "fpos x \<Longrightarrow> fpos (f_round x)" by (simp add: fpos_def f_round_error)
  show "0 \<le> i \<Longrightarrow> fpos (f_of_int p i)" by (simp add: fpos_def f_of_int_def fwf_fround fround_sign)
  show "fpos x \<Longrightarrow> fpos (f_modf_int x)" "fpos x \<Longrightarrow> fpos (f_modf_frac x)" by (simp_all add: fpos_def modf_parts)
qed

lemma fmul_val:
  assumes "fpos x" "fpos y"
  shows "\<bar>fval (fmul p x y) - fval x * fval y\<bar> \<le> fval x * fval y / 2 ^ p"
    "fval x * fval y = of_int m \<Longrightarrow> m < 2 ^ p \<Longrightarrow> fval (fmul p x y) = of_int m"
proof -
  have v: "real_of_int (num x * num y) / real_of_int (den x * den y) = fval x * fval y"
    using assms by (simp add: fpos_val)
  have n: "0 \<le> num x * num y" "0 < den x * den y" using assms by (simp_all add: fpos_val)
  have f: "fmul p x y = fround p False (num x * num y) (den x * den y)" using assms by (simp add: fmul_def fpos_def)
  show "\<bar>fval (fmul p x y) - fval x * fval y\<bar> \<le> fval x * fval y / 2 ^ p"
    using fround_val [OF n, of p False] unfolding v f by simp
  assume m: "fval x * fval y = of_int m" "m < 2 ^ p"
  then have "0 \<le> real_of_int m" using fpos_val [OF assms(1)] fpos_val [OF assms(2)] by (metis mult_nonneg_nonneg)
  then have "0 \<le> m" by simp
  then show "fval (fmul p x y) = of_int m"
    using fround_repr [OF n, of m 0 p False] m unfolding v f by simp
qed

lemma fdiv_val:
  assumes "fpos x" "fpos y" "0 < fval y"
  shows "\<bar>fval (fdiv p x y) - fval x / fval y\<bar> \<le> fval x / fval y / 2 ^ p"
    "fval x / fval y = of_int m \<Longrightarrow> m < 2 ^ p \<Longrightarrow> fval (fdiv p x y) = of_int m"
proof -
  have v: "real_of_int (num x * den y) / real_of_int (den x * num y) = fval x / fval y"
    using assms by (simp add: fpos_val)
  have n: "0 \<le> num x * den y" "0 < den x * num y"
    using assms fpos_num [of y] by (simp_all add: fpos_val mult_nonneg_nonneg order_less_imp_le)
  have f: "fdiv p x y = fround p False (num x * den y) (den x * num y)" using assms by (simp add: fdiv_def fpos_def)
  show "\<bar>fval (fdiv p x y) - fval x / fval y\<bar> \<le> fval x / fval y / 2 ^ p"
    using fround_val [OF n, of p False] unfolding v f by simp
  assume m: "fval x / fval y = of_int m" "m < 2 ^ p"
  then have "0 \<le> real_of_int m" using fpos_val [OF assms(1)] fpos_val [OF assms(2)] by (metis divide_nonneg_nonneg)
  then have "0 \<le> m" by simp
  then show "fval (fdiv p x y) = of_int m"
    using fround_repr [OF n, of m 0 p False] m unfolding v f by simp
qed


text \<open>Subtracting an integer below it from a \<^verbatim>\<open>double\<close> is exact.\<close>

lemma fsub_int_exact:
  assumes x: "fpos x" "mant x < 2 ^ p" "fval x < 2 ^ p" and y: "fval y = of_int k" "0 \<le> k" "of_int k \<le> fval x"
  shows "fval (fsub p x y) = fval x - of_int k" "fwf (fsub p x y)"
proof -
  have xv: "fval x = real_of_int (mant x) * 2 powi (expo x)" using x(1) by (simp add: fpos_def fval_def)
  have "\<exists>m e. 0 \<le> m \<and> m < 2 ^ p \<and> fval x - of_int k = real_of_int m * 2 powi e"
  proof (cases "0 \<le> expo x")
    case True
    define m where "m = mant x * 2 ^ nat (expo x) - k"
    have m: "fval x - of_int k = real_of_int m" unfolding xv m_def using True by (simp add: powi_nonneg)
    then have "0 \<le> real_of_int m" "real_of_int m < 2 ^ p" using x(3) y by linarith+
    then have "0 \<le> m" "m < 2 ^ p" by simp_all
    with m show ?thesis by (intro exI [of _ m] exI [of _ 0]) simp
  next
    case False
    define u where "u = (2::int) ^ nat (- expo x)"
    have u: "0 < u" "(2::real) powi (expo x) = 1 / real_of_int u" using False by (simp_all add: u_def powi_neg)
    have m: "fval x - of_int k = real_of_int (mant x - k * u) * 2 powi (expo x)"
      unfolding xv u(2) using u(1) by (simp add: field_simps)
    have "0 \<le> real_of_int (mant x - k * u) * 2 powi (expo x)" using m y(3) by simp
    moreover have "0 < (2::real) powi (expo x)" by simp
    ultimately have "0 \<le> real_of_int (mant x - k * u)" unfolding zero_le_mult_iff by linarith
    then have "0 \<le> mant x - k * u" by (simp only: of_int_0_le_iff)
    moreover have "mant x - k * u < 2 ^ p" using x(2) y(2) u(1) by (smt (verit) mult_nonneg_nonneg)
    ultimately show ?thesis using m by blast
  qed
  then obtain m e where m: "0 \<le> m" "m < 2 ^ p" "fval x - of_int k = real_of_int m * 2 powi e" by blast
  define v where "v = snum x * den (fneg y) + snum (fneg y) * den x"
  have d: "0 < den x * den (fneg y)" by simp
  have dr: "0 < real_of_int (den x)" "0 < real_of_int (den (fneg y))" by (simp_all only: of_int_0_less_iff den_pos)
  have val: "real_of_int v / real_of_int (den x * den (fneg y)) = fval x - of_int k"
  proof -
    have "fval x + fval (fneg y) = real_of_int v / real_of_int (den x * den (fneg y))"
      unfolding fval_snum v_def using dr by (simp add: field_simps del: den_pos)
    then show ?thesis using y(1) by simp
  qed
  then have "0 \<le> real_of_int v / real_of_int (den x * den (fneg y))" using y by simp
  moreover have "0 < real_of_int (den x * den (fneg y))" using dr by (simp only: of_int_mult mult_pos_pos)
  ultimately have "0 \<le> real_of_int v" unfolding zero_le_divide_iff by linarith
  then have v: "0 \<le> v" by simp
  have f: "fsub p x y = fround p False v (den x * den (fneg y))"
    using v x(1) unfolding fsub_def fadd_def v_def [symmetric] by (simp add: fpos_def Let_def)
  show "fval (fsub p x y) = fval x - of_int k"
    using fround_repr [OF v d, of m e p False] m val unfolding f by simp
  show "fwf (fsub p x y)" unfolding f using v d by (rule fwf_fround)
qed

lemma fadd_pos_val:
  "fpos x \<Longrightarrow> fpos y \<Longrightarrow> \<bar>fval (fadd p x y) - (fval x + fval y)\<bar> \<le> (fval x + fval y) / 2 ^ p"
proof -
  assume "fpos x" "fpos y"
  then have "\<bar>fval x + fval y\<bar> = fval x + fval y" using fpos_val [of x] fpos_val [of y] by (intro abs_of_nonneg) auto
  with fadd_error [of p x y] show ?thesis by (simp only:)
qed

end
