(* ===== verification/C_Time.thy ===== *)
theory C_Time
  imports C_Prelude
begin

text \<open>
  Broken-down UTC time as the programs use it: \<^verbatim>\<open>struct tm\<close>, \<^verbatim>\<open>timegm\<close> and \<^verbatim>\<open>gmtime\<close>.
  \<^verbatim>\<open>timegm\<close> accepts fields outside their usual ranges (a second of 60, a day past the end of the
  month) and the pair \<^verbatim>\<open>gmtime (timegm t)\<close> brings them back in range, which is what the data
  acquisition code relies on when it steps the second counter.  \<^verbatim>\<open>time_t\<close> is a 32-bit signed integer
  on the target: an instant outside its range makes \<^verbatim>\<open>timegm\<close> return -1.
  The locale \<open>calendar\<close> states what a client may assume; it is interpreted on the two functions.
\<close>

record tm =
  tm_sec :: int
  tm_min :: int
  tm_hour :: int
  tm_mday :: int
  tm_mon :: int
  tm_year :: int

definition isleap :: "int \<Rightarrow> bool" where
  "isleap y \<longleftrightarrow> (y mod 4 = 0 \<and> y mod 100 \<noteq> 0) \<or> y mod 400 = 0"

definition year_len :: "int \<Rightarrow> int" where
  "year_len y = (if isleap y then 366 else 365)"

definition month_len :: "int \<Rightarrow> int \<Rightarrow> int" where
  "month_len y m =
     (if m = 1 then (if isleap y then 29 else 28)
      else if m = 3 \<or> m = 5 \<or> m = 8 \<or> m = 10 then 30 else 31)"

definition days_before_year :: "int \<Rightarrow> int" where
  "days_before_year y = 365 * (y - 1970) + ((y - 1) div 4 - (y - 1) div 100 + (y - 1) div 400) - 477"

fun days_before_month :: "int \<Rightarrow> nat \<Rightarrow> int" where
  "days_before_month y 0 = 0"
| "days_before_month y (Suc m) = days_before_month y m + month_len y (int m)"

definition civil_seconds :: "tm \<Rightarrow> int" where
  "civil_seconds t =
     (let y = tm_year t + 1900 + tm_mon t div 12;
          days = days_before_year y + days_before_month y (nat (tm_mon t mod 12)) + tm_mday t - 1
      in ((days * 24 + tm_hour t) * 60 + tm_min t) * 60 + tm_sec t)"

definition timegm :: "tm \<Rightarrow> int" where
  "timegm t = (let s = civil_seconds t in if - (2 ^ 31) \<le> s \<and> s < 2 ^ 31 then s else - 1)"

function find_year :: "int \<Rightarrow> int \<Rightarrow> int \<times> int" where
  "find_year y d =
     (if d < 0 then find_year (y - 1) (d + year_len (y - 1))
      else if year_len y \<le> d then find_year (y + 1) (d - year_len y)
      else (y, d))"
  by pat_completeness auto
termination
  by (relation "measure (\<lambda>(y, d). if d < 0 then nat (400 - d) else nat d)")
     (auto simp: year_len_def split: if_splits)

declare find_year.simps [simp del]

fun find_month :: "int \<Rightarrow> nat \<Rightarrow> nat \<Rightarrow> int \<Rightarrow> nat \<times> int" where
  "find_month y 0 m d = (m, d)"
| "find_month y (Suc k) m d =
     (if d < month_len y (int m) then (m, d) else find_month y k (Suc m) (d - month_len y (int m)))"

definition gmtime :: "int \<Rightarrow> tm" where
  "gmtime s =
     (let (y, yd) = find_year 1970 (s div 86400);
          (m, md) = find_month y 11 0 yd;
          r = s mod 86400
      in \<lparr>tm_sec = r mod 60, tm_min = r div 60 mod 60, tm_hour = r div 3600,
          tm_mday = md + 1, tm_mon = int m, tm_year = y - 1900\<rparr>)"

text \<open>A date that \<^verbatim>\<open>gmtime\<close> can return.\<close>

definition tm_valid :: "tm \<Rightarrow> bool" where
  "tm_valid t \<longleftrightarrow>
     0 \<le> tm_sec t \<and> tm_sec t < 60 \<and> 0 \<le> tm_min t \<and> tm_min t < 60 \<and> 0 \<le> tm_hour t \<and> tm_hour t < 24 \<and>
     0 \<le> tm_mon t \<and> tm_mon t < 12 \<and> 1 \<le> tm_mday t \<and>
     tm_mday t \<le> month_len (tm_year t + 1900) (tm_mon t)"

section \<open>Years\<close>

lemma year_len_pos: "365 \<le> year_len y" "year_len y \<le> 366"
  by (simp_all add: year_len_def)

lemma div_step: "(0::int) < k \<Longrightarrow> y div k = (y - 1) div k + (if y mod k = 0 then 1 else 0)"
proof -
  assume k: "0 < k"
  show ?thesis
  proof (cases "y mod k = 0")
    case True
    then obtain q where "y = k * q" by (auto simp: mod_eq_0_iff_dvd dvd_def)
    moreover have "(k * q - 1) div k = q - 1"
      using k by (intro int_div_pos_eq [where r = "k - 1"]) (simp_all add: algebra_simps)
    ultimately show ?thesis using k by simp
  next
    case False
    have "(y - 1) div k = y div k"
    proof (rule int_div_pos_eq)
      show "y - 1 = k * (y div k) + (y mod k - 1)" by (simp add: algebra_simps)
      show "0 \<le> y mod k - 1" using False k pos_mod_sign [of k y] by linarith
      show "y mod k - 1 < k" using k pos_mod_bound [of k y] by linarith
    qed
    with False show ?thesis by simp
  qed
qed

lemma mod_dvd_zero: "y mod 400 = 0 \<Longrightarrow> y mod 100 = (0::int)" "y mod 100 = 0 \<Longrightarrow> y mod 4 = (0::int)"
proof -
  have d: "(100::int) dvd 400" "(4::int) dvd 100" by simp_all
  show "y mod 400 = 0 \<Longrightarrow> y mod 100 = (0::int)"
    unfolding mod_eq_0_iff_dvd by (rule dvd_trans [OF d(1)])
  show "y mod 100 = 0 \<Longrightarrow> y mod 4 = (0::int)"
    unfolding mod_eq_0_iff_dvd by (rule dvd_trans [OF d(2)])
qed

lemma days_before_year_Suc: "days_before_year (y + 1) = days_before_year y + year_len y"
proof -
  define a b c where "a = (y mod 4 = 0)" and "b = (y mod 100 = 0)" and "c = (y mod 400 = 0)"
  have q: "y div 4 = (y - 1) div 4 + (if a then 1 else 0)"
    "y div 100 = (y - 1) div 100 + (if b then 1 else 0)"
    "y div 400 = (y - 1) div 400 + (if c then 1 else 0)"
    unfolding a_def b_def c_def by (rule div_step, simp)+
  have bc: "c \<longrightarrow> b" "b \<longrightarrow> a"
    using mod_dvd_zero [of y] unfolding a_def b_def c_def by blast+
  have "year_len y = 365 + (if a then 1 else 0) - (if b then 1 else 0) + (if c then 1 else 0)"
    using bc unfolding year_len_def isleap_def a_def [symmetric] b_def [symmetric] c_def [symmetric] by auto
  then show ?thesis
    unfolding days_before_year_def add_diff_cancel_right' q by (simp only: algebra_simps)
qed

lemma days_before_year_mono: "y < z \<Longrightarrow> days_before_year y + year_len y \<le> days_before_year z"
proof (induction "nat (z - y)" arbitrary: y)
  case 0
  then show ?case by simp
next
  case (Suc n)
  show ?case
  proof (cases "y + 1 = z")
    case True
    then show ?thesis using days_before_year_Suc [of y] by simp
  next
    case False
    then have "n = nat (z - (y + 1))" "y + 1 < z" using Suc.hyps(2) Suc.prems by auto
    with Suc.hyps(1) have "days_before_year (y + 1) + year_len (y + 1) \<le> days_before_year z" by blast
    then show ?thesis using days_before_year_Suc [of y] year_len_pos [of "y + 1"] by simp
  qed
qed

lemma find_year_sound:
  "find_year y d = (y', d') \<Longrightarrow> days_before_year y + d = days_before_year y' + d' \<and> 0 \<le> d' \<and> d' < year_len y'"
proof (induction y d rule: find_year.induct)
  case (1 y d)
  consider "d < 0" | "0 \<le> d" "year_len y \<le> d" | "0 \<le> d" "d < year_len y" by linarith
  then show ?case
  proof cases
    case 1
    with "1.IH"(1) "1.prems" show ?thesis
      using days_before_year_Suc [of "y - 1"] by (simp add: find_year.simps [of y d])
  next
    case 2
    with "1.IH"(2) "1.prems" show ?thesis
      using days_before_year_Suc [of y] by (simp add: find_year.simps [of y d])
  next
    case 3
    with "1.prems" show ?thesis by (simp add: find_year.simps [of y d])
  qed
qed

lemma year_unique:
  assumes "days_before_year y + d = days_before_year z + e"
    "0 \<le> d" "d < year_len y" "0 \<le> e" "e < year_len z"
  shows "y = z \<and> d = e"
  using assms days_before_year_mono [of y z] days_before_year_mono [of z y]
  by (cases y z rule: linorder_cases) auto

lemma find_year_complete:
  assumes "0 \<le> d" "d < year_len y"
  shows "find_year 1970 (days_before_year y + d) = (y, d)"
proof -
  obtain y' d' where f: "find_year 1970 (days_before_year y + d) = (y', d')" by fastforce
  have z: "days_before_year 1970 = 0" by (simp add: days_before_year_def)
  from find_year_sound [OF f] z
  have "days_before_year y + d = days_before_year y' + d'" "0 \<le> d'" "d' < year_len y'" by auto
  from year_unique [OF this(1) assms this(2,3)] show ?thesis using f by simp
qed

section \<open>Months\<close>

lemma month_len_pos: "28 \<le> month_len y m" "month_len y m \<le> 31"
  by (auto simp: month_len_def)

lemma days_before_month_12: "days_before_month y 12 = year_len y"
  by (simp add: numeral_eq_Suc month_len_def year_len_def)

lemma find_month_sound:
  "find_month y k m d = (m', d') \<Longrightarrow> 0 \<le> d \<Longrightarrow> days_before_month y m + d < days_before_month y (Suc (m + k)) \<Longrightarrow>
   days_before_month y m + d = days_before_month y m' + d' \<and> 0 \<le> d' \<and> d' < month_len y (int m') \<and> m' \<le> m + k"
proof (induction y k m d rule: find_month.induct)
  case (1 y m d)
  then show ?case by simp
next
  case (2 y k m d)
  then show ?case by (cases "d < month_len y (int m)") auto
qed

lemma days_before_month_mono: "m < n \<Longrightarrow> days_before_month y m + month_len y (int m) \<le> days_before_month y n"
proof (induction n)
  case 0
  then show ?case by simp
next
  case (Suc n)
  show ?case
  proof (cases "m = n")
    case True
    then show ?thesis by simp
  next
    case False
    with Suc show ?thesis using month_len_pos [of y "int n"] by simp
  qed
qed

lemma month_unique:
  assumes "days_before_month y m + d = days_before_month y n + e"
    "0 \<le> d" "d < month_len y (int m)" "0 \<le> e" "e < month_len y (int n)"
  shows "m = n \<and> d = e"
  using assms days_before_month_mono [of m n y] days_before_month_mono [of n m y]
  by (cases m n rule: linorder_cases) auto

lemma month_in_year: "m < 12 \<Longrightarrow> 0 \<le> d \<Longrightarrow> d < month_len y (int m) \<Longrightarrow>
    0 \<le> days_before_month y m + d \<and> days_before_month y m + d < year_len y"
proof -
  assume a: "m < 12" "0 \<le> d" "d < month_len y (int m)"
  have "0 \<le> days_before_month y m"
    using month_len_pos by (induction m) (simp_all add: add_nonneg_nonneg order_trans [OF _ month_len_pos(1)])
  with a days_before_month_mono [OF a(1), of y] days_before_month_12 [of y] show ?thesis by simp
qed

section \<open>Round trips\<close>

lemma div_mod_60:
  fixes a b :: int
  assumes "0 \<le> b" "b < 60"
  shows "(a * 60 + b) div 60 = a" "(a * 60 + b) mod 60 = b"
  using assms by simp_all

lemma clock_split:
  fixes r :: int
  assumes "0 \<le> r" "r < 86400"
  shows "(r div 3600 * 60 + r div 60 mod 60) * 60 + r mod 60 = r" "r div 3600 < 24" "0 \<le> r div 3600"
proof -
  have "r div 3600 = r div 60 div 60" by (simp flip: zdiv_zmult2_eq)
  then show "(r div 3600 * 60 + r div 60 mod 60) * 60 + r mod 60 = r" by simp
  show "r div 3600 < 24" "0 \<le> r div 3600"
    using assms by (simp_all add: div_less_iff_less_mult pos_imp_zdiv_nonneg_iff)
qed

theorem civil_seconds_gmtime: "civil_seconds (gmtime s) = s \<and> tm_valid (gmtime s)"
proof -
  obtain y yd where y: "find_year 1970 (s div 86400) = (y, yd)" by fastforce
  obtain m md where m: "find_month y 11 0 yd = (m, md)" by fastforce
  have z: "days_before_year 1970 = 0" by (simp add: days_before_year_def)
  from find_year_sound [OF y] z
  have ys: "s div 86400 = days_before_year y + yd" "0 \<le> yd" "yd < year_len y" by auto
  from find_month_sound [OF m ys(2)] ys(3)
  have ms: "yd = days_before_month y m + md" "0 \<le> md" "md < month_len y (int m)" "m \<le> 11"
    using days_before_month_12 [of y] by (auto simp: numeral_eq_Suc)
  have r: "0 \<le> s mod 86400" "s mod 86400 < 86400" by simp_all
  define rr where "rr = s mod 86400"
  have m12: "int m div 12 = 0" "nat (int m mod 12) = m" using ms(4) by simp_all
  have "civil_seconds (gmtime s) =
      (((days_before_year y + days_before_month y m + (md + 1) - 1) * 24 + rr div 3600) * 60 + rr div 60 mod 60) * 60 + rr mod 60"
    by (simp only: gmtime_def y m Let_def prod.case civil_seconds_def tm.simps rr_def [symmetric] m12)
      (simp only: diff_add_cancel m12 add_0_right)
  also have "\<dots> = (days_before_year y + yd) * 86400 + ((rr div 3600 * 60 + rr div 60 mod 60) * 60 + rr mod 60)"
    unfolding ms(1) by (simp only: algebra_simps)
  also have "\<dots> = s div 86400 * 86400 + s mod 86400"
    using clock_split(1) [OF r] by (simp only: ys(1) rr_def)
  finally have "civil_seconds (gmtime s) = s div 86400 * 86400 + s mod 86400" .
  moreover have "tm_valid (gmtime s)"
    using ms(2-4) clock_split(2,3) [OF r] by (simp add: gmtime_def y m tm_valid_def Let_def)
  ultimately show ?thesis by simp
qed

theorem gmtime_civil_seconds:
  assumes "tm_valid t"
  shows "gmtime (civil_seconds t) = t"
proof -
  define y where "y = tm_year t + 1900"
  define m where "m = nat (tm_mon t)"
  define d where "d = tm_mday t - 1"
  define r where "r = (tm_hour t * 60 + tm_min t) * 60 + tm_sec t"
  have v: "0 \<le> tm_sec t" "tm_sec t < 60" "0 \<le> tm_min t" "tm_min t < 60" "0 \<le> tm_hour t" "tm_hour t < 24"
    and mm: "tm_mon t = int m" "m < 12" "0 \<le> d" "d < month_len y (int m)"
    using assms by (auto simp: tm_valid_def y_def m_def d_def)
  have r: "0 \<le> r" "r < 86400" using v by (auto simp: r_def)
  have r60: "r mod 60 = tm_sec t" "r div 60 = tm_hour t * 60 + tm_min t"
    unfolding r_def by (rule div_mod_60 [OF v(1,2)])+
  have r3: "r div 60 mod 60 = tm_min t" "r div 3600 = tm_hour t"
    using div_mod_60 [OF v(3,4), of "tm_hour t"] zdiv_zmult2_eq [of 60 r 60] unfolding r60(2) by simp_all
  define D where "D = days_before_year y + (days_before_month y m + d)"
  have s: "civil_seconds t = D * 86400 + r"
  proof -
    have "int m div 12 = 0" "nat (int m mod 12) = m" using mm(2) by simp_all
    then have "civil_seconds t = (((days_before_year y + days_before_month y m + tm_mday t - 1) * 24 + tm_hour t) * 60 + tm_min t) * 60 + tm_sec t"
      unfolding civil_seconds_def mm(1) by (simp only: Let_def y_def add_0_right)
    then show ?thesis unfolding D_def d_def r_def by (simp only: algebra_simps)
  qed
  have "civil_seconds t div 86400 = D" "civil_seconds t mod 86400 = r"
    using r unfolding s by simp_all
  moreover have f: "find_year 1970 D = (y, days_before_month y m + d)"
    unfolding D_def using month_in_year [OF mm(2-4)] by (intro find_year_complete) auto
  moreover have "find_month y 11 0 (days_before_month y m + d) = (m, d)"
  proof -
    obtain m' d' where g: "find_month y 11 0 (days_before_month y m + d) = (m', d')" by fastforce
    have "days_before_month y m + d < days_before_month y (Suc (0 + 11))"
      using month_in_year [OF mm(2-4)] days_before_month_12 [of y] by (simp add: numeral_eq_Suc)
    with find_month_sound [OF g] month_in_year [OF mm(2-4)]
    have "days_before_month y m + d = days_before_month y m' + d'" "0 \<le> d'" "d' < month_len y (int m')" by auto
    with month_unique mm show ?thesis using g by blast
  qed
  ultimately show ?thesis
    by (simp only: gmtime_def Let_def prod.case r60(1) r3 mm(1) [symmetric]) (simp add: y_def d_def)
qed

section \<open>The interface of the calendar\<close>

text \<open>What the clients use: a conversion to an instant and back.  The client lemmas say that the
  pair normalises a date, and that normalising twice changes nothing.\<close>

locale calendar =
  fixes to_instant :: "'d \<Rightarrow> int" and of_instant :: "int \<Rightarrow> 'd" and in_range :: "'d \<Rightarrow> bool"
  assumes to_of: "to_instant (of_instant s) = s"
    and of_to: "in_range d \<Longrightarrow> of_instant (to_instant d) = d"
    and of_range: "in_range (of_instant s)"
begin

lemma normalise_range: "in_range (of_instant (to_instant d))"
  by (rule of_range)

lemma normalise_idem: "of_instant (to_instant (of_instant (to_instant d))) = of_instant (to_instant d)"
  by (simp add: to_of)

lemma instant_inj: "in_range d \<Longrightarrow> in_range e \<Longrightarrow> to_instant d = to_instant e \<Longrightarrow> d = e"
  by (metis of_to)

end

interpretation utc: calendar civil_seconds gmtime tm_valid
  by unfold_locales (simp_all add: civil_seconds_gmtime gmtime_civil_seconds)

lemma timegm_in_range: "- (2 ^ 31) \<le> civil_seconds t \<Longrightarrow> civil_seconds t < 2 ^ 31 \<Longrightarrow> timegm t = civil_seconds t"
  by (simp add: timegm_def)

lemma tm_valid_gmtime [simp]: "tm_valid (gmtime s)"
  by (rule utc.of_range)

end
