(* ===== verification/Platform.thy ===== *)
theory Platform
  imports C_Lib C_Float C_Time
begin

text \<open>
  The platform below the programs: what the operating system, the devices and the mathematical
  library answer is not under \<^verbatim>\<open>src/\<close>, so it is a parameter (the record \<open>env\<close>), and what the programs
  have done to it so far is the state \<open>os\<close>.
  \<^item> Every volatile access to a device register is an event of the history \<open>hist\<close> (newest first); the
    value a read returns is a function \<open>bus\<close> of the history, the device and the offset.
  \<^item> A mapped region is a pointer with the device path, the offset of the map and its length.  An
    access outside the mapped pages, through \<^verbatim>\<open>NULL\<close> or \<^verbatim>\<open>MAP_FAILED\<close>, or misaligned, is a fault.
  \<^item> Text printed to \<^verbatim>\<open>stdout\<close>, \<^verbatim>\<open>stderr\<close> and to files, opened and closed descriptors, transfers on the
    I2C bus, the number of calls of \<^verbatim>\<open>time\<close> and \<^verbatim>\<open>malloc\<close>, and the bytes waiting on the serial line
    are the rest of the state.
  The locale \<open>register_bank\<close> states what a client may assume of read/write registers; it is
  interpreted on the histories of a device whose registers keep the last value written.
\<close>

section \<open>Pointers and device accesses\<close>

datatype ptr = Null | Map_Failed | Mapped string int int

datatype bus_ev = Rd string int | Wr string int u32

datatype i2c_op = I2c_Write int int | I2c_Read_Word int | I2c_Read_Byte int

datatype rx = NoData | Byte char

record env =
  os_open :: "(string \<times> int) list \<Rightarrow> string \<Rightarrow> int"
  sysfs_file :: "string \<Rightarrow> string option"
  page_size :: int
  os_mmap :: "string \<Rightarrow> int \<Rightarrow> int \<Rightarrow> bool"
  cma_alloc :: "u32 \<Rightarrow> u32 option"
  uninit :: u32
  bus :: "bus_ev list \<Rightarrow> string \<Rightarrow> int \<Rightarrow> u32"
  os_malloc :: "nat \<Rightarrow> int \<Rightarrow> int option"
  i2c_slave :: "int \<Rightarrow> int"
  i2c_word :: "i2c_op list \<Rightarrow> int \<Rightarrow> int"
  i2c_byte :: "i2c_op list \<Rightarrow> int \<Rightarrow> int"
  f_pow :: "flt \<Rightarrow> flt \<Rightarrow> flt"
  os_fopen :: "string \<Rightarrow> bool"
  os_time :: "nat \<Rightarrow> int"
  host_name :: string
  ctime_r :: "int \<Rightarrow> string"
  uart_write :: "string \<Rightarrow> int"
  thread_rc :: int

record os =
  out :: string
  err :: string
  opens :: "(string \<times> int) list"
  closed :: "int list"
  hist :: "bus_ev list"
  i2c_log :: "i2c_op list"
  mallocs :: nat
  clock :: nat
  files :: "string \<Rightarrow> string"
  rx_line :: "rx list"

section \<open>Operations\<close>

definition puts_out :: "string \<Rightarrow> ('a os_scheme, unit) io" where
  "puts_out t = modify (\<lambda>s. s\<lparr>out := out s @ t\<rparr>)"

definition puts_err :: "string \<Rightarrow> ('a os_scheme, unit) io" where
  "puts_err t = modify (\<lambda>s. s\<lparr>err := err s @ t\<rparr>)"

definition sys_open :: "env \<Rightarrow> string \<Rightarrow> ('a os_scheme, int) io" where
  "sys_open E path = (\<lambda>s. let fd = os_open E (opens s) path in Done fd (s\<lparr>opens := (path, fd) # opens s\<rparr>))"

definition sys_close :: "int \<Rightarrow> ('a os_scheme, unit) io" where
  "sys_close fd = modify (\<lambda>s. s\<lparr>closed := fd # closed s\<rparr>)"

definition sys_time :: "env \<Rightarrow> ('a os_scheme, int) io" where
  "sys_time E = (\<lambda>s. Done (os_time E (clock s)) (s\<lparr>clock := Suc (clock s)\<rparr>))"

text \<open>\<^verbatim>\<open>mmap(NULL, len, PROT_READ|PROT_WRITE, MAP_SHARED, fd, off)\<close> on the device \<open>path\<close>.\<close>

definition sys_mmap :: "env \<Rightarrow> string \<Rightarrow> int \<Rightarrow> int \<Rightarrow> ptr" where
  "sys_mmap E path off len = (if 0 < len \<and> os_mmap E path off len then Mapped path off len else Map_Failed)"

definition page_round :: "env \<Rightarrow> int \<Rightarrow> int" where
  "page_round E n = (n + page_size E - 1) div page_size E * page_size E"

text \<open>The device cell a word access at \<open>p + off\<close> reaches, if any.\<close>

fun cell :: "env \<Rightarrow> ptr \<Rightarrow> u32 \<Rightarrow> (string \<times> int) option" where
  "cell E (Mapped path base len) off =
     (if uint off mod 4 = 0 \<and> uint off + 4 \<le> page_round E len then Some (path, base + uint off) else None)"
| "cell E Null off = None"
| "cell E Map_Failed off = None"

section \<open>Register banks\<close>

text \<open>The last value written to a register of a device in a history, or its value at power-up.\<close>

fun last_write :: "(int \<Rightarrow> u32) \<Rightarrow> bus_ev list \<Rightarrow> string \<Rightarrow> int \<Rightarrow> u32" where
  "last_write z [] p a = z a"
| "last_write z (Wr q b v # h) p a = (if p = q \<and> a = b then v else last_write z h p a)"
| "last_write z (Rd q b # h) p a = last_write z h p a"

text \<open>The configuration registers of the programmable logic (\<^verbatim>\<open>axi_cfg_register\<close>) read back the last
  value written; this is the hypothesis on the hardware the configuration properties name.\<close>

definition holds_writes :: "env \<Rightarrow> string \<Rightarrow> (int \<Rightarrow> u32) \<Rightarrow> bool" where
  "holds_writes E p z \<longleftrightarrow> (\<forall>h a. bus E h p a = last_write z h p a)"

locale register_bank =
  fixes rd :: "'h \<Rightarrow> 'o \<Rightarrow> u32" and wr :: "'o \<Rightarrow> u32 \<Rightarrow> 'h \<Rightarrow> 'h" and touch :: "'o \<Rightarrow> 'h \<Rightarrow> 'h"
  assumes rd_wr: "rd (wr a v h) b = (if a = b then v else rd h b)"
    and rd_touch: "rd (touch a h) b = rd h b"
begin

definition rmw :: "'o \<Rightarrow> (u32 \<Rightarrow> u32) \<Rightarrow> 'h \<Rightarrow> 'h" where
  "rmw a f h = wr a (f (rd h a)) (touch a h)"

lemma rd_rmw: "rd (rmw a f h) b = (if a = b then f (rd h a) else rd h b)"
  by (simp add: rmw_def rd_wr rd_touch)

lemma rmw_fold: "rd (rmw a g (rmw a f h)) a = g (f (rd h a))"
  by (simp add: rd_rmw)

lemma set_bits: "bit (rd (rmw a (\<lambda>v. v OR m) h) a) n = (bit (rd h a) n \<or> bit m n)"
  by (simp add: rd_rmw bit_or_iff)

lemma clear_bits: "bit (rd (rmw a (\<lambda>v. v AND NOT m) h) a) n = (bit (rd h a) n \<and> \<not> bit m n)"
  by (cases "n < 32") (auto simp: rd_rmw bit_and_iff bit_not_iff dest: bit_imp_le_length)

lemma set_clear: "rd h a AND m = 0 \<Longrightarrow> rd (rmw a (\<lambda>v. v AND NOT m) (rmw a (\<lambda>v. v OR m) h)) a = rd h a"
proof (rule bit_word_eqI)
  fix n assume z: "rd h a AND m = 0" and "n < LENGTH(32)"
  then have "\<not> (bit (rd h a) n \<and> bit m n)" by (metis bit_0_eq bit_and_iff bot_apply bot_bool_def)
  then show "bit (rd (rmw a (\<lambda>v. v AND NOT m) (rmw a (\<lambda>v. v OR m) h)) a) n = bit (rd h a) n"
    by (simp add: clear_bits set_bits) blast
qed

end

interpretation bank: register_bank "\<lambda>h a. last_write z h p a" "\<lambda>a v h. Wr p a v # h" "\<lambda>a h. Rd p a # h"
  for z p
  by unfold_locales auto

lemma last_write_other [simp]: "p \<noteq> q \<Longrightarrow> last_write z (Wr q b v # h) p a = last_write z h p a"
  by simp

text \<open>The writes of a history; they alone determine what the registers hold.\<close>

fun is_write :: "bus_ev \<Rightarrow> bool" where
  "is_write (Wr p a v) = True"
| "is_write (Rd p a) = False"

definition writes :: "'a os_scheme \<Rightarrow> bus_ev list" where
  "writes s = filter is_write (hist s)"

lemma last_write_writes: "last_write z (filter is_write h) p a = last_write z h p a"
  by (induction z h p a rule: last_write.induct) simp_all

section \<open>Evaluation rules\<close>

lemma puts_out_app [simp, io_simps]: "puts_out t s = Done () (s\<lparr>out := out s @ t\<rparr>)"
  by (simp add: puts_out_def)

lemma puts_err_app [simp, io_simps]: "puts_err t s = Done () (s\<lparr>err := err s @ t\<rparr>)"
  by (simp add: puts_err_def)

lemma sys_open_app [simp, io_simps]:
  "sys_open E path s = Done (os_open E (opens s) path) (s\<lparr>opens := (path, os_open E (opens s) path) # opens s\<rparr>)"
  by (simp add: sys_open_def Let_def)

lemma sys_close_app [simp, io_simps]: "sys_close fd s = Done () (s\<lparr>closed := fd # closed s\<rparr>)"
  by (simp add: sys_close_def)

lemma sys_time_app [simp, io_simps]:
  "sys_time E s = Done (os_time E (clock s)) (s\<lparr>clock := Suc (clock s)\<rparr>)"
  by (simp add: sys_time_def)

lemma page_round_ge:
  assumes "0 < page_size E"
  shows "n \<le> page_round E n"
proof -
  have "n + page_size E - 1 = page_round E n + (n + page_size E - 1) mod page_size E"
    by (simp add: page_round_def)
  with pos_mod_bound [OF assms, of "n + page_size E - 1"] show ?thesis by linarith
qed

lemma page_round_exact: "0 < page_size E \<Longrightarrow> page_round E (k * page_size E) = k * page_size E"
proof -
  assume p: "0 < page_size E"
  have "(k * page_size E + page_size E - 1) div page_size E = k"
    using p by (intro int_div_pos_eq [where r = "page_size E - 1"]) (simp_all add: algebra_simps)
  then show ?thesis by (simp add: page_round_def)
qed

section \<open>A bench set-up\<close>

text \<open>A concrete platform on which the witnesses evaluate the model: every device opens and maps, registers
  keep what is written, the I2C bus answers zeros and the serial line is silent.\<close>

definition bench :: env where
  "bench =
     \<lparr>os_open = (\<lambda>h p. 3 + int (length h)), sysfs_file = (\<lambda>p. Some (''0x00001000'' @ nl)), page_size = 4096,
      os_mmap = (\<lambda>p a l. True), cma_alloc = (\<lambda>n. Some 0x1E000000), uninit = 0,
      bus = last_write (\<lambda>a. 0), os_malloc = (\<lambda>n k. Some (k + 8)), i2c_slave = (\<lambda>a. 0),
      i2c_word = (\<lambda>h r. 0), i2c_byte = (\<lambda>h r. 0), f_pow = (\<lambda>x y. x), os_fopen = (\<lambda>p. True),
      os_time = (\<lambda>n. 1500000000), host_name = ''rp'', ctime_r = (\<lambda>t. ''Fri Jul 14 02:40:00 2017'' @ nl), uart_write = (\<lambda>t. int (length t)),
      thread_rc = 0\<rparr>"

definition os0 :: os where
  "os0 = \<lparr>out = [], err = [], opens = [], closed = [], hist = [], i2c_log = [], mallocs = 0, clock = 0,
          files = (\<lambda>p. []), rx_line = []\<rparr>"

lemma bench_simps [simp]:
  "page_size bench = 4096" "bus bench = last_write (\<lambda>a. 0)" "os_mmap bench p a l" "uninit bench = 0"
  "os_open bench h p = 3 + int (length h)" "cma_alloc bench n = Some 0x1E000000"
  "os_fopen bench p" "os_time bench k = 1500000000" "holds_writes bench p (\<lambda>a. 0)"
  by (simp_all add: bench_def holds_writes_def)

end
