(* ===== verification/Zynq_IO.thy ===== *)
theory Zynq_IO
  imports Platform
begin

text \<open>
  The hardware access layer of the LAGO acquisition program, \<^verbatim>\<open>zynq_io.c\<close> and \<^verbatim>\<open>zynq_io.h\<close>: the
  register maps, the mapping of the UIO devices and of the contiguous buffer, register reads and
  writes, the status report, the slow converters and the power-up configuration.  The global
  variables of the file are the record \<open>zynq\<close>.
\<close>

section \<open>Register maps\<close>

datatype intc_reg = ISR | IPR | IER | IAR | SIE | CIE | IVR | MER | IMR | ILR | IVAR

fun intc_off :: "intc_reg \<Rightarrow> u32" where
  "intc_off ISR = 0x0"
| "intc_off IPR = 0x4"
| "intc_off IER = 0x8"
| "intc_off IAR = 0xC"
| "intc_off SIE = 0x10"
| "intc_off CIE = 0x14"
| "intc_off IVR = 0x18"
| "intc_off MER = 0x1C"
| "intc_off IMR = 0x20"
| "intc_off ILR = 0x24"
| "intc_off IVAR = 0x100"

datatype cfg_reg =
    RESET_GRAL | NSAMPLES | TRLVL_1 | TRLVL_2 | STRLVL_1 | STRLVL_2 | TEMPERATURE | PRESSURE | TIME | DATE
  | LATITUDE | LONGITUDE | ALTITUDE | SATELLITE | TR_SCAL_A | TR_SCAL_B | HV1 | HV2 | HV3 | HV4
  | HST0 | HST1 | WR_ADDR

fun cfg_off :: "cfg_reg \<Rightarrow> u32" where
  "cfg_off RESET_GRAL = 0x0"
| "cfg_off NSAMPLES = 0x4"
| "cfg_off TRLVL_1 = 0x8"
| "cfg_off TRLVL_2 = 0xC"
| "cfg_off STRLVL_1 = 0x10"
| "cfg_off STRLVL_2 = 0x14"
| "cfg_off TEMPERATURE = 0x18"
| "cfg_off PRESSURE = 0x1C"
| "cfg_off TIME = 0x20"
| "cfg_off DATE = 0x24"
| "cfg_off LATITUDE = 0x28"
| "cfg_off LONGITUDE = 0x2C"
| "cfg_off ALTITUDE = 0x30"
| "cfg_off SATELLITE = 0x34"
| "cfg_off TR_SCAL_A = 0x38"
| "cfg_off TR_SCAL_B = 0x3C"
| "cfg_off HV1 = 0x4C"
| "cfg_off HV2 = 0x48"
| "cfg_off HV3 = 0x40"
| "cfg_off HV4 = 0x44"
| "cfg_off HST0 = 0x50"
| "cfg_off HST1 = 0x54"
| "cfg_off WR_ADDR = 0x58"

definition FGPS_EN_MASK :: u32 where "FGPS_EN_MASK = 0x10"
definition MER_ME_MASK :: u32 where "MER_ME_MASK = 1"
definition MER_HIE_MASK :: u32 where "MER_HIE_MASK = 2"
definition STS_STATUS_OFFSET :: u32 where "STS_STATUS_OFFSET = 0"
definition HST0_BASEADDR :: int where "HST0_BASEADDR = 0x40010000"
definition HST1_BASEADDR :: int where "HST1_BASEADDR = 0x40020000"

definition xadc_vaux_off :: "u32 \<Rightarrow> u32" where
  "xadc_vaux_off i = 0x240 + 4 * i"

definition XADC_AI0 :: u32 where "XADC_AI0 = xadc_vaux_off 8"
definition XADC_AI1 :: u32 where "XADC_AI1 = xadc_vaux_off 0"
definition XADC_AI2 :: u32 where "XADC_AI2 = xadc_vaux_off 1"
definition XADC_AI3 :: u32 where "XADC_AI3 = xadc_vaux_off 9"

definition XADC_CONV_VAL :: flt where "XADC_CONV_VAL = dlit 171191993362 (10 ^ 14)"

section \<open>State\<close>

record zynq = os +
  intc_fd :: int
  cfg_fd :: int
  sts_fd :: int
  xadc_fd :: int
  mem_fd :: int
  hst0_fd :: int
  hst1_fd :: int
  cma_fd :: int
  intc_ptr :: ptr
  cfg_ptr :: ptr
  sts_ptr :: ptr
  xadc_ptr :: ptr
  mem_ptr :: ptr
  hst0_ptr :: ptr
  hst1_ptr :: ptr
  cma_ptr :: ptr
  dev_size :: u32

section \<open>Register access\<close>

definition dev_write :: "env \<Rightarrow> ptr \<Rightarrow> u32 \<Rightarrow> i32 \<Rightarrow> ('a os_scheme, unit) io" where
  "dev_write E dev_base offset value =
     (\<lambda>s. case cell E dev_base offset of
        None \<Rightarrow> Stopped Fault s
      | Some (p, a) \<Rightarrow> Done () (s\<lparr>hist := Wr p a value # hist s\<rparr>))"

definition dev_read :: "env \<Rightarrow> ptr \<Rightarrow> u32 \<Rightarrow> ('a os_scheme, u32) io" where
  "dev_read E dev_base offset =
     (\<lambda>s. case cell E dev_base offset of
        None \<Rightarrow> Stopped Fault s
      | Some (p, a) \<Rightarrow> Done (bus E (hist s) p a) (s\<lparr>hist := Rd p a # hist s\<rparr>))"

text \<open>\<^verbatim>\<open>dev_read(cfg_ptr, off)\<close> and \<^verbatim>\<open>dev_write(cfg_ptr, off, v)\<close>, and the read-modify-write pairs.\<close>

definition cfg_read :: "env \<Rightarrow> u32 \<Rightarrow> ('a zynq_scheme, u32) io" where
  "cfg_read E off = bnd (gets cfg_ptr) (\<lambda>p. dev_read E p off)"

definition cfg_write :: "env \<Rightarrow> u32 \<Rightarrow> i32 \<Rightarrow> ('a zynq_scheme, unit) io" where
  "cfg_write E off v = bnd (gets cfg_ptr) (\<lambda>p. dev_write E p off v)"

definition cfg_rmw :: "env \<Rightarrow> u32 \<Rightarrow> (u32 \<Rightarrow> u32) \<Rightarrow> ('a zynq_scheme, unit) io" where
  "cfg_rmw E off f = bnd (cfg_read E off) (\<lambda>v. cfg_write E off (f v))"

definition dev_ptr :: "int \<Rightarrow> 'a zynq_scheme \<Rightarrow> ptr option" where
  "dev_ptr n s =
     (if n = 0 then Some (intc_ptr s) else if n = 1 then Some (cfg_ptr s)
      else if n = 2 then Some (sts_ptr s) else if n = 3 then Some (xadc_ptr s) else None)"

definition rd_reg_value :: "env \<Rightarrow> int \<Rightarrow> u32 \<Rightarrow> u8 \<Rightarrow> ('a zynq_scheme, i32) io" where
  "rd_reg_value E n_dev reg_off debug =
     bnd (gets (dev_ptr n_dev)) (\<lambda>d. case d of
       None \<Rightarrow> thn (puts_out (''Invalid option: '' @ fmt_d n_dev @ nl)) (ret (- 1))
     | Some p \<Rightarrow>
         bnd (dev_read E p reg_off) (\<lambda>reg_val.
         thn (whn (debug \<noteq> 0) (puts_out (''Complete. Received data 0x'' @ fmt_0x 8 (uint reg_val) @ nl)))
             (ret reg_val)))"

definition wr_reg_value :: "env \<Rightarrow> int \<Rightarrow> u32 \<Rightarrow> i32 \<Rightarrow> u8 \<Rightarrow> ('a zynq_scheme, i32) io" where
  "wr_reg_value E n_dev reg_off reg_val debug =
     bnd (gets (dev_ptr n_dev)) (\<lambda>d. case d of
       None \<Rightarrow> thn (puts_out (''Invalid option: '' @ fmt_d n_dev @ nl)) (ret (- 1))
     | Some p \<Rightarrow>
         thn (dev_write E p reg_off reg_val)
        (thn (whn (debug \<noteq> 0) (puts_out (''Complete. Data written: 0x'' @ fmt_0x 8 (uint reg_val) @ nl)))
             (ret 0)))"

section \<open>Status report\<close>

text \<open>The calibration of the high voltage converters, \<^verbatim>\<open>float a = 0.0882006, b = 7.73516\<close>.\<close>

definition cal_a :: flt where "cal_a = flit 882006 (10 ^ 7)"
definition cal_b :: flt where "cal_b = flit 773516 (10 ^ 5)"

text \<open>\<^verbatim>\<open>a*dev_read(...)+b\<close> in \<^verbatim>\<open>float\<close>.\<close>

definition dac_to_mv :: "u32 \<Rightarrow> flt" where
  "dac_to_mv v = fadd single_prec (fmul single_prec cal_a (f_of_int single_prec (uint v))) cal_b"

definition print_cfg :: "env \<Rightarrow> cfg_reg \<Rightarrow> (u32 \<Rightarrow> string) \<Rightarrow> ('a zynq_scheme, unit) io" where
  "print_cfg E r f = bnd (cfg_read E (cfg_off r)) (\<lambda>v. puts_out (f v))"

definition rd_cfg_status :: "env \<Rightarrow> ('a zynq_scheme, i32) io" where
  "rd_cfg_status E =
     thn (stmts
       [print_cfg E TRLVL_1 (\<lambda>v. ''#Trigger Level Ch1 = '' @ fmt_d (sint v) @ nl),
        print_cfg E TRLVL_2 (\<lambda>v. ''#Trigger Level Ch2 = '' @ fmt_d (sint v) @ nl),
        print_cfg E HV1 (\<lambda>v. ''#High Voltage 1    = '' @ fmt_f 1 (dac_to_mv v) @ '' mV'' @ nl),
        print_cfg E HV2 (\<lambda>v. ''#High Voltage 2    = '' @ fmt_f 1 (dac_to_mv v) @ '' mV'' @ nl),
        print_cfg E TR_SCAL_A (\<lambda>v. ''#Trigger Scaler 1  = '' @ fmt_d (sint v) @ nl),
        print_cfg E TR_SCAL_B (\<lambda>v. ''#Trigger Scaler 2  = '' @ fmt_d (sint v) @ nl),
        print_cfg E RESET_GRAL (\<lambda>v. if drop_bit 4 v AND 1 = 1
          then ''#No GPS device is present or enabled'' @ nl else ''#Using GPS data'' @ nl),
        print_cfg E RESET_GRAL (\<lambda>v. if drop_bit 5 v AND 1 = 0
          then ''#Working mode is SLAVE'' @ nl else ''#Working mode is MASTER'' @ nl),
        puts_out nl,
        puts_out (''Status from registers complete!'' @ nl)])
     (ret 0)"

section \<open>Mapping the devices\<close>

text \<open>\<^verbatim>\<open>fscanf(fp, "0x%08X", &size)\<close>: end of file, a matching failure, or the number.\<close>

datatype scan = Scan_Eof | Scan_Fail | Scan_Ok u32

definition scan_hex8 :: "string \<Rightarrow> scan" where
  "scan_hex8 t =
     (let u = dropWhile isspace t; (sg, v) = skip_sign (take 8 u); ds = takeWhile (is_digit 16) (skip_0x 16 v)
      in if u = [] then Scan_Eof
         else if ds = [] then Scan_Fail
         else Scan_Ok (if sg then - of_int (horner 16 ds) else of_int (horner 16 ds)))"

definition scan_size :: "string \<Rightarrow> scan" where
  "scan_size t =
     (case t of [] \<Rightarrow> Scan_Eof
      | z # t1 \<Rightarrow> if z \<noteq> CHR ''0'' then Scan_Fail
          else (case t1 of [] \<Rightarrow> Scan_Eof
                | x # t2 \<Rightarrow> if x \<noteq> CHR ''x'' then Scan_Fail else scan_hex8 t2))"

definition get_memory_size :: "env \<Rightarrow> string \<Rightarrow> ('a os_scheme, u32) io" where
  "get_memory_size E sysfs_path_file =
     (case sysfs_file E sysfs_path_file of
        None \<Rightarrow> thn (puts_out (''unable to open the uio size file'' @ nl)) (halt (Exit (- 1)))
      | Some t \<Rightarrow>
          (case scan_size t of
             Scan_Eof \<Rightarrow> thn (puts_out (''unable to get the size of the uio size file'' @ nl)) (halt (Exit (- 1)))
           | Scan_Fail \<Rightarrow> ret (uninit E)
           | Scan_Ok n \<Rightarrow> ret n))"

text \<open>The four UIO initialisers are one text with different names: the device file, the size file,
  and the descriptor and pointer variables they set.\<close>

definition uio_init ::
  "env \<Rightarrow> string \<Rightarrow> string \<Rightarrow> string \<Rightarrow> (int \<Rightarrow> 'a zynq_scheme \<Rightarrow> 'a zynq_scheme) \<Rightarrow>
   (ptr \<Rightarrow> 'a zynq_scheme \<Rightarrow> 'a zynq_scheme) \<Rightarrow> ('a zynq_scheme, int) io" where
  "uio_init E name uiod size_file set_fd set_ptr =
     bnd (sys_open E uiod) (\<lambda>fd.
     thn (modify (set_fd fd))
     (if fd < 1 then thn (puts_out (name @ '': Invalid UIO device file:'' @ uiod @ ''.'' @ nl)) (ret (- 1))
      else bnd (get_memory_size E size_file) (\<lambda>n.
        thn (modify (\<lambda>s. s\<lparr>dev_size := n\<rparr>))
        (let p = sys_mmap E uiod 0 (uint n) in
         thn (modify (set_ptr p))
         (if p = Map_Failed then thn (puts_out (name @ '': mmap call failure.'' @ nl)) (ret (- 1)) else ret 0)))))"

definition intc_init :: "env \<Rightarrow> ('a zynq_scheme, int) io" where
  "intc_init E = uio_init E ''intc_init'' ''/dev/uio0'' ''/sys/class/uio/uio0/maps/map0/size''
     (\<lambda>fd s. s\<lparr>intc_fd := fd\<rparr>) (\<lambda>p s. s\<lparr>intc_ptr := p\<rparr>)"

definition cfg_init :: "env \<Rightarrow> ('a zynq_scheme, int) io" where
  "cfg_init E = uio_init E ''cfg_init'' ''/dev/uio1'' ''/sys/class/uio/uio1/maps/map0/size''
     (\<lambda>fd s. s\<lparr>cfg_fd := fd\<rparr>) (\<lambda>p s. s\<lparr>cfg_ptr := p\<rparr>)"

definition sts_init :: "env \<Rightarrow> ('a zynq_scheme, int) io" where
  "sts_init E = uio_init E ''sts_init'' ''/dev/uio4'' ''/sys/class/uio/uio4/maps/map0/size''
     (\<lambda>fd s. s\<lparr>sts_fd := fd\<rparr>) (\<lambda>p s. s\<lparr>sts_ptr := p\<rparr>)"

definition xadc_init :: "env \<Rightarrow> ('a zynq_scheme, int) io" where
  "xadc_init E = uio_init E ''xadc_init'' ''/dev/uio5'' ''/sys/class/uio/uio5/maps/map0/size''
     (\<lambda>fd s. s\<lparr>xadc_fd := fd\<rparr>) (\<lambda>p s. s\<lparr>xadc_ptr := p\<rparr>)"

text \<open>\<^verbatim>\<open>mem_init\<close> maps 2048 pages of physical memory and keeps the size in \<^verbatim>\<open>dev_size\<close>; the two
  histogram memories map 16 pages and keep no size.\<close>

definition mem_init :: "env \<Rightarrow> ('a zynq_scheme, int) io" where
  "mem_init E =
     bnd (sys_open E ''/dev/mem'') (\<lambda>fd.
     thn (modify (\<lambda>s. s\<lparr>mem_fd := fd\<rparr>))
     (if fd < 1 then thn (puts_out (''mem_init: Invalid device file:/dev/mem.'' @ nl)) (ret (- 1))
      else let n = (of_int (2048 * page_size E) :: u32); p = sys_mmap E ''/dev/mem'' 0x1E000000 (uint n) in
        thn (modify (\<lambda>s. s\<lparr>dev_size := n\<rparr>))
       (thn (modify (\<lambda>s. s\<lparr>mem_ptr := p\<rparr>))
        (if p = Map_Failed then thn (puts_out (''mem_init: mmap call failure.'' @ nl)) (ret (- 1)) else ret 0))))"

definition hst_init ::
  "env \<Rightarrow> string \<Rightarrow> int \<Rightarrow> (int \<Rightarrow> 'a zynq_scheme \<Rightarrow> 'a zynq_scheme) \<Rightarrow>
   (ptr \<Rightarrow> 'a zynq_scheme \<Rightarrow> 'a zynq_scheme) \<Rightarrow> ('a zynq_scheme, int) io" where
  "hst_init E name base set_fd set_ptr =
     bnd (sys_open E ''/dev/mem'') (\<lambda>fd.
     thn (modify (set_fd fd))
     (if fd < 1 then thn (puts_out (name @ '': Invalid device file:/dev/mem.'' @ nl)) (ret (- 1))
      else let p = sys_mmap E ''/dev/mem'' base (16 * page_size E) in
        thn (modify (set_ptr p))
        (if p = Map_Failed then thn (puts_out (''mem_init: mmap call failure.'' @ nl)) (ret (- 1)) else ret 0)))"

definition hst0_init :: "env \<Rightarrow> ('a zynq_scheme, int) io" where
  "hst0_init E = hst_init E ''hst0_init'' HST0_BASEADDR (\<lambda>fd s. s\<lparr>hst0_fd := fd\<rparr>) (\<lambda>p s. s\<lparr>hst0_ptr := p\<rparr>)"

definition hst1_init :: "env \<Rightarrow> ('a zynq_scheme, int) io" where
  "hst1_init E = hst_init E ''hst1_init'' HST1_BASEADDR (\<lambda>fd s. s\<lparr>hst1_fd := fd\<rparr>) (\<lambda>p s. s\<lparr>hst1_ptr := p\<rparr>)"

text \<open>\<^verbatim>\<open>cma_init\<close>: the driver replaces the size in \<^verbatim>\<open>dev_size\<close> by the physical address of the buffer.
  The message of \<^verbatim>\<open>perror\<close> goes to \<^verbatim>\<open>stderr\<close>; its text after the prefix is the system's.\<close>

definition cma_init :: "env \<Rightarrow> ('a zynq_scheme, int) io" where
  "cma_init E =
     bnd (sys_open E ''/dev/cma'') (\<lambda>fd.
     thn (modify (\<lambda>s. s\<lparr>cma_fd := fd\<rparr>))
     (if fd < 1 then thn (puts_out (''cma_init: Invalid device file:/dev/cma.'' @ nl)) (ret (- 1))
      else let n = (of_int (1024 * page_size E) :: u32) in
        thn (modify (\<lambda>s. s\<lparr>dev_size := n\<rparr>))
        (case cma_alloc E n of
           None \<Rightarrow> thn (puts_err ''ioctl'') (ret 1)
         | Some phys \<Rightarrow>
             let p = sys_mmap E ''/dev/cma'' 0 (1024 * page_size E) in
             thn (modify (\<lambda>s. s\<lparr>dev_size := phys\<rparr>))
            (thn (modify (\<lambda>s. s\<lparr>cma_ptr := p\<rparr>))
             (if p = Map_Failed then thn (puts_out (''cma_init: mmap call failure.'' @ nl)) (ret (- 1)) else ret 0)))))"

section \<open>Converters\<close>

definition volts :: "u32 \<Rightarrow> flt" where
  "volts w =
     (let value = (ucast w :: i16)
      in fconv single_prec (fmul double_prec (f_of_int double_prec (drop_bit 4 (sint value))) XADC_CONV_VAL))"

definition get_voltage :: "env \<Rightarrow> u32 \<Rightarrow> ('a zynq_scheme, flt) io" where
  "get_voltage E offset = bnd (gets xadc_ptr) (\<lambda>p. bnd (dev_read E p offset) (\<lambda>w. ret (volts w)))"

definition dac_val :: "i32 \<Rightarrow> u32" where
  "dac_val value =
     f_to_u32 (fdiv single_prec
       (f_of_int single_prec (uint (f_to_u32 (fsub single_prec (f_of_int single_prec (sint value)) cal_b))))
       cal_a)"

definition set_voltage :: "env \<Rightarrow> u32 \<Rightarrow> i32 \<Rightarrow> ('a zynq_scheme, unit) io" where
  "set_voltage E offset value =
     stmts
       [cfg_write E offset (dac_val value),
        puts_out (''The Voltage is: '' @ fmt_d (sint value) @ '' mV'' @ nl),
        puts_out (''The DAC value is: '' @ fmt_d (sint (dac_val value)) @ '' DACs'' @ nl)]"

definition get_temp_AD592 :: "env \<Rightarrow> u32 \<Rightarrow> ('a zynq_scheme, flt) io" where
  "get_temp_AD592 E offset =
     bnd (get_voltage E offset) (\<lambda>value.
     ret (fconv single_prec (fsub double_prec
       (fmul single_prec value (f_of_int single_prec 1000)) (dlit 27315 100))))"

section \<open>Power-up configuration and interrupts\<close>

definition init_system :: "env \<Rightarrow> ('a zynq_scheme, int) io" where
  "init_system E =
     thn (stmts
       [cfg_write E (cfg_off TRLVL_1) 8190,
        cfg_write E (cfg_off TRLVL_2) 8190,
        cfg_write E (cfg_off STRLVL_1) 8190,
        cfg_write E (cfg_off STRLVL_2) 8190,
        cfg_write E (cfg_off HV1) 0,
        cfg_write E (cfg_off HV2) 0,
        cfg_rmw E (cfg_off RESET_GRAL) (\<lambda>v. v AND NOT 8),
        cfg_rmw E (cfg_off RESET_GRAL) (\<lambda>v. v AND NOT 1),
        cfg_rmw E (cfg_off RESET_GRAL) (\<lambda>v. v AND NOT 4),
        cfg_rmw E (cfg_off RESET_GRAL) (\<lambda>v. v AND NOT 2),
        cfg_write E (cfg_off NSAMPLES) (1024 * 1024),
        cfg_write E (cfg_off TR_SCAL_A) 1,
        cfg_write E (cfg_off TR_SCAL_B) 1,
        cfg_rmw E (cfg_off RESET_GRAL) (\<lambda>v. v OR FGPS_EN_MASK),
        cfg_rmw E (cfg_off RESET_GRAL) (\<lambda>v. v OR 8),
        cfg_rmw E (cfg_off RESET_GRAL) (\<lambda>v. v OR 0x20)])
     (ret 0)"

definition intc_write :: "env \<Rightarrow> intc_reg \<Rightarrow> i32 \<Rightarrow> ('a zynq_scheme, unit) io" where
  "intc_write E r v = bnd (gets intc_ptr) (\<lambda>p. dev_write E p (intc_off r) v)"

definition enable_interrupt :: "env \<Rightarrow> ('a zynq_scheme, int) io" where
  "enable_interrupt E =
     thn (intc_write E IER 1)
    (thn (intc_write E MER (MER_ME_MASK OR MER_HIE_MASK))
         (ret 0))"

definition disable_interrupt :: "env \<Rightarrow> ('a zynq_scheme, int) io" where
  "disable_interrupt E =
     thn (intc_write E IER 0)
    (bnd (bnd (gets intc_ptr) (\<lambda>p. dev_read E p (intc_off MER))) (\<lambda>value.
     thn (intc_write E MER (value OR NOT 1))
    (thn (intc_write E IAR 1)
         (ret 0))))"

section \<open>Mapped devices\<close>

abbreviation cfg_dev :: string where "cfg_dev \<equiv> ''/dev/uio1''"
abbreviation intc_dev :: string where "intc_dev \<equiv> ''/dev/uio0''"
abbreviation sts_dev :: string where "sts_dev \<equiv> ''/dev/uio4''"
abbreviation xadc_dev :: string where "xadc_dev \<equiv> ''/dev/uio5''"

fun uio_mapped :: "string \<Rightarrow> ptr \<Rightarrow> bool" where
  "uio_mapped path (Mapped q base len) = (q = path \<and> base = 0 \<and> 0 < len)"
| "uio_mapped path Null = False"
| "uio_mapped path Map_Failed = False"

text \<open>A register offset: word aligned, in the first 4 KiB of the device.\<close>

definition reg_offset :: "u32 \<Rightarrow> bool" where
  "reg_offset off \<longleftrightarrow> uint off mod 4 = 0 \<and> uint off < 4096"

lemma cell_mapped [reg_simps]:
  assumes "uio_mapped path p" "4096 \<le> page_size E" "reg_offset off"
  shows "cell E p off = Some (path, uint off)"
proof -
  from assms(1) obtain len where p: "p = Mapped path 0 len" "0 < len" by (cases p) auto
  have "0 < (len + page_size E - 1) div page_size E"
    using p(2) assms(2) by (simp add: pos_imp_zdiv_pos_iff)
  then have "1 * page_size E \<le> page_round E len"
    unfolding page_round_def using assms(2) by (intro mult_right_mono) linarith+
  with assms p show ?thesis by (auto simp: reg_offset_def)
qed

lemma cfg_off_ok [simp]: "reg_offset (cfg_off r)"
  by (cases r) (simp_all add: reg_offset_def)

lemma intc_off_ok [simp]: "reg_offset (intc_off r)"
  by (cases r) (simp_all add: reg_offset_def)

lemma cfg_off_inj: "uint (cfg_off q) = uint (cfg_off r) \<longleftrightarrow> q = r"
  by (cases q; cases r; simp)

lemma dev_write_mapped [reg_simps]:
  "uio_mapped path p \<Longrightarrow> 4096 \<le> page_size E \<Longrightarrow> reg_offset off \<Longrightarrow>
   dev_write E p off v s = Done () (s\<lparr>hist := Wr path (uint off) v # hist s\<rparr>)"
  by (simp add: dev_write_def cell_mapped)

lemma dev_read_mapped [reg_simps]:
  "uio_mapped path p \<Longrightarrow> 4096 \<le> page_size E \<Longrightarrow> reg_offset off \<Longrightarrow>
   dev_read E p off s = Done (bus E (hist s) path (uint off)) (s\<lparr>hist := Rd path (uint off) # hist s\<rparr>)"
  by (simp add: dev_read_def cell_mapped)

text \<open>The configuration device of a running program: its registers are mapped and keep what is
  written to them.\<close>

definition cfg_ready :: "env \<Rightarrow> 'a zynq_scheme \<Rightarrow> bool" where
  "cfg_ready E s \<longleftrightarrow> uio_mapped cfg_dev (cfg_ptr s) \<and> 4096 \<le> page_size E"

definition reg :: "env \<Rightarrow> 'a zynq_scheme \<Rightarrow> cfg_reg \<Rightarrow> u32" where
  "reg E s r = bus E (hist s) cfg_dev (uint (cfg_off r))"

lemma cfg_ready_hist [simp]: "cfg_ready E (s\<lparr>hist := h\<rparr>) = cfg_ready E s"
  by (simp add: cfg_ready_def)

lemma cfg_write_app [reg_simps]:
  "cfg_ready E s \<Longrightarrow> reg_offset off \<Longrightarrow>
   cfg_write E off v s = Done () (s\<lparr>hist := Wr cfg_dev (uint off) v # hist s\<rparr>)"
  by (simp add: cfg_write_def cfg_ready_def dev_write_mapped)

lemma cfg_read_app [reg_simps]:
  "cfg_ready E s \<Longrightarrow> reg_offset off \<Longrightarrow>
   cfg_read E off s = Done (bus E (hist s) cfg_dev (uint off)) (s\<lparr>hist := Rd cfg_dev (uint off) # hist s\<rparr>)"
  by (simp add: cfg_read_def cfg_ready_def dev_read_mapped)

lemma cfg_rmw_app [reg_simps]:
  "cfg_ready E s \<Longrightarrow> holds_writes E cfg_dev z \<Longrightarrow> reg_offset off \<Longrightarrow>
   cfg_rmw E off f s = Done () (s\<lparr>hist := bank.rmw z cfg_dev (uint off) f (hist s)\<rparr>)"
  by (simp add: cfg_rmw_def cfg_read_app cfg_write_app holds_writes_def bank.rmw_def)

section \<open>Refinement of the power-up configuration\<close>

text \<open>What \<^verbatim>\<open>init_system\<close> promises, on the registers as a function.\<close>

definition power_up :: "(cfg_reg \<Rightarrow> u32) \<Rightarrow> cfg_reg \<Rightarrow> u32" where
  "power_up old = old
     (TRLVL_1 := 8190, TRLVL_2 := 8190, STRLVL_1 := 8190, STRLVL_2 := 8190, HV1 := 0, HV2 := 0,
      NSAMPLES := 1048576, TR_SCAL_A := 1, TR_SCAL_B := 1,
      RESET_GRAL := (old RESET_GRAL AND NOT 0xF) OR 0x38)"

lemma reset_bits:
  fixes x :: u32
  shows "((((((x AND NOT 8) AND NOT 1) AND NOT 4) AND NOT 2) OR 0x10) OR 8) OR 0x20 = (x AND NOT 0xF) OR 0x38"
proof -
  have a: "NOT 8 AND (NOT 1 AND (NOT 4 AND NOT 2)) = (NOT 0xF :: u32)"
    and o1: "0x10 OR (8 OR 0x20) = (0x38 :: u32)" by simp_all
  have "((((((x AND NOT 8) AND NOT 1) AND NOT 4) AND NOT 2) OR 0x10) OR 8) OR 0x20
      = (x AND (NOT 8 AND (NOT 1 AND (NOT 4 AND NOT 2)))) OR (0x10 OR (8 OR 0x20))"
    by (simp only: and.assoc or.assoc)
  then show ?thesis by (simp only: a o1)
qed

lemma init_system_hist:
  assumes "cfg_ready E s" "holds_writes E cfg_dev z"
  shows "\<exists>h. init_system E s = Done 0 (s\<lparr>hist := h\<rparr>) \<and>
    (\<forall>r. last_write z h cfg_dev (uint (cfg_off r)) = power_up (\<lambda>r. last_write z (hist s) cfg_dev (uint (cfg_off r))) r)"
proof -
  let ?w = "\<lambda>r v h. Wr cfg_dev (uint (cfg_off r)) v # h"
  let ?m = "\<lambda>f h. bank.rmw z cfg_dev (uint (cfg_off RESET_GRAL)) f h"
  define h where "h =
    ?m (\<lambda>v. v OR 0x20) (?m (\<lambda>v. v OR 8) (?m (\<lambda>v. v OR 0x10) (?w TR_SCAL_B 1 (?w TR_SCAL_A 1 (?w NSAMPLES (1024 * 1024)
    (?m (\<lambda>v. v AND NOT 2) (?m (\<lambda>v. v AND NOT 4) (?m (\<lambda>v. v AND NOT 1) (?m (\<lambda>v. v AND NOT 8)
    (?w HV2 0 (?w HV1 0 (?w STRLVL_2 8190 (?w STRLVL_1 8190 (?w TRLVL_2 8190 (?w TRLVL_1 8190 (hist s))))))))))))))))"
  have "init_system E s = Done 0 (s\<lparr>hist := h\<rparr>)"
    using assms unfolding h_def
    by (simp add: init_system_def cfg_write_app cfg_rmw_app FGPS_EN_MASK_def del: cfg_off.simps)
  moreover have "last_write z h cfg_dev (uint (cfg_off r)) =
      power_up (\<lambda>r. last_write z (hist s) cfg_dev (uint (cfg_off r))) r" for r
    unfolding h_def
    by (cases r) (simp_all only: bank.rd_rmw bank.rd_wr cfg_off_inj power_up_def fun_upd_apply if_True if_False cfg_reg.distinct simp_thms reset_bits,
      simp_all)
  ultimately show ?thesis by blast
qed

lemma init_system_reg:
  assumes "cfg_ready E s" "holds_writes E cfg_dev z"
  shows "\<exists>h. init_system E s = Done 0 (s\<lparr>hist := h\<rparr>) \<and> reg E (s\<lparr>hist := h\<rparr>) = power_up (reg E s)"
proof -
  from init_system_hist [OF assms] obtain h where h: "init_system E s = Done 0 (s\<lparr>hist := h\<rparr>)"
    "\<forall>r. last_write z h cfg_dev (uint (cfg_off r)) = power_up (\<lambda>r. last_write z (hist s) cfg_dev (uint (cfg_off r))) r"
    by blast
  have r: "reg E (s\<lparr>hist := k\<rparr>) = (\<lambda>r. last_write z k cfg_dev (uint (cfg_off r)))" for k
    using assms(2) by (simp add: reg_def fun_eq_iff holds_writes_def)
  then have "reg E s = (\<lambda>r. last_write z (hist s) cfg_dev (uint (cfg_off r)))"
    using r [of "hist s"] by simp
  then have "reg E (s\<lparr>hist := h\<rparr>) = power_up (reg E s)"
    using h(2) by (intro ext) (simp only: r)
  with h(1) show ?thesis by blast
qed

section \<open>Calibration of the slow converters\<close>

lemma cal_a_value: "cal_a = Fl False 11838084 (- 27)"
  by code_simp

lemma cal_b_value: "cal_b = Fl False 16221806 (- 21)"
  by code_simp

lemma cal_real:
  "fval cal_a = 11838084 / 2 ^ 27" "fval cal_b = 16221806 / 2 ^ 21" "fwf cal_a" "fwf cal_b"
  by (simp_all add: cal_a_value cal_b_value fval_def fwf_def powi_neg)

lemma uint_of_int_range: "0 \<le> i \<Longrightarrow> i < 2 ^ 32 \<Longrightarrow> uint (of_int i :: u32) = i"
  by (simp add: uint_word_of_int)

lemma dac_steps:
  assumes "8 \<le> v" "v \<le> 2500"
  shows "f_to_u32 (fsub single_prec (f_of_int single_prec v) cal_b) = of_int (v - 8)"
proof -
  define x where "x = fsub single_prec (f_of_int single_prec v) cal_b"
  have fv: "fval (f_of_int single_prec v) = real_of_int v"
    using assms by (intro f_of_int_exact) simp
  have r: "8 \<le> real_of_int v" "real_of_int v \<le> 2500"
    using assms by simp_all
  have e: "\<bar>fval x - (real_of_int v - fval cal_b)\<bar> \<le> \<bar>real_of_int v - fval cal_b\<bar> / 2 ^ 24"
    using fadd_error [of single_prec "f_of_int single_prec v" "fneg cal_b"] fv by (simp add: x_def fsub_def)
  have b: "7.7351 \<le> fval cal_b" "fval cal_b \<le> 7.7352" by (simp_all add: cal_real)
  have "\<bar>real_of_int v - fval cal_b\<bar> / 2 ^ 24 \<le> 0.001" using r b by (simp add: abs_le_iff)
  with e have "\<bar>fval x - (real_of_int v - fval cal_b)\<bar> \<le> 0.001" by linarith
  with b have "real_of_int (v - 8) \<le> fval x" "fval x < real_of_int (v - 8) + 1"
    unfolding abs_le_iff by simp_all
  then have "f_trunc x = v - 8"
    using assms by (intro f_trunc_eq) (simp_all add: x_def fsub_def)
  then show ?thesis using assms by (simp add: x_def [symmetric] f_to_u32_def)
qed

lemma dac_val_bounds:
  assumes "8 \<le> sint value" "sint value \<le> 2500"
  defines "q \<equiv> real_of_int (sint value - 8) / fval cal_a"
  shows "q - 1.002 \<le> real_of_int (uint (dac_val value))" "real_of_int (uint (dac_val value)) \<le> q + 0.002"
    "0 \<le> q" "q \<le> 28255"
proof -
  define v where "v = sint value"
  define y where "y = fdiv single_prec (f_of_int single_prec (v - 8)) cal_a"
  have v: "8 \<le> v" "v \<le> 2500" using assms by (simp_all add: v_def)
  have u: "uint (of_int (v - 8) :: u32) = v - 8"
    using v by (intro uint_of_int_range) simp_all
  have d: "dac_val value = f_to_u32 y"
    using dac_steps [OF v] u by (simp add: dac_val_def v_def y_def)
  have fv: "fval (f_of_int single_prec (v - 8)) = real_of_int (v - 8)"
    using v by (intro f_of_int_exact) simp
  show q: "0 \<le> q" "q \<le> 28255" using v by (simp_all add: q_def cal_real flip: v_def)
  have "\<bar>fval y - q\<bar> \<le> \<bar>q\<bar> / 2 ^ 24"
    using fdiv_error [of "f_of_int single_prec (v - 8)" cal_a single_prec] fv
    by (simp add: y_def q_def cal_real flip: v_def)
  also have "\<bar>q\<bar> / 2 ^ 24 \<le> 0.002" using q by simp
  finally have e: "\<bar>fval y - q\<bar> \<le> 0.002" .
  have "0 < num cal_a" by (simp add: cal_a_value num_def)
  then have w: "fwf y" by (simp add: y_def cal_real)
  have y0: "0 \<le> fval y"
    using w v by (intro fval_nonneg) (simp_all add: y_def fdiv_def fround_sign f_of_int_def cal_a_value)
  define t where "t = f_trunc y"
  have t: "0 \<le> t" "real_of_int t \<le> fval y" "fval y < real_of_int t + 1"
    unfolding t_def by (rule f_trunc_bounds [OF w y0])+
  have "real_of_int t < 2 ^ 32" using t e q unfolding abs_le_iff by simp
  then have "t < 2 ^ 32" by simp
  then have "uint (dac_val value) = t"
    using t(1) by (simp add: d f_to_u32_def t_def [symmetric] uint_of_int_range)
  then show "q - 1.002 \<le> real_of_int (uint (dac_val value))" "real_of_int (uint (dac_val value)) \<le> q + 0.002"
    using t e unfolding abs_le_iff by simp_all
qed

lemma dac_val_calibrated:
  assumes "8 \<le> sint value" "sint value \<le> 2500"
  shows "real_of_int (uint (dac_val value)) * 0.0882006 + 7.73516 \<le> real_of_int (sint value) - 0.26"
    "real_of_int (sint value) - 0.36 \<le> real_of_int (uint (dac_val value)) * 0.0882006 + 7.73516"
proof -
  define v w q where "v = sint value" and "w = uint (dac_val value)" and "q = real_of_int (v - 8) / fval cal_a"
  let ?v = "real_of_int v" and ?t = "real_of_int w"
  note b = dac_val_bounds [OF assms, folded v_def w_def, folded q_def]
  have qa: "q * fval cal_a = ?v - 8" by (simp add: q_def cal_real)
  have "0 \<le> w" by (simp add: w_def)
  then have t: "0 \<le> ?t" "?t \<le> 28256" using b by simp_all
  have "?t * fval cal_a \<le> (q + 0.002) * fval cal_a" "(q - 1.002) * fval cal_a \<le> ?t * fval cal_a"
    using b by (intro mult_right_mono; simp add: cal_real)+
  then have m: "?t * fval cal_a \<le> ?v - 7.999" "?v - 8.0885 \<le> ?t * fval cal_a"
    unfolding distrib_right left_diff_distrib qa by (simp_all add: cal_real)
  have a: "\<bar>fval cal_a - 0.0882006\<bar> \<le> 1 / 10 ^ 8" by (simp add: cal_real)
  have "\<bar>?t * (fval cal_a - 0.0882006)\<bar> \<le> 28256 * (1 / 10 ^ 8)"
    unfolding abs_mult using t a by (intro mult_mono) simp_all
  then have "\<bar>?t * fval cal_a - ?t * 0.0882006\<bar> \<le> 0.0003"
    unfolding right_diff_distrib by simp
  with m have "?t * 0.0882006 + 7.73516 \<le> ?v - 0.26 \<and> ?v - 0.36 \<le> ?t * 0.0882006 + 7.73516"
    unfolding abs_le_iff by simp
  then show "real_of_int (uint (dac_val value)) * 0.0882006 + 7.73516 \<le> real_of_int (sint value) - 0.26"
    "real_of_int (sint value) - 0.36 \<le> real_of_int (uint (dac_val value)) * 0.0882006 + 7.73516"
    unfolding v_def w_def by blast+
qed
section \<open>Outcomes of the initialisers\<close>

lemma get_memory_size_Done:
  "get_memory_size E p s = Done n t \<Longrightarrow> t = s"
  by (auto simp: get_memory_size_def thn_def bnd_def split: option.splits scan.splits)

lemma cfg_init_cases:
  "cfg_init E s = Done r t \<Longrightarrow>
   (r = 0 \<and> 1 \<le> cfg_fd t \<and> uio_mapped cfg_dev (cfg_ptr t) \<and> out t = out s) \<or>
   (r = - 1 \<and> cfg_fd t < 1 \<and> cfg_ptr t = cfg_ptr s \<and> out t = out s @ ''cfg_init: Invalid UIO device file:/dev/uio1.'' @ nl) \<or>
   (r = - 1 \<and> 1 \<le> cfg_fd t \<and> cfg_ptr t = Map_Failed \<and> out t = out s @ ''cfg_init: mmap call failure.'' @ nl)"
  by (auto simp: cfg_init_def uio_init_def bnd_app thn_app Let_def sys_mmap_def
      split: outcome.splits if_splits dest!: get_memory_size_Done)

lemma disable_interrupt_hist:
  assumes "uio_mapped intc_dev (intc_ptr s)" "4096 \<le> page_size E"
  shows "disable_interrupt E s = Done 0 (s\<lparr>hist :=
     Wr intc_dev 0xC 1 # Wr intc_dev 0x1C (bus E (Wr intc_dev 8 0 # hist s) intc_dev 0x1C OR NOT 1)
      # Rd intc_dev 0x1C # Wr intc_dev 8 0 # hist s\<rparr>)"
proof -
  have o: "reg_offset 8" "reg_offset 0x1C" "reg_offset 0xC" by (simp_all add: reg_offset_def)
  with assms show ?thesis
    by (simp add: disable_interrupt_def intc_write_def dev_write_mapped dev_read_mapped)
qed

definition status_text :: "(cfg_reg \<Rightarrow> u32) \<Rightarrow> string" where
  "status_text r =
     ''#Trigger Level Ch1 = '' @ fmt_d (sint (r TRLVL_1)) @ nl @
     ''#Trigger Level Ch2 = '' @ fmt_d (sint (r TRLVL_2)) @ nl @
     ''#High Voltage 1    = '' @ fmt_f 1 (dac_to_mv (r HV1)) @ '' mV'' @ nl @
     ''#High Voltage 2    = '' @ fmt_f 1 (dac_to_mv (r HV2)) @ '' mV'' @ nl @
     ''#Trigger Scaler 1  = '' @ fmt_d (sint (r TR_SCAL_A)) @ nl @
     ''#Trigger Scaler 2  = '' @ fmt_d (sint (r TR_SCAL_B)) @ nl @
     (if bit (r RESET_GRAL) 4 then ''#No GPS device is present or enabled'' else ''#Using GPS data'') @ nl @
     (if bit (r RESET_GRAL) 5 then ''#Working mode is MASTER'' else ''#Working mode is SLAVE'') @ nl @
     nl @ ''Status from registers complete!'' @ nl"

lemma and_one_bit: "drop_bit n w AND 1 = (if bit w n then 1 else (0::u32))"
  by (simp add: and_one_eq bit_iff_odd_drop_bit odd_iff_mod_2_eq_one)

lemma rd_cfg_status_text:
  assumes "cfg_ready E s" "holds_writes E cfg_dev z"
  shows "\<exists>h. rd_cfg_status E s = Done 0 (s\<lparr>hist := h, out := out s @ status_text (reg E s)\<rparr>)"
  using assms
  by (intro exI [of _ "map (\<lambda>r. Rd cfg_dev (uint (cfg_off r)))
        [RESET_GRAL, RESET_GRAL, TR_SCAL_B, TR_SCAL_A, HV2, HV1, TRLVL_2, TRLVL_1] @ hist s"])
    (simp add: rd_cfg_status_def print_cfg_def cfg_read_app reg_def holds_writes_def cfg_ready_def status_text_def and_one_bit del: cfg_off.simps)

lemma power_up_text:
  "status_text (power_up old) =
     ''#Trigger Level Ch1 = 8190'' @ nl @ ''#Trigger Level Ch2 = 8190'' @ nl @
     ''#High Voltage 1    = 7.7 mV'' @ nl @ ''#High Voltage 2    = 7.7 mV'' @ nl @
     ''#Trigger Scaler 1  = 1'' @ nl @ ''#Trigger Scaler 2  = 1'' @ nl @
     ''#No GPS device is present or enabled'' @ nl @ ''#Working mode is MASTER'' @ nl @ nl @
     ''Status from registers complete!'' @ nl"
proof -
  have "fmt_f 1 (dac_to_mv 0) = ''7.7''" "fmt_d 8190 = ''8190''" "fmt_d 1 = ''1''" by code_simp+
  then show ?thesis by (simp add: status_text_def power_up_def bit_simps)
qed

section \<open>Properties\<close>

definition zynq0 :: zynq where
  "zynq0 = os.extend os0
     \<lparr>intc_fd = 0, cfg_fd = 0, sts_fd = 0, xadc_fd = 0, mem_fd = 0, hst0_fd = 0, hst1_fd = 0, cma_fd = 0,
      intc_ptr = Mapped intc_dev 0 4096, cfg_ptr = Mapped cfg_dev 0 4096, sts_ptr = Mapped sts_dev 0 4096,
      xadc_ptr = Mapped xadc_dev 0 4096, mem_ptr = Null, hst0_ptr = Null, hst1_ptr = Null, cma_ptr = Null,
      dev_size = 0\<rparr>"

lemma zynq0_ready [simp]: "cfg_ready bench zynq0"
  by (simp add: cfg_ready_def zynq0_def os.extend_def os0_def)

text \<open>
  (C1) Power-up configuration refines its specification: with the configuration device mapped and its
  registers holding what is written, \<^verbatim>\<open>init_system\<close> returns 0, touches nothing but device registers,
  and leaves every configuration register at the value \<open>power_up\<close> gives: thresholds 8190, high voltages
  0, 2^20 samples, scalers 1, reset bits 0..2 cleared, false GPS, ramp generators and MASTER set, all
  other registers and reset bits as they were.
\<close>

theorem init_system_refines:
  assumes "cfg_ready E s" "holds_writes E cfg_dev z"
  shows "\<exists>h. init_system E s = Done 0 (s\<lparr>hist := h\<rparr>) \<and> reg E (s\<lparr>hist := h\<rparr>) = power_up (reg E s)"
  using init_system_reg [OF assms] .

theorem init_system_refines_witness:
  "\<exists>h. init_system bench zynq0 = Done 0 (zynq0\<lparr>hist := h\<rparr>) \<and>
    reg bench (zynq0\<lparr>hist := h\<rparr>) = power_up (reg bench zynq0)"
  by (rule init_system_refines [of bench zynq0 "\<lambda>a. 0"]) simp_all

text \<open>
  Writing a configuration register through \<^verbatim>\<open>wr_reg_value\<close> and reading it back through
  \<^verbatim>\<open>rd_reg_value\<close> gives the value written, at every aligned offset of the page, and prints exactly
  the two confirmation lines when the debug flags are set.
\<close>

theorem wr_rd_reg_value:
  assumes "cfg_ready E s" "holds_writes E cfg_dev z" "reg_offset off"
  shows "\<exists>h. thn (wr_reg_value E 1 off v 1) (rd_reg_value E 1 off 1) s =
    Done v (s\<lparr>hist := h, out := out s @ ''Complete. Data written: 0x'' @ fmt_0x 8 (uint v) @ nl
                            @ ''Complete. Received data 0x'' @ fmt_0x 8 (uint v) @ nl\<rparr>)"
proof -
  have "uio_mapped cfg_dev (cfg_ptr s)" "4096 \<le> page_size E" using assms(1) by (simp_all add: cfg_ready_def)
  moreover have "bus E (Wr cfg_dev (uint off) v # hist s) cfg_dev (uint off) = v"
    using assms(2) by (simp add: holds_writes_def)
  ultimately have "thn (wr_reg_value E 1 off v 1) (rd_reg_value E 1 off 1) s =
    Done v (s\<lparr>hist := Rd cfg_dev (uint off) # Wr cfg_dev (uint off) v # hist s,
      out := out s @ ''Complete. Data written: 0x'' @ fmt_0x 8 (uint v) @ nl
                   @ ''Complete. Received data 0x'' @ fmt_0x 8 (uint v) @ nl\<rparr>)"
    using assms(3) by (simp add: wr_reg_value_def rd_reg_value_def dev_ptr_def dev_write_mapped dev_read_mapped)
  then show ?thesis by blast
qed

theorem wr_rd_reg_value_witness:
  "\<exists>h. thn (wr_reg_value bench 1 0x58 7 1) (rd_reg_value bench 1 0x58 1) zynq0 =
    Done 7 (zynq0\<lparr>hist := h, out := out zynq0 @ ''Complete. Data written: 0x'' @ fmt_0x 8 (uint (7::u32)) @ nl
                            @ ''Complete. Received data 0x'' @ fmt_0x 8 (uint (7::u32)) @ nl\<rparr>)"
  by (rule wr_rd_reg_value [of bench zynq0 "\<lambda>a. 0" "0x58" 7]) (simp_all add: reg_offset_def)

text \<open>
  (C32) Output voltage: for every request from 8 to 2500 mV, \<^verbatim>\<open>set_voltage\<close> writes a DAC code whose
  voltage under the documented calibration \<open>0.0882006 * code + 7.73516\<close> mV lies between 0.26 and 0.36 mV
  below the request; it never exceeds it.
\<close>

theorem set_voltage_calibrated:
  assumes "cfg_ready E s" "reg_offset off" "8 \<le> sint value" "sint value \<le> 2500"
  shows "\<exists>code. hist (final (set_voltage E off value s)) = Wr cfg_dev (uint off) code # hist s \<and>
    real_of_int (uint code) * 0.0882006 + 7.73516 \<le> real_of_int (sint value) - 0.26 \<and>
    real_of_int (sint value) - 0.36 \<le> real_of_int (uint code) * 0.0882006 + 7.73516"
proof (intro exI conjI)
  show "hist (final (set_voltage E off value s)) = Wr cfg_dev (uint off) (dac_val value) # hist s"
    using assms(1,2) by (simp add: set_voltage_def cfg_write_app)
qed (use dac_val_calibrated [OF assms(3,4)] in simp_all)

theorem set_voltage_calibrated_witness:
  "\<exists>code. hist (final (set_voltage bench (cfg_off HV1) 1200 zynq0)) = Wr cfg_dev (uint (cfg_off HV1)) code # hist zynq0 \<and>
    real_of_int (uint code) * 0.0882006 + 7.73516 \<le> real_of_int (sint (1200::i32)) - 0.26 \<and>
    real_of_int (sint (1200::i32)) - 0.36 \<le> real_of_int (uint code) * 0.0882006 + 7.73516"
  by (rule set_voltage_calibrated) (simp_all add: reg_offset_def)

text \<open>
  \<^verbatim>\<open>cfg_init\<close> reports truthfully: when it returns 0 the device is open and mapped, and nothing is
  printed; when it returns -1 either the descriptor is invalid and the pointer is untouched, or the
  pointer is \<^verbatim>\<open>MAP_FAILED\<close>, and the matching message is printed.
\<close>

theorem cfg_init_truthful:
  assumes "cfg_init E s = Done r t"
  shows "(r = 0 \<and> 1 \<le> cfg_fd t \<and> uio_mapped cfg_dev (cfg_ptr t) \<and> out t = out s) \<or>
   (r = - 1 \<and> cfg_fd t < 1 \<and> cfg_ptr t = cfg_ptr s \<and> out t = out s @ ''cfg_init: Invalid UIO device file:/dev/uio1.'' @ nl) \<or>
   (r = - 1 \<and> 1 \<le> cfg_fd t \<and> cfg_ptr t = Map_Failed \<and> out t = out s @ ''cfg_init: mmap call failure.'' @ nl)"
  using cfg_init_cases [OF assms] .

theorem cfg_init_truthful_witness:
  "cfg_init (bench\<lparr>os_open := \<lambda>h p. - 1\<rparr>) zynq0 =
     Done (- 1) (zynq0\<lparr>opens := [(cfg_dev, - 1)], cfg_fd := - 1, out := ''cfg_init: Invalid UIO device file:/dev/uio1.'' @ nl\<rparr>) \<and>
   cfg_fd (zynq0\<lparr>opens := [(cfg_dev, - 1)], cfg_fd := - 1, out := ''cfg_init: Invalid UIO device file:/dev/uio1.'' @ nl\<rparr>) < 1"
proof -
  have e: "cfg_init (bench\<lparr>os_open := \<lambda>h p. - 1\<rparr>) zynq0 =
     Done (- 1) (zynq0\<lparr>opens := [(cfg_dev, - 1)], cfg_fd := - 1, out := ''cfg_init: Invalid UIO device file:/dev/uio1.'' @ nl\<rparr>)"
    by (simp add: cfg_init_def uio_init_def zynq0_def os0_def os.extend_def)
  from cfg_init_truthful [OF e] show ?thesis using e by simp
qed

text \<open>
  After the power-up configuration, the status report \<^verbatim>\<open>rd_cfg_status\<close> prints exactly the text
  of the default settings, whatever the registers held before.
\<close>

theorem rd_cfg_status_power_up:
  assumes "cfg_ready E s" "holds_writes E cfg_dev z"
  shows "out (final (thn (init_system E) (rd_cfg_status E) s)) = out s @
     ''#Trigger Level Ch1 = 8190'' @ nl @ ''#Trigger Level Ch2 = 8190'' @ nl @
     ''#High Voltage 1    = 7.7 mV'' @ nl @ ''#High Voltage 2    = 7.7 mV'' @ nl @
     ''#Trigger Scaler 1  = 1'' @ nl @ ''#Trigger Scaler 2  = 1'' @ nl @
     ''#No GPS device is present or enabled'' @ nl @ ''#Working mode is MASTER'' @ nl @ nl @
     ''Status from registers complete!'' @ nl"
proof -
  from init_system_reg [OF assms] obtain h where
    h: "init_system E s = Done 0 (s\<lparr>hist := h\<rparr>)" "reg E (s\<lparr>hist := h\<rparr>) = power_up (reg E s)" by blast
  from rd_cfg_status_text [of E "s\<lparr>hist := h\<rparr>" z] assms obtain k where
    "rd_cfg_status E (s\<lparr>hist := h\<rparr>) = Done 0 (s\<lparr>hist := k, out := out s @ status_text (power_up (reg E s))\<rparr>)"
    by (auto simp: h(2))
  with h(1) show ?thesis by (simp add: power_up_text)
qed

theorem rd_cfg_status_power_up_witness:
  "out (final (thn (init_system bench) (rd_cfg_status bench) zynq0)) = out zynq0 @
     ''#Trigger Level Ch1 = 8190'' @ nl @ ''#Trigger Level Ch2 = 8190'' @ nl @
     ''#High Voltage 1    = 7.7 mV'' @ nl @ ''#High Voltage 2    = 7.7 mV'' @ nl @
     ''#Trigger Scaler 1  = 1'' @ nl @ ''#Trigger Scaler 2  = 1'' @ nl @
     ''#No GPS device is present or enabled'' @ nl @ ''#Working mode is MASTER'' @ nl @ nl @
     ''Status from registers complete!'' @ nl"
  by (rule rd_cfg_status_power_up [of bench zynq0 "\<lambda>a. 0"]) simp_all

text \<open>
  \<^verbatim>\<open>disable_interrupt\<close> does not clear the master enable: the value it writes to the MER has the bit
  ME exactly as it was read, so interrupts enabled by \<^verbatim>\<open>enable_interrupt\<close> stay enabled at the controller.
\<close>

theorem disable_interrupt_keeps_ME:
  assumes "uio_mapped intc_dev (intc_ptr s)" "4096 \<le> page_size E" "holds_writes E intc_dev z"
  shows "\<exists>h. thn (enable_interrupt E) (disable_interrupt E) s = Done 0 (s\<lparr>hist := h\<rparr>) \<and>
    bus E h intc_dev (uint (intc_off IER)) = 0 \<and> bus E h intc_dev (uint (intc_off MER)) = - 1 \<and>
    bit (bus E h intc_dev (uint (intc_off MER))) 0"
proof -
  let ?s = "s\<lparr>hist := Wr intc_dev 0x1C 3 # Wr intc_dev 8 1 # hist s\<rparr>"
  have "reg_offset 8" "reg_offset 0x1C" by (simp_all add: reg_offset_def)
  with assms have "enable_interrupt E s = Done 0 ?s"
    by (simp add: enable_interrupt_def intc_write_def dev_write_mapped MER_ME_MASK_def MER_HIE_MASK_def)
  with disable_interrupt_hist [of ?s E] assms show ?thesis
    by (intro exI [of _ "Wr intc_dev 12 1 # Wr intc_dev 28 (- 1) # Rd intc_dev 28 # Wr intc_dev 8 0 # hist ?s"])
      (simp add: holds_writes_def)
qed

theorem disable_interrupt_keeps_ME_witness:
  "\<exists>h. thn (enable_interrupt bench) (disable_interrupt bench) zynq0 = Done 0 (zynq0\<lparr>hist := h\<rparr>) \<and>
    bus bench h intc_dev (uint (intc_off IER)) = 0 \<and> bus bench h intc_dev (uint (intc_off MER)) = - 1 \<and>
    bit (bus bench h intc_dev (uint (intc_off MER))) 0"
  by (rule disable_interrupt_keeps_ME [of zynq0 bench "\<lambda>a. 0"]) (simp_all add: zynq0_def os.extend_def os0_def)

end
