(* ===== verification/BMP180.thy ===== *)
theory BMP180
  imports Zynq_IO
begin

text \<open>
  The pressure and temperature sensor, \<^verbatim>\<open>bmp180.c\<close> and \<^verbatim>\<open>bmp180.h\<close>: the object with its calibration
  coefficients, its life cycle on the heap, the transfers on the I2C bus and the compensation
  arithmetic in 32-bit words (a \<^verbatim>\<open>long\<close> of the target).  A \<^verbatim>\<open>void *\<close> to a sensor is an index into the
  store of allocated objects, or \<^verbatim>\<open>NULL\<close>; a freed object is an empty slot.
\<close>

section \<open>Data\<close>

record bmp180_t =
  bmp_file :: int
  address :: int
  oss :: int
  i2c_device :: "string option"
  ac1 :: i32
  ac2 :: i32
  ac3 :: i32
  ac4 :: i32
  ac5 :: i32
  ac6 :: i32
  b1 :: i32
  b2 :: i32
  mb :: i32
  mc :: i32
  md :: i32

type_synonym bmp_ptr = "nat option"

record bmp_st = zynq +
  bmps :: "bmp180_t option list"

definition bmp180_register_table :: "(int \<times> int) list" where
  "bmp180_register_table =
     [(0xAA, 1), (0xAC, 1), (0xAE, 1), (0xB0, 0), (0xB2, 0), (0xB4, 0),
      (0xB6, 1), (0xB8, 1), (0xBA, 1), (0xBC, 1), (0xBE, 1)]"

definition BMP180_CTRL :: int where "BMP180_CTRL = 0xF4"
definition BMP180_REG_TMP :: int where "BMP180_REG_TMP = 0xF6"
definition BMP180_REG_PRE :: int where "BMP180_REG_PRE = 0xF6"
definition BMP180_TMP_READ_CMD :: int where "BMP180_TMP_READ_CMD = 0x2E"

text \<open>The pressure commands of the four oversampling modes; any other mode reads as mode 0.\<close>

definition pre_cmd :: "int \<Rightarrow> int" where
  "pre_cmd m = (if m = 1 then 0x74 else if m = 2 then 0xB4 else if m = 3 then 0xF4 else 0x34)"

section \<open>Bus and memory\<close>

definition i2c_write_byte :: "int \<Rightarrow> int \<Rightarrow> ('a os_scheme, unit) io" where
  "i2c_write_byte r v = modify (\<lambda>s. s\<lparr>i2c_log := I2c_Write r v # i2c_log s\<rparr>)"

definition i2c_read_word :: "env \<Rightarrow> int \<Rightarrow> ('a os_scheme, i32) io" where
  "i2c_read_word E r =
     (\<lambda>s. Done (of_int (i2c_word E (i2c_log s) r)) (s\<lparr>i2c_log := I2c_Read_Word r # i2c_log s\<rparr>))"

definition i2c_read_byte :: "env \<Rightarrow> int \<Rightarrow> ('a os_scheme, i32) io" where
  "i2c_read_byte E r =
     (\<lambda>s. Done (of_int (i2c_byte E (i2c_log s) r)) (s\<lparr>i2c_log := I2c_Read_Byte r # i2c_log s\<rparr>))"

definition sys_malloc :: "env \<Rightarrow> int \<Rightarrow> ('a os_scheme, int option) io" where
  "sys_malloc E n = (\<lambda>s. Done (os_malloc E (mallocs s) n) (s\<lparr>mallocs := Suc (mallocs s)\<rparr>))"

text \<open>The dereference of a sensor pointer: \<^verbatim>\<open>NULL\<close> and freed objects fault.\<close>

definition deref :: "bmp_ptr \<Rightarrow> ('a bmp_st_scheme, bmp180_t) io" where
  "deref p =
     (\<lambda>s. case p of None \<Rightarrow> Stopped Fault s
       | Some i \<Rightarrow> if i < length (bmps s)
           then (case bmps s ! i of None \<Rightarrow> Stopped Fault s | Some b \<Rightarrow> Done b s)
           else Stopped Fault s)"

definition update_bmp :: "bmp_ptr \<Rightarrow> (bmp180_t \<Rightarrow> bmp180_t) \<Rightarrow> ('a bmp_st_scheme, unit) io" where
  "update_bmp p f = bnd (deref p) (\<lambda>b. modify (\<lambda>s. s\<lparr>bmps := (bmps s)[the p := Some (f b)]\<rparr>))"

definition free_bmp :: "bmp_ptr \<Rightarrow> ('a bmp_st_scheme, unit) io" where
  "free_bmp p = bnd (deref p) (\<lambda>b. modify (\<lambda>s. s\<lparr>bmps := (bmps s)[the p := None]\<rparr>))"

section \<open>Raw readings\<close>

text \<open>\<^verbatim>\<open>((data << 8) & 0xFF00) + (data >> 8)\<close>: the bus delivers the two bytes in the other order.\<close>

definition swap16 :: "i32 \<Rightarrow> i32" where
  "swap16 data = (push_bit 8 data AND 0xFF00) + signed_drop_bit 8 data"

definition bmp180_read_raw_temperature :: "env \<Rightarrow> bmp_ptr \<Rightarrow> ('a bmp_st_scheme, i32) io" where
  "bmp180_read_raw_temperature E p =
     bnd (deref p) (\<lambda>b.
     thn (i2c_write_byte BMP180_CTRL BMP180_TMP_READ_CMD)
    (bnd (i2c_read_word E BMP180_REG_TMP) (\<lambda>w. ret (swap16 (w AND 0xFFFF)))))"

text \<open>A shift by a register: the target uses the low byte of the count.\<close>

definition asr :: "i32 \<Rightarrow> int \<Rightarrow> i32" where
  "asr w k = signed_drop_bit (nat (k mod 256)) w"

definition lsl :: "i32 \<Rightarrow> int \<Rightarrow> i32" where
  "lsl w k = push_bit (nat (k mod 256)) w"

definition bmp180_read_raw_pressure :: "env \<Rightarrow> bmp_ptr \<Rightarrow> u8 \<Rightarrow> ('a bmp_st_scheme, i32) io" where
  "bmp180_read_raw_pressure E p m =
     bnd (deref p) (\<lambda>b.
     thn (i2c_write_byte BMP180_CTRL (pre_cmd (uint m)))
    (bnd (i2c_read_byte E BMP180_REG_PRE) (\<lambda>x. let msb = x AND 0xFF in
     bnd (i2c_read_byte E (BMP180_REG_PRE + 1)) (\<lambda>y. let lsb = y AND 0xFF in
     bnd (i2c_read_byte E (BMP180_REG_PRE + 2)) (\<lambda>z. let xlsb = z AND 0xFF in
     ret (asr (push_bit 16 msb + push_bit 8 lsb + xlsb) (8 - oss b)))))))"

section \<open>Compensation\<close>

text \<open>Division of a \<^verbatim>\<open>long\<close>: towards zero; by zero it raises a signal.\<close>

definition sdiv32 :: "i32 \<Rightarrow> i32 \<Rightarrow> i32" where
  "sdiv32 a b = of_int (sint a sdiv sint b)"

definition calc_B5 :: "bmp180_t \<Rightarrow> i32 \<Rightarrow> i32 option" where
  "calc_B5 b UT =
     (let X1 = signed_drop_bit 15 ((UT - ac6 b) * ac5 b); D = X1 + md b
      in if D = 0 then None else Some (X1 + sdiv32 (push_bit 11 (mc b)) D))"

text \<open>The lines of \<^verbatim>\<open>bmp180_pressure\<close> after \<^verbatim>\<open>B5\<close>.\<close>

definition calc_B3 :: "bmp180_t \<Rightarrow> i32 \<Rightarrow> i32" where
  "calc_B3 b B6 =
     (let X1 = signed_drop_bit 11 (signed_drop_bit 12 (b2 b * (B6 * B6)));
          X2 = signed_drop_bit 11 (ac2 b * B6);
          X3 = X1 + X2
      in sdiv32 (lsl (ac1 b * 4 + X3) (oss b) + 2) 4)"

definition calc_B4 :: "bmp180_t \<Rightarrow> i32 \<Rightarrow> u32" where
  "calc_B4 b B6 =
     (let X1 = signed_drop_bit 13 (ac3 b * B6);
          X2 = signed_drop_bit 16 (b1 b * signed_drop_bit 12 (B6 * B6));
          X3 = signed_drop_bit 2 ((X1 + X2) + 2)
      in drop_bit 15 (ac4 b * (X3 + 32768)))"

definition calc_p :: "u32 \<Rightarrow> u32 \<Rightarrow> i32" where
  "calc_p B7 B4 = (if B7 < 0x80000000 then (B7 * 2) div B4 else (B7 div B4) * 2)"

definition calc_final :: "i32 \<Rightarrow> i32" where
  "calc_final p =
     (let X1 = signed_drop_bit 8 p * signed_drop_bit 8 p;
          X1' = signed_drop_bit 16 (X1 * 3038);
          X2 = signed_drop_bit 16 (- 7357 * p)
      in p + signed_drop_bit 4 (X1' + X2 + 3791))"

definition calc_pressure :: "bmp180_t \<Rightarrow> i32 \<Rightarrow> i32 \<Rightarrow> i32 option" where
  "calc_pressure b UT UP =
     (case calc_B5 b UT of None \<Rightarrow> None
      | Some B5 \<Rightarrow>
          let B6 = B5 - 4000;
              B3 = calc_B3 b B6;
              B4 = calc_B4 b B6;
              B7 = (UP - B3) * asr 50000 (oss b)
          in if B4 = 0 then None else Some (calc_final (calc_p B7 B4)))"

definition bmp180_pressure :: "env \<Rightarrow> bmp_ptr \<Rightarrow> ('a bmp_st_scheme, flt) io" where
  "bmp180_pressure E p =
     bnd (bmp180_read_raw_temperature E p) (\<lambda>UT.
     bnd (deref p) (\<lambda>b.
     bnd (bmp180_read_raw_pressure E p (of_int (oss b))) (\<lambda>UP.
     (case calc_pressure b UT UP of
        None \<Rightarrow> halt Div_Zero
      | Some r \<Rightarrow> ret (f_of_int single_prec (sint r))))))"

definition calc_T :: "i32 \<Rightarrow> flt" where
  "calc_T B5 =
     fconv single_prec (fdiv double_prec
       (f_of_int double_prec (sint (signed_drop_bit 4 (B5 + 8)))) (f_of_int double_prec 10))"

definition bmp180_temperature :: "env \<Rightarrow> bmp_ptr \<Rightarrow> ('a bmp_st_scheme, flt) io" where
  "bmp180_temperature E p =
     bnd (bmp180_read_raw_temperature E p) (\<lambda>UT.
     bnd (deref p) (\<lambda>b.
     (case calc_B5 b UT of
        None \<Rightarrow> halt Div_Zero
      | Some B5 \<Rightarrow> ret (calc_T B5))))"

text \<open>\<^verbatim>\<open>alt = 44330 * (1 - pow((p/100) / 1013.25, 1/5.255))\<close>: \<^verbatim>\<open>p/100\<close> in \<^verbatim>\<open>float\<close>, the rest in \<^verbatim>\<open>double\<close>.\<close>

definition calc_altitude :: "env \<Rightarrow> flt \<Rightarrow> flt" where
  "calc_altitude E p =
     (let x = fdiv double_prec (fdiv single_prec p (f_of_int single_prec 100)) (dlit 101325 100);
          y = fdiv double_prec (f_of_int double_prec 1) (dlit 5255 1000);
          z = fsub double_prec (f_of_int double_prec 1) (f_pow E x y)
      in fconv single_prec (fmul double_prec (f_of_int double_prec 44330) z))"

definition bmp180_altitude :: "env \<Rightarrow> bmp_ptr \<Rightarrow> ('a bmp_st_scheme, flt) io" where
  "bmp180_altitude E p = bnd (bmp180_pressure E p) (\<lambda>q. ret (calc_altitude E q))"

definition bmp180_set_oss :: "bmp_ptr \<Rightarrow> int \<Rightarrow> ('a bmp_st_scheme, unit) io" where
  "bmp180_set_oss p m = update_bmp p (\<lambda>b. b\<lparr>oss := m\<rparr>)"

section \<open>Calibration coefficients\<close>

definition bmp180_read_eprom_reg :: "env \<Rightarrow> bmp_ptr \<Rightarrow> (i32 \<Rightarrow> bmp180_t \<Rightarrow> bmp180_t) \<Rightarrow> int \<Rightarrow> int \<Rightarrow> ('a bmp_st_scheme, unit) io" where
  "bmp180_read_eprom_reg E p store r sign =
     bnd (deref p) (\<lambda>b.
     bnd (i2c_read_word E r) (\<lambda>w.
     let v = swap16 (w AND 0xFFFF)
     in update_bmp p (store (if sign \<noteq> 0 \<and> 32767 < sint v then v - 65536 else v))))"

definition bmp180_register_addr :: "(i32 \<Rightarrow> bmp180_t \<Rightarrow> bmp180_t) list" where
  "bmp180_register_addr =
     [\<lambda>v b. b\<lparr>ac1 := v\<rparr>, \<lambda>v b. b\<lparr>ac2 := v\<rparr>, \<lambda>v b. b\<lparr>ac3 := v\<rparr>, \<lambda>v b. b\<lparr>ac4 := v\<rparr>, \<lambda>v b. b\<lparr>ac5 := v\<rparr>,
      \<lambda>v b. b\<lparr>ac6 := v\<rparr>, \<lambda>v b. b\<lparr>b1 := v\<rparr>, \<lambda>v b. b\<lparr>b2 := v\<rparr>, \<lambda>v b. b\<lparr>mb := v\<rparr>, \<lambda>v b. b\<lparr>mc := v\<rparr>,
      \<lambda>v b. b\<lparr>md := v\<rparr>]"

definition bmp180_read_eprom :: "env \<Rightarrow> bmp_ptr \<Rightarrow> ('a bmp_st_scheme, unit) io" where
  "bmp180_read_eprom E p =
     stmts (map (\<lambda>(store, r, sign). bmp180_read_eprom_reg E p store r sign)
       (zip bmp180_register_addr bmp180_register_table))"

text \<open>The eleven coefficients, as \<^verbatim>\<open>bmp180_dump_eprom\<close> copies them into the caller's structure.\<close>

definition coefs :: "bmp180_t \<Rightarrow> i32 list" where
  "coefs b = [ac1 b, ac2 b, ac3 b, ac4 b, ac5 b, ac6 b, b1 b, b2 b, mb b, mc b, md b]"

definition bmp180_dump_eprom :: "bmp_ptr \<Rightarrow> ('a bmp_st_scheme, i32 list) io" where
  "bmp180_dump_eprom p = bnd (deref p) (\<lambda>b. ret (coefs b))"

section \<open>Life cycle\<close>

definition bmp180_set_addr :: "env \<Rightarrow> bmp_ptr \<Rightarrow> ('a bmp_st_scheme, int) io" where
  "bmp180_set_addr E p = bnd (deref p) (\<lambda>b. ret (i2c_slave E (address b)))"

definition bmp180_init_error_cleanup :: "bmp_ptr \<Rightarrow> ('a bmp_st_scheme, unit) io" where
  "bmp180_init_error_cleanup p =
     bnd (deref p) (\<lambda>b.
     thn (whn (i2c_device b \<noteq> None) (update_bmp p (\<lambda>b. b\<lparr>i2c_device := None\<rparr>)))
         (free_bmp p))"

definition blank_bmp :: "env \<Rightarrow> bmp180_t" where
  "blank_bmp E =
     (let u = uninit E in
      \<lparr>bmp_file = sint u, address = sint u, oss = sint u, i2c_device = None, ac1 = u, ac2 = u, ac3 = u, ac4 = u,
       ac5 = u, ac6 = u, b1 = u, b2 = u, mb = u, mc = u, md = u\<rparr>)"

text \<open>The second half of \<^verbatim>\<open>bmp180_init\<close>: open the bus, select the device, read the coefficients.\<close>

definition bmp180_setup :: "env \<Rightarrow> bmp_ptr \<Rightarrow> string \<Rightarrow> ('a bmp_st_scheme, bmp_ptr) io" where
  "bmp180_setup E p path =
     bnd (sys_open E path) (\<lambda>fd.
       if fd < 0 then thn (bmp180_init_error_cleanup p) (ret None)
       else thn (update_bmp p (\<lambda>b. b\<lparr>bmp_file := fd\<rparr>))
      (bnd (bmp180_set_addr E p) (\<lambda>e.
         if e < 0 then thn (bmp180_init_error_cleanup p) (ret None)
         else thn (bmp180_read_eprom E p)
             (thn (update_bmp p (\<lambda>b. b\<lparr>oss := 0\<rparr>))
                  (ret p)))))"

text \<open>\<^verbatim>\<open>bmp180_init\<close>: the path buffer is allocated with \<^verbatim>\<open>strlen\<close> bytes and \<^verbatim>\<open>strcpy\<close> stores one more, the
  terminating NUL; it stays inside the block only when the allocator gave at least one spare byte.\<close>

definition bmp180_init :: "env \<Rightarrow> int \<Rightarrow> string \<Rightarrow> ('a bmp_st_scheme, bmp_ptr) io" where
  "bmp180_init E addr path =
     bnd (sys_malloc E 60) (\<lambda>m0. case m0 of None \<Rightarrow> ret None
     | Some _ \<Rightarrow>
       bnd (gets (\<lambda>s. Some (length (bmps s)))) (\<lambda>p.
       thn (modify (\<lambda>s. s\<lparr>bmps := bmps s @ [Some ((blank_bmp E)\<lparr>address := addr\<rparr>)]\<rparr>))
      (bnd (sys_malloc E (int (length path))) (\<lambda>m1. case m1 of
         None \<Rightarrow> thn (bmp180_init_error_cleanup p) (ret None)
       | Some usable \<Rightarrow>
           if usable < int (length path) + 1 then halt Overrun
           else thn (update_bmp p (\<lambda>b. b\<lparr>i2c_device := Some path\<rparr>))
                    (bmp180_setup E p path)))))"

definition bmp180_close :: "bmp_ptr \<Rightarrow> ('a bmp_st_scheme, unit) io" where
  "bmp180_close p =
     (case p of None \<Rightarrow> ret ()
      | Some _ \<Rightarrow>
          bnd (deref p) (\<lambda>b.
          thn (sys_close (bmp_file b))
         (thn (update_bmp p (\<lambda>b. b\<lparr>i2c_device := None\<rparr>))
              (free_bmp p))))"

section \<open>Exact readings of machine arithmetic\<close>

lemma signed_drop_bit_of_int:
  "- (2 ^ 31) \<le> x \<Longrightarrow> x < 2 ^ 31 \<Longrightarrow> signed_drop_bit n (of_int x :: i32) = of_int (x div 2 ^ n)"
proof -
  assume r: "- (2 ^ 31) \<le> x" "x < 2 ^ 31"
  have "signed_drop_bit n (of_int x :: i32) = of_int (sint (signed_drop_bit n (of_int x :: i32)))"
    by simp
  also have "sint (signed_drop_bit n (of_int x :: i32)) = drop_bit n x"
    using r by (simp add: sint_signed_drop_bit_eq sint_of_int_range)
  finally show ?thesis by (simp add: drop_bit_eq_div)
qed

lemma of_int_sint: "(of_int (sint w) :: 'a::len word) = w"
  by simp

lemma uint_take16: "uint (w AND 0xFFFF :: i32) = uint w mod 65536"
proof -
  have "(0xFFFF :: i32) = mask 16" by (simp add: mask_eq_exp_minus_1)
  then show ?thesis by (simp only: take_bit_eq_mask [symmetric] unsigned_take_bit_eq) (simp add: take_bit_eq_mod)
qed

text \<open>The byte swap, on values below \<open>2 ^ 16\<close>.\<close>

lemma swap16_value:
  assumes "0 \<le> x" "x < 65536"
  shows "swap16 (of_int x) = of_int ((x mod 256) * 256 + x div 256)"
proof -
  have "signed_drop_bit 8 (of_int x :: i32) = of_int (x div 256)"
    using assms by (simp add: signed_drop_bit_of_int)
  moreover have "(push_bit 8 (of_int x) :: i32) AND 0xFF00 = of_int (x mod 256 * 256)"
  proof -
    have m: "(0xFF00 :: i32) = push_bit 8 (mask 8)" by (simp add: mask_eq_exp_minus_1 push_bit_eq_mult)
    have "(push_bit 8 (of_int x) :: i32) AND 0xFF00 = push_bit 8 (take_bit 8 (of_int x))"
      unfolding m by (simp only: push_bit_and [symmetric] take_bit_eq_mask)
    also have "\<dots> = of_int (take_bit 8 x * 256)"
      by (simp add: push_bit_eq_mult take_bit_of_int)
    finally show ?thesis by (simp add: take_bit_eq_mod)
  qed
  ultimately show ?thesis by (simp add: swap16_def)
qed

definition coef_ranges :: "bmp180_t \<Rightarrow> bool" where
  "coef_ranges b \<longleftrightarrow>
     (\<forall>v \<in> {ac4 b, ac5 b, ac6 b}. 0 \<le> sint v \<and> sint v \<le> 65535) \<and>
     (\<forall>v \<in> {ac1 b, ac2 b, ac3 b, b1 b, b2 b, mb b, mc b, md b}. - 32768 \<le> sint v \<and> sint v \<le> 32767)"

definition B5_spec :: "bmp180_t \<Rightarrow> int \<Rightarrow> int" where
  "B5_spec b ut =
     (let x1 = (ut - sint (ac6 b)) * sint (ac5 b) div 2 ^ 15
      in x1 + (sint (mc b) * 2 ^ 11) sdiv (x1 + sint (md b)))"

lemma X1_range:
  fixes u a5 a6 :: int
  assumes "0 \<le> u" "u \<le> 65535" "0 \<le> a6" "a6 \<le> 65535" "0 \<le> a5" "a5 \<le> 32768"
  shows "\<bar>(u - a6) * a5\<bar> < 2 ^ 31" "\<bar>(u - a6) * a5 div 2 ^ 15\<bar> \<le> 65535"
proof -
  have m: "\<bar>(u - a6) * a5\<bar> \<le> 65535 * 32768"
    unfolding abs_mult using assms by (intro mult_mono) auto
  then show "\<bar>(u - a6) * a5\<bar> < 2 ^ 31" by simp
  from m show "\<bar>(u - a6) * a5 div 2 ^ 15\<bar> \<le> 65535" by (simp add: abs_le_iff) linarith
qed

lemma calc_B5_exact:
  assumes c: "coef_ranges b" and a5: "sint (ac5 b) \<le> 32768" and u: "0 \<le> u" "u \<le> 65535"
    and nz: "(u - sint (ac6 b)) * sint (ac5 b) div 2 ^ 15 + sint (md b) \<noteq> 0"
  shows "calc_B5 b (of_int u) = Some (of_int (B5_spec b u))"
proof -
  define x where "x = (u - sint (ac6 b)) * sint (ac5 b)"
  have r: "\<bar>x\<bar> < 2 ^ 31" "\<bar>x div 2 ^ 15\<bar> \<le> 65535"
    unfolding x_def using c a5 u by (intro X1_range; simp add: coef_ranges_def)+
  have m: "- 32768 \<le> sint (md b)" "sint (md b) \<le> 32767" "- 32768 \<le> sint (mc b)" "sint (mc b) \<le> 32767"
    using c by (simp_all add: coef_ranges_def)
  have X1: "signed_drop_bit 15 ((of_int u - ac6 b) * ac5 b) = of_int (x div 2 ^ 15)"
    using signed_drop_bit_of_int [of x 15] r(1) by (simp add: x_def abs_less_iff)
  have D: "of_int (x div 2 ^ 15) + md b = of_int (x div 2 ^ 15 + sint (md b))" by simp
  have sD: "sint (of_int (x div 2 ^ 15 + sint (md b)) :: i32) = x div 2 ^ 15 + sint (md b)"
    using r(2) m by (intro sint_of_int_range) (simp_all add: abs_le_iff)
  then have "(of_int (x div 2 ^ 15 + sint (md b)) :: i32) \<noteq> 0"
    using nz by (metis sint_0 x_def)
  moreover have "push_bit 11 (mc b) = of_int (sint (mc b) * 2 ^ 11)" by (simp add: push_bit_eq_mult)
  moreover have "sint (of_int (sint (mc b) * 2 ^ 11) :: i32) = sint (mc b) * 2 ^ 11"
    using m by (intro sint_of_int_range) simp_all
  ultimately show ?thesis
    unfolding calc_B5_def X1 Let_def D sdiv32_def B5_spec_def x_def [symmetric] by (simp only: sD if_False) (simp only: of_int_add)
qed

section \<open>Evaluation on live objects\<close>

definition live :: "'a bmp_st_scheme \<Rightarrow> nat \<Rightarrow> bmp180_t \<Rightarrow> bool" where
  "live s i b \<longleftrightarrow> i < length (bmps s) \<and> bmps s ! i = Some b"

lemma deref_live [simp]: "live s i b \<Longrightarrow> deref (Some i) s = Done b s"
  by (simp add: live_def deref_def)

lemma deref_Null [simp]: "deref None s = Stopped Fault s"
  by (simp add: deref_def)

lemma live_os [simp]:
  "live (s\<lparr>i2c_log := l\<rparr>) i b = live s i b" "live (s\<lparr>opens := x\<rparr>) i b = live s i b"
  "live (s\<lparr>mallocs := k\<rparr>) i b = live s i b" "live (s\<lparr>closed := c\<rparr>) i b = live s i b"
  "live (s\<lparr>out := u\<rparr>) i b = live s i b"
  by (simp_all add: live_def)

lemma live_update [simp]: "live s i b \<Longrightarrow> live (s\<lparr>bmps := (bmps s)[i := Some c]\<rparr>) i d = (c = d)"
  by (auto simp: live_def)

lemma live_update' [simp]: "live s i b \<Longrightarrow> live (s\<lparr>i2c_log := l, bmps := (bmps s)[i := Some c]\<rparr>) i d = (c = d)"
  by (auto simp: live_def)

lemma update_bmp_live [simp]:
  "live s i b \<Longrightarrow> update_bmp (Some i) f s = Done () (s\<lparr>bmps := (bmps s)[i := Some (f b)]\<rparr>)"
  by (simp add: update_bmp_def)

lemma free_bmp_live [simp]:
  "live s i b \<Longrightarrow> free_bmp (Some i) s = Done () (s\<lparr>bmps := (bmps s)[i := None]\<rparr>)"
  by (simp add: free_bmp_def)

text \<open>The stored value of a coefficient.\<close>

definition coef_of :: "int \<Rightarrow> int \<Rightarrow> i32" where
  "coef_of sign w =
     (let v = swap16 (of_int w AND 0xFFFF) in if sign \<noteq> 0 \<and> 32767 < sint v then v - 65536 else v)"

lemma read_eprom_reg_live:
  "live s i b \<Longrightarrow> bmp180_read_eprom_reg E (Some i) store r sign s =
     Done () (s\<lparr>i2c_log := I2c_Read_Word r # i2c_log s,
                bmps := (bmps s)[i := Some (store (coef_of sign (i2c_word E (i2c_log s) r)) b)]\<rparr>)"
  by (simp add: bmp180_read_eprom_reg_def i2c_read_word_def coef_of_def Let_def)

lemma low16: "(of_int w AND 0xFFFF :: i32) = of_int (w mod 65536)"
proof -
  have "(0xFFFF :: i32) = mask 16" by (simp add: mask_eq_exp_minus_1)
  then have "(of_int w AND 0xFFFF :: i32) = take_bit 16 (of_int w)" by (simp only: take_bit_eq_mask)
  also have "\<dots> = of_int (take_bit 16 w)" by (simp only: take_bit_of_int)
  also have "take_bit 16 w = w mod 65536" by (simp add: take_bit_eq_mod)
  finally show ?thesis .
qed

lemma coef_of_value:
  defines "be w \<equiv> (w mod 256) * 256 + w div 256 mod 256"
  shows "sint (coef_of 0 w) = be w" "sint (coef_of 1 w) = (if 32767 < be w then be w - 65536 else be w)"
proof -
  have w: "w mod 65536 = 256 * (w div 256 mod 256) + w mod 256"
    using zmod_zmult2_eq [of 256 w 256] by simp
  have q: "w mod 65536 mod 256 = w mod 256" "w mod 65536 div 256 = w div 256 mod 256"
    unfolding w by simp_all
  have b: "swap16 (of_int w AND 0xFFFF) = of_int (be w)"
    unfolding low16 using swap16_value [of "w mod 65536"] by (simp add: be_def q)
  have "0 \<le> w mod 256" "w mod 256 < 256" "0 \<le> w div 256 mod 256" "w div 256 mod 256 < 256" by simp_all
  then have r: "0 \<le> be w" "be w < 65536"
    unfolding be_def by linarith+
  have s: "sint (of_int (be w) :: i32) = be w"
    using r by (intro sint_of_int_range) simp_all
  show "sint (coef_of 0 w) = be w" unfolding coef_of_def b Let_def by (simp add: s)
  have "32767 < be w \<Longrightarrow> sint (of_int (be w - 65536) :: i32) = be w - 65536"
    using r by (intro sint_of_int_range) simp_all
  then show "sint (coef_of 1 w) = (if 32767 < be w then be w - 65536 else be w)"
    unfolding coef_of_def b Let_def by (simp add: s)
qed

lemma coef_of_range:
  "0 \<le> sint (coef_of 0 w)" "sint (coef_of 0 w) \<le> 65535" "- 32768 \<le> sint (coef_of 1 w)" "sint (coef_of 1 w) \<le> 32767"
proof -
  have "0 \<le> w mod 256" "w mod 256 < 256" "0 \<le> w div 256 mod 256" "w div 256 mod 256 < 256" by simp_all
  then show "0 \<le> sint (coef_of 0 w)" "sint (coef_of 0 w) \<le> 65535" "- 32768 \<le> sint (coef_of 1 w)" "sint (coef_of 1 w) \<le> 32767"
    unfolding coef_of_value by auto
qed

text \<open>The coefficients a run of the table delivers, one bus transfer after the other.\<close>

fun eprom_words :: "env \<Rightarrow> i2c_op list \<Rightarrow> (int \<times> int) list \<Rightarrow> i32 list" where
  "eprom_words E l [] = []"
| "eprom_words E l ((r, sign) # t) = coef_of sign (i2c_word E l r) # eprom_words E (I2c_Read_Word r # l) t"

lemma read_eprom_live:
  assumes "live s i b"
  shows "\<exists>l b'. bmp180_read_eprom E (Some i) s = Done () (s\<lparr>i2c_log := l, bmps := (bmps s)[i := Some b']\<rparr>) \<and>
     coefs b' = eprom_words E (i2c_log s) bmp180_register_table \<and>
     bmp_file b' = bmp_file b \<and> address b' = address b \<and> oss b' = oss b \<and> i2c_device b' = i2c_device b"
  using assms
  by (simp add: bmp180_read_eprom_def bmp180_register_addr_def bmp180_register_table_def read_eprom_reg_live)
    (rule exI, rule exI, rule conjI, rule refl, simp add: coefs_def)

lemma eprom_words_ranges: "coefs b = eprom_words E l bmp180_register_table \<Longrightarrow> coef_ranges b"
  by (simp add: coefs_def bmp180_register_table_def coef_ranges_def coef_of_range)

text \<open>What a sensor answers that keeps the 16-bit words \<open>c\<close>, most significant byte first.\<close>

definition eprom_holds :: "env \<Rightarrow> int list \<Rightarrow> bool" where
  "eprom_holds E c \<longleftrightarrow> length c = 11 \<and> (\<forall>k < 11. 0 \<le> c ! k \<and> c ! k < 65536 \<and>
     (\<forall>h. i2c_word E h (fst (bmp180_register_table ! k)) = (c ! k) div 256 + 256 * ((c ! k) mod 256)))"

definition decode_coef :: "int \<times> int \<Rightarrow> int \<Rightarrow> int" where
  "decode_coef d v = (if snd d \<noteq> 0 \<and> 32767 < v then v - 65536 else v)"

lemma coef_of_be:
  assumes "0 \<le> v" "v < 65536" "g = 0 \<or> g = 1"
  shows "sint (coef_of g (v div 256 + 256 * (v mod 256))) = decode_coef (r, g) v"
proof -
  have "(v div 256 + 256 * (v mod 256)) mod 256 = v div 256" "(v div 256 + 256 * (v mod 256)) div 256 mod 256 = v mod 256"
    using assms(1,2) by simp_all
  then show ?thesis using assms(3) coef_of_value [of "v div 256 + 256 * (v mod 256)"]
    by (auto simp: decode_coef_def)
qed

lemma eprom_words_decode:
  assumes "\<forall>k < length t. 0 \<le> c ! k \<and> c ! k < 65536 \<and> (snd (t ! k) = 0 \<or> snd (t ! k) = 1) \<and>
     (\<forall>h. i2c_word E h (fst (t ! k)) = (c ! k) div 256 + 256 * ((c ! k) mod 256))" "length c = length t"
  shows "map sint (eprom_words E l t) = map2 decode_coef t c"
  using assms
proof (induction t arbitrary: c l)
  case Nil
  then show ?case by simp
next
  case (Cons d t)
  obtain r g where d: "d = (r, g)" by fastforce
  obtain v c' where c: "c = v # c'" using Cons.prems(2) by (cases c) auto
  have "map sint (eprom_words E (I2c_Read_Word r # l) t) = map2 decode_coef t c'"
    using Cons.prems by (intro Cons.IH) (auto simp: c)
  moreover have "sint (coef_of g (i2c_word E l r)) = decode_coef (r, g) v"
    using Cons.prems(1) [rule_format, of 0] coef_of_be by (simp add: c d)
  ultimately show ?case by (simp add: c d)
qed

lemma table_signs: "k < 11 \<Longrightarrow> snd (bmp180_register_table ! k) = 0 \<or> snd (bmp180_register_table ! k) = 1"
  by (auto simp: bmp180_register_table_def numeral_eq_Suc less_Suc_eq)

lemma read_eprom_decodes:
  assumes "live s i b" "eprom_holds E c"
  shows "\<exists>l b'. bmp180_read_eprom E (Some i) s = Done () (s\<lparr>i2c_log := l, bmps := (bmps s)[i := Some b']\<rparr>) \<and>
     map sint (coefs b') = map2 decode_coef bmp180_register_table c \<and> coef_ranges b'"
proof -
  have n: "length bmp180_register_table = 11" by (simp add: bmp180_register_table_def)
  obtain l b' where e: "bmp180_read_eprom E (Some i) s = Done () (s\<lparr>i2c_log := l, bmps := (bmps s)[i := Some b']\<rparr>)"
    "coefs b' = eprom_words E (i2c_log s) bmp180_register_table"
    using read_eprom_live [OF assms(1)] by blast
  moreover have "map sint (coefs b') = map2 decode_coef bmp180_register_table c"
    unfolding e(2) using assms(2) table_signs by (intro eprom_words_decode) (simp_all add: eprom_holds_def n)
  ultimately show ?thesis using eprom_words_ranges by blast
qed

section \<open>Life cycle\<close>

lemma live_append [simp]: "live (s\<lparr>bmps := bmps s @ [Some b]\<rparr>) (length (bmps s)) c = (b = c)"
  by (simp add: live_def)

lemma cleanup_live:
  "live s i b \<Longrightarrow> bmp180_init_error_cleanup (Some i) s = Done () (s\<lparr>bmps := (bmps s)[i := None]\<rparr>)"
  by (cases "i2c_device b") (simp_all add: bmp180_init_error_cleanup_def live_def)


lemma setup_fails:
  assumes "live s i b" "os_open E (opens s) path < 0 \<or> i2c_slave E (address b) < 0"
  shows "\<exists>t. bmp180_setup E (Some i) path s = Done None t \<and> bmps t = (bmps s)[i := None]"
proof (cases "os_open E (opens s) path < 0")
  case True
  with assms(1) show ?thesis by (simp add: bmp180_setup_def cleanup_live)
next
  case False
  let ?s = "s\<lparr>opens := (path, os_open E (opens s) path) # opens s,
    bmps := (bmps s)[i := Some (b\<lparr>bmp_file := os_open E (opens s) path\<rparr>)]\<rparr>"
  have "live ?s i (b\<lparr>bmp_file := os_open E (opens s) path\<rparr>)" using assms(1) by (simp add: live_def)
  with assms False show ?thesis by (simp add: bmp180_setup_def bmp180_set_addr_def cleanup_live)
qed

lemma setup_succeeds:
  assumes "live s i b" "0 \<le> os_open E (opens s) path" "0 \<le> i2c_slave E (address b)"
  shows "\<exists>b' t. bmp180_setup E (Some i) path s = Done (Some i) t \<and> bmps t = (bmps s)[i := Some b'] \<and>
    coef_ranges b' \<and> oss b' = 0 \<and> address b' = address b \<and> i2c_device b' = i2c_device b \<and>
    bmp_file b' = os_open E (opens s) path \<and> coefs b' = eprom_words E (i2c_log s) bmp180_register_table"
proof -
  let ?b = "b\<lparr>bmp_file := os_open E (opens s) path\<rparr>"
  let ?s = "s\<lparr>opens := (path, os_open E (opens s) path) # opens s, bmps := (bmps s)[i := Some ?b]\<rparr>"
  have l: "live ?s i ?b" using assms(1) by (simp add: live_def)
  from read_eprom_live [OF l, of E] obtain g b' where e:
    "bmp180_read_eprom E (Some i) ?s = Done () (?s\<lparr>i2c_log := g, bmps := (bmps ?s)[i := Some b']\<rparr>)"
    "coefs b' = eprom_words E (i2c_log s) bmp180_register_table"
    "bmp_file b' = os_open E (opens s) path" "address b' = address b" "i2c_device b' = i2c_device b" by auto
  have l': "live (?s\<lparr>i2c_log := g, bmps := (bmps ?s)[i := Some b']\<rparr>) i b'"
    using assms(1) by (simp add: live_def)
  have "bmp180_setup E (Some i) path s =
    Done (Some i) (?s\<lparr>i2c_log := g, bmps := (bmps ?s)[i := Some b', i := Some (b'\<lparr>oss := 0\<rparr>)]\<rparr>)"
    using assms l l' e(1) by (simp add: bmp180_setup_def bmp180_set_addr_def)
  moreover have "coefs (b'\<lparr>oss := 0\<rparr>) = coefs b'" by (simp add: coefs_def)
  ultimately show ?thesis
    using e eprom_words_ranges [of "b'\<lparr>oss := 0\<rparr>" E "i2c_log s"]
    by (intro exI [of _ "b'\<lparr>oss := 0\<rparr>"]) simp
qed

lemma setup_cases:
  assumes "live s i b" "bmp180_setup E (Some i) path s = Done r t"
  shows "(r = None \<and> bmps t = (bmps s)[i := None]) \<or>
    (\<exists>b'. r = Some i \<and> bmps t = (bmps s)[i := Some b'] \<and> coef_ranges b' \<and> oss b' = 0 \<and>
      address b' = address b \<and> i2c_device b' = i2c_device b \<and> 0 \<le> bmp_file b')"
  using assms(2) setup_fails [OF assms(1), of E path] setup_succeeds [OF assms(1), of E path]
  by (cases "os_open E (opens s) path < 0 \<or> i2c_slave E (address b) < 0") (auto simp: not_less)

lemma bmp180_init_cases:
  assumes "bmp180_init E a path s = Done r t"
  shows "(r = None \<and> (bmps t = bmps s \<or> bmps t = bmps s @ [None])) \<or>
    (\<exists>b. r = Some (length (bmps s)) \<and> bmps t = bmps s @ [Some b] \<and> coef_ranges b \<and> oss b = 0 \<and>
      address b = a \<and> i2c_device b = Some path \<and> 0 \<le> bmp_file b)"
proof (cases "os_malloc E (mallocs s) 60")
  case None
  with assms show ?thesis by (auto simp: bmp180_init_def sys_malloc_def)
next
  case m0: (Some u0)
  let ?i = "length (bmps s)" and ?b = "(blank_bmp E)\<lparr>address := a\<rparr>"
  let ?s = "s\<lparr>bmps := bmps s @ [Some ?b], mallocs := Suc (Suc (mallocs s))\<rparr>"
  let ?c = "?b\<lparr>i2c_device := Some path\<rparr>"
  have l: "live ?s ?i ?b" by (simp add: live_def)
  show ?thesis
  proof (cases "os_malloc E (Suc (mallocs s)) (int (length path))")
    case None
    with assms m0 cleanup_live [OF l] show ?thesis
      by (auto simp: bmp180_init_def sys_malloc_def)
  next
    case (Some u1)
    have lc: "live (?s\<lparr>bmps := bmps s @ [Some ?c]\<rparr>) ?i ?c" by (simp add: live_def)
    from Some assms m0 l have "bmp180_setup E (Some ?i) path (?s\<lparr>bmps := bmps s @ [Some ?c]\<rparr>) = Done r t"
      by (simp add: bmp180_init_def sys_malloc_def split: if_splits)
    from setup_cases [OF lc this] show ?thesis by auto
  qed
qed


section \<open>Exactness of the pressure compensation\<close>

lemma abs_mult_le: "\<bar>a\<bar> \<le> A \<Longrightarrow> \<bar>b\<bar> \<le> B \<Longrightarrow> \<bar>a * b\<bar> \<le> A * (B::int)"
  unfolding abs_mult by (intro mult_mono) auto

lemma abs_div_le: "0 < k \<Longrightarrow> \<bar>x\<bar> \<le> m * k \<Longrightarrow> \<bar>x div k\<bar> \<le> (m::int)"
proof -
  assume k: "0 < k" and x: "\<bar>x\<bar> \<le> m * k"
  have "x div k \<le> m * k div k" "((- m) * k) div k \<le> x div k"
    using k x by (intro zdiv_mono1; simp add: abs_le_iff)+
  moreover have "m * k div k = m" "((- m) * k) div k = - m"
    using k by (simp_all only: nonzero_mult_div_cancel_right)
  ultimately show ?thesis by linarith
qed

lemma shift_exact: "\<bar>x\<bar> < 2 ^ 31 \<Longrightarrow> signed_drop_bit n (of_int x :: i32) = of_int (x div 2 ^ n)"
  by (intro signed_drop_bit_of_int) (simp_all add: abs_less_iff)

lemma sint_exact: "\<bar>x\<bar> < 2 ^ 31 \<Longrightarrow> sint (of_int x :: i32) = x"
  by (intro sint_of_int_range) (simp_all add: abs_less_iff)

text \<open>The value of the driver's expressions over unbounded integers.\<close>

definition B3_code :: "bmp180_t \<Rightarrow> int \<Rightarrow> int" where
  "B3_code b b6 =
     ((sint (ac1 b) * 4 + (sint (b2 b) * (b6 * b6) div 2 ^ 12 div 2 ^ 11 + sint (ac2 b) * b6 div 2 ^ 11)) * 2 ^ nat (oss b) + 2) sdiv 4"

definition B4_spec :: "bmp180_t \<Rightarrow> int \<Rightarrow> int" where
  "B4_spec b b6 =
     sint (ac4 b) * ((sint (ac3 b) * b6 div 2 ^ 13 + sint (b1 b) * (b6 * b6 div 2 ^ 12) div 2 ^ 16 + 2) div 2 ^ 2 + 32768) div 2 ^ 15"

definition final_spec :: "int \<Rightarrow> int" where
  "final_spec p = p + (((p div 2 ^ 8) * (p div 2 ^ 8) * 3038) div 2 ^ 16 + (- 7357 * p) div 2 ^ 16 + 3791) div 2 ^ 4"

definition p_code :: "bmp180_t \<Rightarrow> int \<Rightarrow> int \<Rightarrow> int" where
  "p_code b ut up =
     (let b6 = B5_spec b ut - 4000;
          b7 = (up - B3_code b b6) * (50000 div 2 ^ nat (oss b));
          b4 = B4_spec b b6
      in final_spec (if b7 < 2 ^ 31 then b7 * 2 div b4 else b7 div b4 * 2))"

lemma coef_abs:
  assumes "coef_ranges b"
  shows "\<bar>sint (ac1 b)\<bar> \<le> 32768" "\<bar>sint (ac2 b)\<bar> \<le> 32768" "\<bar>sint (ac3 b)\<bar> \<le> 32768" "\<bar>sint (b1 b)\<bar> \<le> 32768"
    "0 \<le> sint (ac4 b)" "sint (ac4 b) \<le> 65535"
  using assms by (auto simp: coef_ranges_def abs_le_iff)

lemma calc_B3_exact:
  assumes c: "coef_ranges b" and o: "0 \<le> oss b" "oss b \<le> 3" and b6: "\<bar>b6\<bar> \<le> 10400"
    and b2: "\<bar>sint (b2 b) * (b6 * b6)\<bar> < 2 ^ 31"
  shows "calc_B3 b (of_int b6) = of_int (B3_code b b6)"
proof -
  note a = coef_abs [OF c]
  define x1 x2 where "x1 = sint (b2 b) * (b6 * b6)" and "x2 = sint (ac2 b) * b6"
  have x1: "\<bar>x1\<bar> \<le> 2 ^ 31" unfolding x1_def using b2 by simp
  have x2: "\<bar>x2\<bar> \<le> 32768 * 10400" unfolding x2_def by (rule abs_mult_le [OF a(2) b6])
  have q1: "\<bar>x1 div 2 ^ 12\<bar> \<le> 2 ^ 19" by (rule abs_div_le) (use x1 in simp_all)
  have q1': "\<bar>x1 div 2 ^ 12 div 2 ^ 11\<bar> \<le> 256" by (rule abs_div_le) (use q1 in simp_all)
  have q2: "\<bar>x2 div 2 ^ 11\<bar> \<le> 166400" by (rule abs_div_le) (use x2 in simp_all)
  define y where "y = sint (ac1 b) * 4 + (x1 div 2 ^ 12 div 2 ^ 11 + x2 div 2 ^ 11)"
  have y: "\<bar>y\<bar> \<le> 300000" unfolding y_def using a(1) q1' q2 by linarith
  have e1: "signed_drop_bit 12 (b2 b * (of_int b6 * of_int b6)) = of_int (x1 div 2 ^ 12)"
    using shift_exact [of x1 12] b2 by (simp add: x1_def)
  have e1': "signed_drop_bit 11 (of_int (x1 div 2 ^ 12) :: i32) = of_int (x1 div 2 ^ 12 div 2 ^ 11)"
    using q1 by (intro shift_exact) simp
  have e2: "signed_drop_bit 11 (ac2 b * of_int b6) = of_int (x2 div 2 ^ 11)"
    using shift_exact [of x2 11] x2 by (simp add: x2_def)
  have ly: "lsl (of_int y) (oss b) = of_int (y * 2 ^ nat (oss b))"
    using o by (simp add: lsl_def push_bit_eq_mult)
  have p2: "(2::int) ^ nat (oss b) \<le> 2 ^ 3" using o by (intro power_increasing) simp_all
  have "\<bar>y * 2 ^ nat (oss b)\<bar> \<le> 300000 * 8" by (rule abs_mult_le [OF y]) (use p2 in simp)
  then have s: "sint (of_int (y * 2 ^ nat (oss b) + 2) :: i32) = y * 2 ^ nat (oss b) + 2"
    by (intro sint_exact) simp
  have "ac1 b * 4 + (of_int (x1 div 2 ^ 12 div 2 ^ 11) + of_int (x2 div 2 ^ 11)) = of_int y"
    by (simp add: y_def)
  then have "calc_B3 b (of_int b6) = sdiv32 (of_int (y * 2 ^ nat (oss b) + 2)) 4"
    unfolding calc_B3_def Let_def e1 e1' e2 by (simp only: ly of_int_add of_int_numeral)
  moreover have "sint (4 :: i32) = 4" by simp
  ultimately show ?thesis
    unfolding sdiv32_def s B3_code_def x1_def [symmetric] x2_def [symmetric] y_def [symmetric] by (simp only:)
qed

lemma calc_B4_exact:
  assumes c: "coef_ranges b" and b6: "\<bar>b6\<bar> \<le> 10400"
  shows "calc_B4 b (of_int b6) = of_int (B4_spec b b6)" "0 \<le> B4_spec b b6" "B4_spec b b6 < 2 ^ 32"
proof -
  note a = coef_abs [OF c]
  have sq: "\<bar>b6 * b6\<bar> \<le> 10400 * 10400" by (rule abs_mult_le [OF b6 b6])
  define x1 q x2 where "x1 = sint (ac3 b) * b6" and "q = b6 * b6 div 2 ^ 12" and "x2 = sint (b1 b) * q"
  have x1: "\<bar>x1\<bar> \<le> 32768 * 10400" unfolding x1_def by (rule abs_mult_le [OF a(3) b6])
  have q: "\<bar>q\<bar> \<le> 26407" unfolding q_def by (rule abs_div_le) (use sq in simp_all)
  have x2: "\<bar>x2\<bar> \<le> 32768 * 26407" unfolding x2_def by (rule abs_mult_le [OF a(4) q])
  have q1: "\<bar>x1 div 2 ^ 13\<bar> \<le> 41600" by (rule abs_div_le) (use x1 in simp_all)
  have q2: "\<bar>x2 div 2 ^ 16\<bar> \<le> 13204" by (rule abs_div_le) (use x2 in simp_all)
  define z where "z = x1 div 2 ^ 13 + x2 div 2 ^ 16 + 2"
  have z: "\<bar>z\<bar> \<le> 54808" unfolding z_def using q1 q2 by linarith
  have z4: "\<bar>z div 2 ^ 2\<bar> \<le> 13702" by (rule abs_div_le) (use z in simp_all)
  define v where "v = sint (ac4 b) * (z div 2 ^ 2 + 32768)"
  have v: "0 \<le> v" unfolding v_def using a z4 by (intro mult_nonneg_nonneg) linarith+
  have "\<bar>v\<bar> \<le> 65535 * 46470" unfolding v_def by (rule abs_mult_le) (use a z4 in linarith)+
  then have v': "v < 2 ^ 32" by simp
  have e: "signed_drop_bit 13 (ac3 b * of_int b6) = of_int (x1 div 2 ^ 13)"
      "signed_drop_bit 12 (of_int b6 * of_int b6 :: i32) = of_int q"
      "signed_drop_bit 16 (b1 b * of_int q) = of_int (x2 div 2 ^ 16)"
    using shift_exact [of x1 13] x1 shift_exact [of "b6 * b6" 12] sq shift_exact [of x2 16] x2
    by (simp_all add: x1_def q_def x2_def)
  have ez: "signed_drop_bit 2 (of_int (x1 div 2 ^ 13) + of_int (x2 div 2 ^ 16) + 2 :: i32) = of_int (z div 2 ^ 2)"
    using shift_exact [of z 2] z by (simp add: z_def)
  have ev: "ac4 b * (of_int (z div 2 ^ 2) + 32768) = of_int v" by (simp add: v_def)
  have "drop_bit 15 (of_int v :: u32) = of_int (v div 2 ^ 15)"
    using v v' uint_of_int_range [of v] by (simp add: drop_bit_eq_div word_uint_eq_iff uint_div uint_of_int_range)
  then show "calc_B4 b (of_int b6) = of_int (B4_spec b b6)"
    unfolding calc_B4_def Let_def e ez ev
    unfolding B4_spec_def x1_def [symmetric] q_def [symmetric] x2_def [symmetric] z_def [symmetric] v_def [symmetric] .
  show "0 \<le> B4_spec b b6" "B4_spec b b6 < 2 ^ 32"
    unfolding B4_spec_def x1_def [symmetric] q_def [symmetric] x2_def [symmetric] z_def [symmetric] v_def [symmetric]
    using v v' by (simp_all add: pos_imp_zdiv_nonneg_iff div_less_iff_less_mult)
qed


lemma div_word_exact:
  "0 \<le> x \<Longrightarrow> x < 2 ^ 32 \<Longrightarrow> 0 \<le> y \<Longrightarrow> y < 2 ^ 32 \<Longrightarrow> (of_int x :: u32) div of_int y = of_int (x div y)"
proof -
  assume a: "0 \<le> x" "x < 2 ^ 32" "0 \<le> y" "y < 2 ^ 32"
  have "x div y \<le> x" "0 \<le> x div y"
    using a zdiv_mono2 [of x 1 y] by (cases "y = 0"; simp add: pos_imp_zdiv_nonneg_iff)+
  with a show ?thesis by (simp add: word_uint_eq_iff uint_div uint_of_int_range)
qed

lemma calc_p_exact:
  assumes "0 \<le> b7" "b7 < 2 ^ 32" "0 < b4" "b4 < 2 ^ 32"
  shows "calc_p (of_int b7) (of_int b4) = of_int (if b7 < 2 ^ 31 then b7 * 2 div b4 else b7 div b4 * 2)"
proof -
  have lt: "(of_int b7 < (0x80000000 :: u32)) = (b7 < 2 ^ 31)"
    using assms by (simp add: word_less_def uint_of_int_range)
  show ?thesis
  proof (cases "b7 < 2 ^ 31")
    case True
    have "(of_int b7 * 2 :: u32) = of_int (b7 * 2)" by simp
    then show ?thesis
      using True assms lt div_word_exact [of "b7 * 2" b4] by (simp add: calc_p_def)
  next
    case False
    then show ?thesis
      using assms lt div_word_exact [of b7 b4] by (simp add: calc_p_def)
  qed
qed

lemma calc_final_exact:
  assumes "0 \<le> p" "p \<le> 200000"
  shows "calc_final (of_int p) = of_int (final_spec p)" "\<bar>final_spec p\<bar> \<le> 230000"
proof -
  have p: "\<bar>p\<bar> \<le> 200000" using assms by simp
  define q where "q = p div 2 ^ 8"
  have q: "\<bar>q\<bar> \<le> 782" unfolding q_def by (rule abs_div_le) (use p in simp_all)
  have q2: "\<bar>q * q * 3038\<bar> \<le> 782 * 782 * 3038" by (intro abs_mult_le q) simp
  have m: "\<bar>- 7357 * p\<bar> \<le> 7357 * 200000" by (intro abs_mult_le p) simp
  have d1: "\<bar>q * q * 3038 div 2 ^ 16\<bar> \<le> 28349" by (rule abs_div_le) (use q2 in simp_all)
  have d2: "\<bar>(- 7357 * p) div 2 ^ 16\<bar> \<le> 22453" by (rule abs_div_le) (use m in simp_all)
  define z where "z = q * q * 3038 div 2 ^ 16 + (- 7357 * p) div 2 ^ 16 + 3791"
  have z: "\<bar>z\<bar> \<le> 54593" unfolding z_def using d1 d2 by linarith
  have z4: "\<bar>z div 2 ^ 4\<bar> \<le> 3413" by (rule abs_div_le) (use z in simp_all)
  have e: "signed_drop_bit 8 (of_int p :: i32) = of_int q"
      "signed_drop_bit 16 (of_int q * of_int q * 3038 :: i32) = of_int (q * q * 3038 div 2 ^ 16)"
      "signed_drop_bit 16 (- 7357 * of_int p :: i32) = of_int ((- 7357 * p) div 2 ^ 16)"
    using shift_exact [of p 8] p shift_exact [of "q * q * 3038" 16] q2 shift_exact [of "- 7357 * p" 16] m
    by (simp_all add: q_def)
  have "signed_drop_bit 4 (of_int (q * q * 3038 div 2 ^ 16) + of_int ((- 7357 * p) div 2 ^ 16) + 3791 :: i32) = of_int (z div 2 ^ 4)"
    using shift_exact [of z 4] z by (simp add: z_def)
  then show "calc_final (of_int p) = of_int (final_spec p)"
    unfolding calc_final_def Let_def e final_spec_def q_def [symmetric] z_def [symmetric] by (simp only: of_int_add)
  show "\<bar>final_spec p\<bar> \<le> 230000"
    unfolding final_spec_def q_def [symmetric] z_def [symmetric] using z4 p by linarith
qed

lemma calc_pressure_exact:
  fixes b :: bmp180_t and ut up :: int
  defines "b6 \<equiv> B5_spec b ut - 4000"
  defines "b7 \<equiv> (up - B3_code b b6) * (50000 div 2 ^ nat (oss b))"
  assumes c: "coef_ranges b" "sint (ac5 b) \<le> 32768" "\<bar>sint (b2 b) * (b6 * b6)\<bar> < 2 ^ 31" and o: "0 \<le> oss b" "oss b \<le> 3"
    and u: "0 \<le> ut" "ut \<le> 65535" and nz: "(ut - sint (ac6 b)) * sint (ac5 b) div 2 ^ 15 + sint (md b) \<noteq> 0"
    and b6: "\<bar>b6\<bar> \<le> 10400" and b7: "0 \<le> b7" "b7 < 2 ^ 32" and b4: "0 < B4_spec b b6"
    and p: "(if b7 < 2 ^ 31 then b7 * 2 div B4_spec b b6 else b7 div B4_spec b b6 * 2) \<le> 200000"
  shows "calc_pressure b (of_int ut) (of_int up) = Some (of_int (p_code b ut up))" "\<bar>p_code b ut up\<bar> \<le> 230000"
proof -
  define p0 where "p0 = (if b7 < 2 ^ 31 then b7 * 2 div B4_spec b b6 else b7 div B4_spec b b6 * 2)"
  have p0: "0 \<le> p0" "p0 \<le> 200000" using p b7 b4 by (simp_all add: p0_def pos_imp_zdiv_nonneg_iff)
  have ps: "p_code b ut up = final_spec p0"
    by (simp add: p_code_def Let_def p0_def b6_def b7_def)
  have asr: "asr 50000 (oss b) = of_int (50000 div 2 ^ nat (oss b))"
    using o shift_exact [of 50000 "nat (oss b)"] by (simp add: asr_def)
  have B7: "(of_int up - of_int (B3_code b b6)) * asr 50000 (oss b) = (of_int b7 :: u32)"
    unfolding asr b7_def by (simp only: of_int_mult of_int_diff)
  have B6: "of_int (B5_spec b ut) - 4000 = (of_int b6 :: i32)" by (simp add: b6_def)
  note B4 = calc_B4_exact [OF c(1) b6]
  have "(of_int (B4_spec b b6) :: u32) \<noteq> 0"
    using b4 B4 uint_of_int_range [of "B4_spec b b6"] by auto
  moreover have "calc_final (calc_p (of_int b7) (of_int (B4_spec b b6))) = of_int (final_spec p0)"
    using calc_p_exact [OF b7 b4 B4(3)] calc_final_exact(1) [OF p0] by (simp add: p0_def)
  ultimately show "calc_pressure b (of_int ut) (of_int up) = Some (of_int (p_code b ut up))"
    unfolding calc_pressure_def calc_B5_exact [OF c(1,2) u nz] option.case Let_def B6
      calc_B3_exact [OF c(1) o b6 c(3)] B4(1) B7 ps by (simp only: if_False)
  show "\<bar>p_code b ut up\<bar> \<le> 230000" unfolding ps by (rule calc_final_exact(2) [OF p0])
qed


section \<open>Readings of a live sensor\<close>

definition UT_of :: "env \<Rightarrow> i2c_op list \<Rightarrow> i32" where
  "UT_of E l = swap16 (of_int (i2c_word E (I2c_Write 0xF4 0x2E # l) 0xF6) AND 0xFFFF)"

definition UP_of :: "env \<Rightarrow> i2c_op list \<Rightarrow> int \<Rightarrow> i32" where
  "UP_of E l m =
     (let h0 = I2c_Write 0xF4 (pre_cmd (m mod 256)) # l;
          h1 = I2c_Read_Byte 0xF6 # h0;
          h2 = I2c_Read_Byte 0xF7 # h1
      in asr (push_bit 16 (of_int (i2c_byte E h0 0xF6) AND 0xFF) + push_bit 8 (of_int (i2c_byte E h1 0xF7) AND 0xFF) +
              (of_int (i2c_byte E h2 0xF8) AND 0xFF)) (8 - m))"

lemma raw_temperature_live:
  "live s i b \<Longrightarrow> bmp180_read_raw_temperature E (Some i) s =
     Done (UT_of E (i2c_log s)) (s\<lparr>i2c_log := I2c_Read_Word 0xF6 # I2c_Write 0xF4 0x2E # i2c_log s\<rparr>)"
  by (simp add: bmp180_read_raw_temperature_def i2c_write_byte_def i2c_read_word_def BMP180_CTRL_def
      BMP180_TMP_READ_CMD_def BMP180_REG_TMP_def UT_of_def)

lemma raw_pressure_live:
  "live s i b \<Longrightarrow> \<exists>l. bmp180_read_raw_pressure E (Some i) (of_int (oss b)) s = Done (UP_of E (i2c_log s) (oss b)) (s\<lparr>i2c_log := l\<rparr>)"
  by (simp add: bmp180_read_raw_pressure_def i2c_write_byte_def i2c_read_byte_def BMP180_CTRL_def
      BMP180_REG_PRE_def UP_of_def Let_def uint_word_of_int)
    (rule exI, rule refl)

lemma UT_range: "0 \<le> sint (UT_of E l)" "sint (UT_of E l) \<le> 65535"
  using coef_of_range(1,2) [of "i2c_word E (I2c_Write 0xF4 0x2E # l) 0xF6"]
  by (simp_all add: UT_of_def coef_of_def)

text \<open>The operating range of the temperature and the pressure compensation: coefficients that cannot
  overflow the first product, a non-zero divisor, temperatures from -40 to 85 degrees, the product of \<^verbatim>\<open>b2\<close> and the square of \<^verbatim>\<open>B6\<close> within 32 bits, and a raw
  pressure that compensates to at most 2000 hPa.\<close>

definition temp_domain :: "bmp180_t \<Rightarrow> int \<Rightarrow> bool" where
  "temp_domain b ut \<longleftrightarrow> coef_ranges b \<and> sint (ac5 b) \<le> 32768 \<and>
     (ut - sint (ac6 b)) * sint (ac5 b) div 2 ^ 15 + sint (md b) \<noteq> 0"

definition pressure_domain :: "bmp180_t \<Rightarrow> int \<Rightarrow> int \<Rightarrow> bool" where
  "pressure_domain b ut up \<longleftrightarrow> temp_domain b ut \<and> 0 \<le> oss b \<and> oss b \<le> 3 \<and>
     (let b6 = B5_spec b ut - 4000;
          b7 = (up - B3_code b b6) * (50000 div 2 ^ nat (oss b));
          b4 = B4_spec b b6
      in \<bar>b6\<bar> \<le> 10400 \<and> \<bar>sint (b2 b) * (b6 * b6)\<bar> < 2 ^ 31 \<and> 0 \<le> b7 \<and> b7 < 2 ^ 32 \<and> 0 < b4 \<and>
         (if b7 < 2 ^ 31 then b7 * 2 div b4 else b7 div b4 * 2) \<le> 200000)"

lemma abs_sdiv_le: "\<bar>a sdiv b\<bar> \<le> \<bar>a::int\<bar>"
proof -
  have "0 \<le> \<bar>a\<bar> div \<bar>b\<bar>" by (cases "b = 0") (simp_all add: pos_imp_zdiv_nonneg_iff)
  moreover have "\<bar>a\<bar> div \<bar>b\<bar> \<le> \<bar>a\<bar>"
    using zdiv_mono2 [of "\<bar>a\<bar>" 1 "\<bar>b\<bar>"] by (cases "b = 0") simp_all
  moreover have "\<bar>a sdiv b\<bar> = \<bar>sgn a * sgn b\<bar> * \<bar>\<bar>a\<bar> div \<bar>b\<bar>\<bar>"
    by (simp only: signed_divide_int_def abs_mult)
  ultimately show ?thesis by (auto simp: sgn_if)
qed

lemma B5_spec_range:
  assumes "coef_ranges b" "sint (ac5 b) \<le> 32768" "0 \<le> u" "u \<le> 65535"
  shows "\<bar>B5_spec b u\<bar> < 2 ^ 31 - 8"
proof -
  define x where "x = (u - sint (ac6 b)) * sint (ac5 b) div 2 ^ 15"
  have x: "\<bar>x\<bar> \<le> 65535" unfolding x_def using assms by (intro X1_range) (simp_all add: coef_ranges_def)
  have m: "\<bar>sint (mc b) * 2 ^ 11\<bar> \<le> 32768 * 2 ^ 11"
    using assms(1) by (intro abs_mult_le) (simp_all add: coef_ranges_def abs_le_iff)
  have "\<bar>(sint (mc b) * 2 ^ 11) sdiv (x + sint (md b))\<bar> \<le> \<bar>sint (mc b) * 2 ^ 11\<bar>"
    by (rule abs_sdiv_le)
  with m x show ?thesis unfolding B5_spec_def Let_def x_def [symmetric] by simp
qed


lemma temperature_live:
  assumes l: "live s i b" and d: "temp_domain b (sint (UT_of E (i2c_log s)))"
  shows "\<exists>g. bmp180_temperature E (Some i) s =
    Done (calc_T (of_int (B5_spec b (sint (UT_of E (i2c_log s)))))) (s\<lparr>i2c_log := g\<rparr>)"
proof -
  have "calc_B5 b (UT_of E (i2c_log s)) = Some (of_int (B5_spec b (sint (UT_of E (i2c_log s)))))"
    using calc_B5_exact [of b "sint (UT_of E (i2c_log s))"] d UT_range [of E "i2c_log s"]
    by (simp add: temp_domain_def)
  with l show ?thesis
    by (simp add: bmp180_temperature_def raw_temperature_live)
       (rule exI, rule refl)
qed

text \<open>The returned \<^verbatim>\<open>float\<close> is the tenth of a degree, rounded twice.\<close>

lemma calc_T_value:
  assumes "\<bar>k\<bar> < 2 ^ 28" "signed_drop_bit 4 (B5 + 8) = (of_int k :: i32)"
  shows "\<bar>fval (calc_T B5) - real_of_int k / 10\<bar> \<le> \<bar>real_of_int k / 10\<bar> / 2 ^ 23"
proof -
  have k: "sint (of_int k :: i32) = k" using assms(1) by (intro sint_exact) simp
  define x where "x = fdiv double_prec (f_of_int double_prec k) (f_of_int double_prec 10)"
  have e: "fval (f_of_int double_prec k) = real_of_int k" "fval (f_of_int double_prec 10) = 10"
    using assms(1) f_of_int_exact [of k double_prec] f_of_int_exact [of 10 double_prec] by simp_all
  have "0 < num (f_of_int double_prec 10)" by code_simp
  then have w: "fwf x" by (simp add: x_def)
  have x: "\<bar>fval x - real_of_int k / 10\<bar> \<le> \<bar>real_of_int k / 10\<bar> / 2 ^ 53"
    using fdiv_error [of "f_of_int double_prec k" "f_of_int double_prec 10" double_prec] e by (simp add: x_def)
  have t: "calc_T B5 = fconv single_prec x" by (simp add: calc_T_def assms(2) k x_def)
  have "\<bar>fval (fconv single_prec x) - fval x\<bar> \<le> \<bar>fval x\<bar> / 2 ^ 24"
    by (rule fconv_error [OF w])
  with x show ?thesis unfolding t by (simp add: abs_le_iff abs_if split: if_splits)
qed

lemma calc_pressure_domain:
  assumes "pressure_domain b ut up" "0 \<le> ut" "ut \<le> 65535"
  shows "calc_pressure b (of_int ut) (of_int up) = Some (of_int (p_code b ut up))" "\<bar>p_code b ut up\<bar> \<le> 230000"
  using assms unfolding pressure_domain_def temp_domain_def Let_def
  by (intro calc_pressure_exact; blast)+

lemma pressure_live:
  fixes E :: env and s :: "'a bmp_st_scheme" and b :: bmp180_t
  assumes l: "live s i b"
  defines "h \<equiv> I2c_Read_Word 0xF6 # I2c_Write 0xF4 0x2E # i2c_log s"
  defines "ut \<equiv> sint (UT_of E (i2c_log s))" and "up \<equiv> sint (UP_of E h (oss b))"
  assumes d: "pressure_domain b ut up"
  shows "\<exists>g r. bmp180_pressure E (Some i) s = Done r (s\<lparr>i2c_log := g\<rparr>) \<and> fval r = real_of_int (p_code b ut up)"
proof -
  have c: "calc_pressure b (of_int ut) (of_int up) = Some (of_int (p_code b ut up))" "\<bar>p_code b ut up\<bar> \<le> 230000"
    by (rule calc_pressure_domain [OF d]; simp add: ut_def UT_range)+
  have s: "sint (of_int (p_code b ut up) :: i32) = p_code b ut up" using c(2) by (intro sint_exact) simp
  have "fval (f_of_int single_prec (p_code b ut up)) = real_of_int (p_code b ut up)"
    using c(2) by (intro f_of_int_exact) simp
  moreover have "live (s\<lparr>i2c_log := h\<rparr>) i b" using l by simp
  from raw_pressure_live [OF this, of E] obtain g where
    "bmp180_read_raw_pressure E (Some i) (of_int (oss b)) (s\<lparr>i2c_log := h\<rparr>) = Done (UP_of E h (oss b)) (s\<lparr>i2c_log := g\<rparr>)"
    by auto
  ultimately show ?thesis
    using l c(1) s by (intro exI [of _ g] exI [of _ "f_of_int single_prec (p_code b ut up)"])
      (simp add: bmp180_pressure_def raw_temperature_live ut_def up_def h_def)
qed


lemma temperature_tenths:
  assumes "temp_domain b ut" "0 \<le> ut" "ut \<le> 65535"
  defines "k \<equiv> (B5_spec b ut + 8) div 16"
  shows "\<bar>fval (calc_T (of_int (B5_spec b ut))) - real_of_int k / 10\<bar> \<le> \<bar>real_of_int k / 10\<bar> / 2 ^ 23"
proof (rule calc_T_value)
  have r: "\<bar>B5_spec b ut\<bar> < 2 ^ 31 - 8" using assms(1-3) by (intro B5_spec_range) (simp_all add: temp_domain_def)
  then have "\<bar>B5_spec b ut + 8\<bar> \<le> 2 ^ 27 * 16" by simp
  then have "\<bar>k\<bar> \<le> 2 ^ 27" unfolding k_def by (intro abs_div_le) simp_all
  then show "\<bar>k\<bar> < 2 ^ 28" by simp
  show "signed_drop_bit 4 (of_int (B5_spec b ut) + 8) = (of_int k :: i32)"
    using shift_exact [of "B5_spec b ut + 8" 4] r by (simp add: k_def abs_less_iff)
qed

section \<open>Properties\<close>

text \<open>The worked example of the sensor's data sheet.\<close>

definition datasheet_bmp :: bmp180_t where
  "datasheet_bmp =
     \<lparr>bmp_file = 3, address = 0x77, oss = 0, i2c_device = Some ''/dev/i2c-0'', ac1 = 408, ac2 = - 72, ac3 = - 14383,
      ac4 = 32741, ac5 = 32757, ac6 = 23153, b1 = 6190, b2 = 4, mb = - 32768, mc = - 8711, md = 2868\<rparr>"

definition datasheet_env :: env where
  "datasheet_env = bench\<lparr>i2c_word := \<lambda>h r. 0xFA6C,
     i2c_byte := \<lambda>h r. if r = 0xF6 then 0x5D else if r = 0xF7 then 0x23 else 0\<rparr>"

definition bmp_st0 :: bmp_st where
  "bmp_st0 = zynq.extend zynq0 \<lparr>bmps = [Some datasheet_bmp]\<rparr>"

lemma live_datasheet: "live bmp_st0 0 datasheet_bmp"
  by (simp add: live_def bmp_st0_def zynq.extend_def zynq0_def os.extend_def os0_def)

lemma i2c_log_st0: "i2c_log bmp_st0 = []"
  by (simp add: bmp_st0_def zynq.extend_def zynq0_def os.extend_def os0_def)

lemma datasheet_raw: "UT_of datasheet_env h = 27898" "UP_of datasheet_env h 0 = 23843"
  by (simp_all add: UT_of_def UP_of_def datasheet_env_def Let_def swap16_def asr_def)

lemma datasheet_domain: "pressure_domain datasheet_bmp 27898 23843" "temp_domain datasheet_bmp 27898"
  "B5_spec datasheet_bmp 27898 = 2400" "p_code datasheet_bmp 27898 23843 = 69964" "oss datasheet_bmp = 0"
  by code_simp+


text \<open>
  (C33) Calibration round trip: whatever eleven 16-bit words the sensor's PROM keeps (most significant
  byte first), \<^verbatim>\<open>bmp180_read_eprom\<close> leaves in the object exactly their values, signed for the eight
  signed coefficients and unsigned for AC4, AC5 and AC6, within their 16-bit ranges.
\<close>

theorem bmp180_read_eprom_roundtrip:
  assumes "live s i b" "eprom_holds E c"
  shows "\<exists>l b'. bmp180_read_eprom E (Some i) s = Done () (s\<lparr>i2c_log := l, bmps := (bmps s)[i := Some b']\<rparr>) \<and>
     map sint (coefs b') = map2 decode_coef bmp180_register_table c \<and> coef_ranges b'"
  using read_eprom_decodes [OF assms] .

theorem bmp180_read_eprom_roundtrip_witness:
  "\<exists>l b'. bmp180_read_eprom (bench\<lparr>i2c_word := \<lambda>h r. 0x3412\<rparr>) (Some 0) bmp_st0 =
      Done () (bmp_st0\<lparr>i2c_log := l, bmps := (bmps bmp_st0)[0 := Some b']\<rparr>) \<and>
     map sint (coefs b') = map2 decode_coef bmp180_register_table (replicate 11 0x1234) \<and> coef_ranges b'"
  by (rule bmp180_read_eprom_roundtrip [OF live_datasheet])
    (auto simp: eprom_holds_def less_Suc_eq numeral_eq_Suc)

text \<open>
  Life cycle of \<^verbatim>\<open>bmp180_init\<close>: when it returns, either it returns \<^verbatim>\<open>NULL\<close> and every object it
  allocated has been freed, or it returns a pointer to one new object with the requested address and
  path, an open descriptor, oversampling mode 0 and coefficients in their ranges, whatever the bus answered.
\<close>

theorem bmp180_init_no_leak:
  assumes "bmp180_init E a path s = Done r t"
  shows "(r = None \<and> (bmps t = bmps s \<or> bmps t = bmps s @ [None])) \<or>
    (\<exists>b. r = Some (length (bmps s)) \<and> bmps t = bmps s @ [Some b] \<and> coef_ranges b \<and> oss b = 0 \<and>
      address b = a \<and> i2c_device b = Some path \<and> 0 \<le> bmp_file b)"
  using bmp180_init_cases [OF assms] .

theorem bmp180_init_no_leak_witness:
  "\<exists>t. bmp180_init (bench\<lparr>os_open := \<lambda>h p. - 1\<rparr>) 0x77 ''/dev/i2c-0'' bmp_st0 = Done None t \<and>
     (bmps t = bmps bmp_st0 \<or> bmps t = bmps bmp_st0 @ [None])"
proof -
  obtain t where e: "bmp180_init (bench\<lparr>os_open := \<lambda>h p. - 1\<rparr>) 0x77 ''/dev/i2c-0'' bmp_st0 = Done None t"
    by (simp add: bmp180_init_def sys_malloc_def bench_def bmp180_setup_def cleanup_live live_def update_bmp_def deref_def bmp180_init_error_cleanup_def free_bmp_def)
  from bmp180_init_no_leak [OF e] e show ?thesis by auto
qed

text \<open>
  Temperature: for a live sensor inside \<open>temp_domain\<close> the 32-bit computation does not overflow, and
  \<^verbatim>\<open>bmp180_temperature\<close> returns the tenths of a degree of the exact formula \<open>(B5 + 8) div 16\<close>, up to the
  rounding of \<^verbatim>\<open>float\<close>.
\<close>

theorem bmp180_temperature_exact:
  fixes E :: env and s :: "'a bmp_st_scheme" and b :: bmp180_t
  defines "k \<equiv> (B5_spec b (sint (UT_of E (i2c_log s))) + 8) div 16"
  assumes "live s i b" "temp_domain b (sint (UT_of E (i2c_log s)))"
  shows "\<exists>g T. bmp180_temperature E (Some i) s = Done T (s\<lparr>i2c_log := g\<rparr>) \<and>
    \<bar>fval T - real_of_int k / 10\<bar> \<le> \<bar>real_of_int k / 10\<bar> / 2 ^ 23"
  using temperature_live [OF assms(2,3)] temperature_tenths [OF assms(3) UT_range, folded k_def] by blast

theorem bmp180_temperature_exact_witness:
  "\<exists>g T. bmp180_temperature datasheet_env (Some 0) bmp_st0 = Done T (bmp_st0\<lparr>i2c_log := g\<rparr>) \<and>
    \<bar>fval T - 15\<bar> \<le> 15 / 2 ^ 23"
  using bmp180_temperature_exact [OF live_datasheet, of datasheet_env] by (simp add: datasheet_raw datasheet_domain)

text \<open>
  The algorithm of the sensor's data sheet, with the same shifts for the divisions by powers of two.  It differs from the driver's in one
  place: X1 of B3 is \<^verbatim>\<open>(B2 * (B6 * B6 >> 12)) >> 11\<close> there, whereas the driver shifts the whole product, \<^verbatim>\<open>(b2 * (B6 * B6) >> 12) >> 11\<close>.
  The argument \<open>d\<close> is a deviation of X3.
\<close>

definition B3_sheet :: "int \<Rightarrow> bmp180_t \<Rightarrow> int \<Rightarrow> int" where
  "B3_sheet d b b6 =
     ((sint (ac1 b) * 4 + (sint (b2 b) * (b6 * b6 div 2 ^ 12) div 2 ^ 11 + sint (ac2 b) * b6 div 2 ^ 11 + d)) * 2 ^ nat (oss b) + 2) sdiv 4"

definition B7_sheet :: "int \<Rightarrow> bmp180_t \<Rightarrow> int \<Rightarrow> int \<Rightarrow> int" where
  "B7_sheet d b ut up = (up - B3_sheet d b (B5_spec b ut - 4000)) * (50000 div 2 ^ nat (oss b))"

definition p0_sheet :: "int \<Rightarrow> bmp180_t \<Rightarrow> int \<Rightarrow> int \<Rightarrow> int" where
  "p0_sheet d b ut up =
     (let b7 = B7_sheet d b ut up; b4 = B4_spec b (B5_spec b ut - 4000) in if b7 < 2 ^ 31 then b7 * 2 div b4 else b7 div b4 * 2)"

definition p_sheet :: "int \<Rightarrow> bmp180_t \<Rightarrow> int \<Rightarrow> int \<Rightarrow> int" where
  "p_sheet d b ut up = final_spec (p0_sheet d b ut up)"

text \<open>Where the driver's arithmetic fits its 32-bit variables: temperatures from -40 to 85 degrees, at most 2000 hPa, and \<^verbatim>\<open>b2\<close> times the square
  of \<^verbatim>\<open>B6\<close> below \<open>2 ^ 31\<close>.\<close>

definition sheet_domain :: "bmp180_t \<Rightarrow> int \<Rightarrow> int \<Rightarrow> bool" where
  "sheet_domain b ut up \<longleftrightarrow> temp_domain b ut \<and> 0 \<le> oss b \<and> oss b \<le> 3 \<and> \<bar>sint (b2 b)\<bar> \<le> 2048 \<and>
     (let b6 = B5_spec b ut - 4000 in \<bar>b6\<bar> \<le> 10400 \<and> \<bar>sint (b2 b) * (b6 * b6)\<bar> < 2 ^ 31 \<and> 0 < B4_spec b b6) \<and>
     (\<forall>d \<in> {- 1, 0, 1}. 0 \<le> B7_sheet d b ut up \<and> B7_sheet d b ut up < 2 ^ 32 \<and> p0_sheet d b ut up \<le> 200000)"

lemma shift_after_product:
  fixes b x :: int
  assumes "\<bar>b\<bar> \<le> 2048" "0 \<le> x"
  shows "\<exists>d. \<bar>d\<bar> \<le> 1 \<and> b * x div 2 ^ 12 div 2 ^ 11 = b * (x div 2 ^ 12) div 2 ^ 11 + d \<and> ((\<exists>k\<le>11. b = 2 ^ k) \<longrightarrow> d = 0)"
proof -
  define q r where "q = x div 2 ^ 12" and "r = x mod 2 ^ 12"
  define a where "a = b * q div 2 ^ 11"
  define e where "e = b * x div 2 ^ 23"
  have e: "b * x div 2 ^ 12 div 2 ^ 11 = e" unfolding e_def by (simp add: zdiv_zmult2_eq [symmetric])
  have x: "x = 4096 * q + r" "0 \<le> r" "r < 4096" by (simp_all add: q_def r_def)
  have "\<bar>b * r\<bar> \<le> 2048 * 4095" by (rule abs_mult_le) (use assms x in simp_all)
  moreover have "2048 * a \<le> b * q" "b * q < 2048 * a + 2048"
    using div_mult_mod_eq [of "b * q" "2 ^ 11"] pos_mod_bound [of "2 ^ 11" "b * q"] pos_mod_sign [of "2 ^ 11" "b * q"]
    unfolding a_def by simp_all
  moreover have "8388608 * e \<le> b * x" "b * x < 8388608 * e + 8388608"
    using div_mult_mod_eq [of "b * x" "2 ^ 23"] pos_mod_bound [of "2 ^ 23" "b * x"] pos_mod_sign [of "2 ^ 23" "b * x"]
    unfolding e_def by simp_all
  moreover have "b * x = 4096 * (b * q) + b * r" unfolding x(1) by (simp add: algebra_simps)
  ultimately have "\<bar>e - a\<bar> \<le> 1" by linarith
  moreover have "e = a" if k: "k \<le> 11" "b = 2 ^ k" for k
  proof -
    have p: "(2 :: int) ^ 11 = 2 ^ k * 2 ^ (11 - k)" "(2 :: int) ^ 23 = 2 ^ k * (2 ^ 12 * 2 ^ (11 - k))"
      using k(1) by (simp_all only: power_add [symmetric]) simp_all
    have "e = x div (2 ^ 12 * 2 ^ (11 - k))" unfolding e_def k(2) p(2) by simp
    also have "\<dots> = q div 2 ^ (11 - k)" unfolding q_def by (rule zdiv_zmult2_eq) simp
    also have "\<dots> = a" unfolding a_def k(2) p(1) by simp
    finally show ?thesis .
  qed
  ultimately show ?thesis unfolding e q_def [symmetric] a_def [symmetric] by (intro exI [of _ "e - a"]) auto
qed

lemma code_sheet:
  assumes "sheet_domain b ut up"
  shows "\<exists>d. \<bar>d\<bar> \<le> 1 \<and> p_code b ut up = p_sheet d b ut up \<and> pressure_domain b ut up \<and> ((\<exists>k\<le>11. sint (b2 b) = 2 ^ k) \<longrightarrow> d = 0)"
proof -
  let ?b6 = "B5_spec b ut - 4000"
  have "\<bar>sint (b2 b)\<bar> \<le> 2048" "0 \<le> ?b6 * ?b6" using assms by (simp_all add: sheet_domain_def)
  from shift_after_product [OF this] obtain d where d: "\<bar>d\<bar> \<le> 1" "(\<exists>k\<le>11. sint (b2 b) = 2 ^ k) \<longrightarrow> d = 0"
    "sint (b2 b) * (?b6 * ?b6) div 2 ^ 12 div 2 ^ 11 = sint (b2 b) * (?b6 * ?b6 div 2 ^ 12) div 2 ^ 11 + d" by blast
  have e: "B3_code b ?b6 = B3_sheet d b ?b6" unfolding B3_code_def B3_sheet_def d(3) by (simp only: ac_simps)
  have p: "p_code b ut up = p_sheet d b ut up"
    unfolding p_code_def p_sheet_def p0_sheet_def B7_sheet_def Let_def e ..
  have "d \<in> {- 1, 0, 1}" using d(1) by auto
  with assms have "0 \<le> B7_sheet d b ut up \<and> B7_sheet d b ut up < 2 ^ 32 \<and> p0_sheet d b ut up \<le> 200000"
    unfolding sheet_domain_def by blast
  with assms have "pressure_domain b ut up"
    unfolding pressure_domain_def sheet_domain_def p0_sheet_def B7_sheet_def Let_def e by simp
  with d p show ?thesis by blast
qed

lemma datasheet_sheet: "sheet_domain datasheet_bmp 27898 23843"
  by code_simp

text \<open>Outside that domain the driver's product overflows: with \<open>B2 = 60\<close> (the data sheet's example has 4) and \<open>B6 = -6400\<close>, which is -15 degrees, B3 is
  off by 128.\<close>

lemma pressure_product_overflows:
  "calc_B3 (datasheet_bmp\<lparr>b2 := 60\<rparr>) (- 6400) = of_int (B3_sheet 0 (datasheet_bmp\<lparr>b2 := 60\<rparr>) (- 6400)) - 128"
  by code_simp



end
