(* ===== verification/UART_RP.thy ===== *)
theory UART_RP
  imports BMP180
begin

text \<open>
  The serial line of the GPS receiver, \<^verbatim>\<open>uart_rp.c\<close>.  The port is opened without delay, so \<^verbatim>\<open>read\<close> returns
  at once: a byte, or nothing, in which case the program sleeps a second and tries again.  What the
  line will deliver is the list \<open>rx_line\<close>; when it is exhausted the program waits for ever
  (\<open>Blocked\<close>).  \<^verbatim>\<open>rp_UartReadln\<close> does not look at the length of the caller's buffer: a line that does not
  fit is written past its end (\<open>Overrun\<close>).
\<close>

record termios =
  c_iflag :: u32
  c_oflag :: u32
  c_cflag :: u32
  c_lflag :: u32

record uart_st = bmp_st +
  uart_fd :: int
  uart_mode :: "termios option"
  uart_tx :: string

definition PORTNAME :: string where "PORTNAME = ''/dev/ttyPS1''"

definition rp_UartInit :: "env \<Rightarrow> ('a uart_st_scheme, int) io" where
  "rp_UartInit E =
     bnd (sys_open E PORTNAME) (\<lambda>fd.
     thn (modify (\<lambda>s. s\<lparr>uart_fd := fd\<rparr>))
     (if fd = - 1 then thn (puts_err (''Failed to open uart.'' @ nl)) (ret (- 1)) else ret 0))"

text \<open>\<^verbatim>\<open>B9600 | CS8 | CLOCAL | CREAD\<close> and \<^verbatim>\<open>IGNPAR\<close>, with the values of the target's \<^verbatim>\<open>termios.h\<close>.  The flush of
  the input queue drops what arrived before; \<open>rx_line\<close> is what arrives after it.\<close>

definition uart_options :: termios where
  "uart_options = \<lparr>c_iflag = 0x4, c_oflag = 0, c_cflag = 0xD OR 0x30 OR 0x800 OR 0x80, c_lflag = 0\<rparr>"

definition rp_UartConfig :: "('a uart_st_scheme, unit) io" where
  "rp_UartConfig = modify (\<lambda>s. s\<lparr>uart_mode := Some uart_options\<rparr>)"

text \<open>\<^verbatim>\<open>rp_UartPrintln\<close> copies the line into a block of \<open>len + 1\<close> bytes and overwrites the last two with CR LF.\<close>

definition rp_UartPrintln :: "env \<Rightarrow> string \<Rightarrow> nat \<Rightarrow> ('a uart_st_scheme, int) io" where
  "rp_UartPrintln E line len =
     bnd (gets uart_fd) (\<lambda>fd.
     if fd \<noteq> - 1 then
       bnd (sys_malloc E (int len + 1)) (\<lambda>m. case m of
         None \<Rightarrow> halt Fault
       | Some usable \<Rightarrow>
           if usable < int (length line) + 1 \<or> len = 0 then halt Overrun
           else let fill = replicate len (char_of (uint (uninit E)));
                    cpstr = take (len - 1) (line @ NUL # fill) @ cr @ nl
                in thn (modify (\<lambda>s. s\<lparr>uart_tx := uart_tx s @ cpstr\<rparr>))
                   (if uart_write E cpstr < 0
                    then thn (puts_err (''UART TX error.'' @ nl)) (ret (- 1))
                    else ret 0))
     else ret 0)"

text \<open>The loop of \<^verbatim>\<open>rp_UartReadln\<close> on a buffer of \<open>n\<close> bytes: \<open>acc\<close> is what has been stored.  The result is the
  line, without its newline, and the input that is left; a NUL ends the string inside the buffer.\<close>

datatype line = Line string "rx list" | No_Room "rx list" | Starved

fun uart_line :: "nat \<Rightarrow> string \<Rightarrow> rx list \<Rightarrow> line" where
  "uart_line n acc [] = Starved"
| "uart_line n acc (NoData # r) = uart_line n acc r"
| "uart_line n acc (Byte c # r) =
     (if n \<le> length acc then No_Room r
      else if c = CHR 0x0A then Line acc r
      else uart_line n (acc @ [c]) r)"

definition rp_UartReadln :: "nat \<Rightarrow> ('a os_scheme, string) io" where
  "rp_UartReadln n =
     (\<lambda>s. case uart_line n [] (rx_line s) of
        Line l r \<Rightarrow> Done l (s\<lparr>rx_line := r\<rparr>)
      | No_Room r \<Rightarrow> Stopped Overrun (s\<lparr>rx_line := r\<rparr>)
      | Starved \<Rightarrow> Stopped Blocked (s\<lparr>rx_line := []\<rparr>))"

definition rp_UartClose :: "('a uart_st_scheme, unit) io" where
  "rp_UartClose = bnd (gets uart_fd) sys_close"

section \<open>Lines\<close>

text \<open>The bytes that carry data, and a line as the receiver sends it, with pauses anywhere.\<close>

fun data_of :: "rx list \<Rightarrow> string" where
  "data_of [] = []"
| "data_of (NoData # r) = data_of r"
| "data_of (Byte c # r) = c # data_of r"

lemma data_of_append [simp]: "data_of (xs @ ys) = data_of xs @ data_of ys"
  by (induction xs rule: data_of.induct) simp_all

lemma uart_line_full:
  "CHR 0x0A \<notin> set (data_of xs) \<Longrightarrow> length acc + length (data_of xs) < n \<Longrightarrow>
   uart_line n acc (xs @ Byte (CHR 0x0A) # r) = Line (acc @ data_of xs) r"
  by (induction xs arbitrary: acc rule: data_of.induct) auto

lemma uart_line_overrun:
  "CHR 0x0A \<notin> set (data_of xs) \<Longrightarrow> n \<le> length acc + length (data_of xs) \<Longrightarrow>
   \<exists>r'. uart_line n acc (xs @ Byte (CHR 0x0A) # r) = No_Room r'"
  by (induction xs arbitrary: acc rule: data_of.induct) auto

lemma uart_line_room:
  "uart_line n acc xs = Line l r \<Longrightarrow> length l < n \<and> (\<exists>ys. xs = ys @ Byte (CHR 0x0A) # r \<and> l = acc @ data_of ys)"
proof (induction n acc xs arbitrary: l r rule: uart_line.induct)
  case (1 n acc)
  then show ?case by simp
next
  case (2 n acc xs)
  then obtain ys where "length l < n" "xs = ys @ Byte (CHR 0x0A) # r" "l = acc @ data_of ys" by auto
  then show ?case by (intro conjI exI [of _ "NoData # ys"]) simp_all
next
  case (3 n acc c xs)
  show ?case
  proof (cases "c = CHR 0x0A")
    case True
    with 3 show ?thesis by (intro conjI exI [of _ "[]"]) (auto split: if_splits)
  next
    case False
    with 3 obtain ys where "length l < n" "xs = ys @ Byte (CHR 0x0A) # r" "l = acc @ c # data_of ys"
      by (auto split: if_splits)
    then show ?thesis by (intro conjI exI [of _ "Byte c # ys"]) simp_all
  qed
qed

end
