(* ===== verification/NMEA_RP.thy ===== *)
theory NMEA_RP
  imports UART_RP
begin

text \<open>
  The sentences of the GPS receiver, \<^verbatim>\<open>nmea_rp.c\<close>: the checksum test, the classification of a message and
  the two field parsers.  A message is the C string in the caller's buffer, the characters before its terminating NUL
  (the caller passes \<open>cstr\<close> of the buffer), so it contains no NUL itself.  The code steps over
  commas with \<^verbatim>\<open>strchr(...) + 1\<close> and never tests for \<^verbatim>\<open>NULL\<close>: a missing comma or asterisk makes it read
  through an invalid pointer, which is the value \<open>Inl Fault\<close>; a message whose only asterisk is its first
  character makes the checksum loop run off the end of the buffer (\<open>Inl Overrun\<close>).
\<close>

section \<open>Data\<close>

definition NMEA_GPRMC :: u8 where "NMEA_GPRMC = 1"
definition NMEA_GPGGA :: u8 where "NMEA_GPGGA = 2"
definition NMEA_UNKNOWN :: u8 where "NMEA_UNKNOWN = 0"
definition NMEA_EMPTY :: u8 where "NMEA_EMPTY = 0"
definition NMEA_COMPLETED :: u8 where "NMEA_COMPLETED = 3"
definition NMEA_CHECKSUM_ERR :: u8 where "NMEA_CHECKSUM_ERR = 0x80"

record gpgga_t =
  gga_times :: flt
  gga_latitude :: flt
  gga_lat :: char
  gga_longitude :: flt
  gga_lon :: char
  gga_quality :: u8
  gga_satellites :: u8
  gga_altitude :: flt

record gprmc_t =
  rmc_times :: flt
  rmc_latitude :: flt
  rmc_lat :: char
  rmc_longitude :: flt
  rmc_lon :: char
  rmc_speed :: flt
  rmc_course :: flt
  rmc_date :: flt

section \<open>Checksum\<close>

abbreviation chr8 :: "char \<Rightarrow> u8" where
  "chr8 c \<equiv> of_int (code c)"

text \<open>\<^verbatim>\<open>while ((p = *message++) != '*') sum ^= p;\<close>: \<open>None\<close> when the string ends first.\<close>

fun xor_until_star :: "u8 \<Rightarrow> string \<Rightarrow> u8 option" where
  "xor_until_star chk [] = None"
| "xor_until_star chk (p # message) =
     (if p = CHR ''*'' then Some chk else xor_until_star (chk XOR chr8 p) message)"

definition rp_NmeaValidChecksum :: "string \<Rightarrow> stop + u8" where
  "rp_NmeaValidChecksum message =
     (case strchr message (CHR ''*'') of
        None \<Rightarrow> Inl Fault
      | Some t \<Rightarrow>
          let checksum = (of_int (strtol 16 (tl t)) :: u8)
          in case xor_until_star 0 (tl message) of
               None \<Rightarrow> Inl Overrun
             | Some chk \<Rightarrow> Inr (if chk \<noteq> checksum then NMEA_CHECKSUM_ERR else NMEA_EMPTY))"

section \<open>Fields\<close>

text \<open>\<^verbatim>\<open>ptr = strchr(ptr, ',') + 1\<close>; the next use of the pointer faults when there is no comma.\<close>

definition next_field :: "string \<Rightarrow> stop + string" where
  "next_field ptr = (case strchr ptr (CHR '','') of None \<Rightarrow> Inl Fault | Some t \<Rightarrow> Inr (tl t))"

definition andThen :: "stop + 'a \<Rightarrow> ('a \<Rightarrow> stop + 'b) \<Rightarrow> stop + 'b" where
  "andThen m f = (case m of Inl e \<Rightarrow> Inl e | Inr x \<Rightarrow> f x)"

text \<open>The switch on \<^verbatim>\<open>ptr[0]\<close>: one of the two letters, NUL for an empty field, otherwise unchanged.\<close>

definition hemisphere :: "char \<Rightarrow> char \<Rightarrow> string \<Rightarrow> char \<Rightarrow> char" where
  "hemisphere a b ptr old =
     (case ptr of [] \<Rightarrow> old
      | c # _ \<Rightarrow> if c = a then a else if c = b then b else if c = CHR '','' then NUL else old)"

definition rp_NmeaParseGpgga :: "string \<Rightarrow> gpgga_t \<Rightarrow> stop + gpgga_t" where
  "rp_NmeaParseGpgga nmea loc0 =
     andThen (next_field nmea) (\<lambda>p1. let loc1 = loc0\<lparr>gga_times := atof p1\<rparr> in
     andThen (next_field p1) (\<lambda>p2. let loc2 = loc1\<lparr>gga_latitude := atof p2\<rparr> in
     andThen (next_field p2) (\<lambda>p3. let loc3 = loc2\<lparr>gga_lat := hemisphere (CHR ''N'') (CHR ''S'') p3 (gga_lat loc2)\<rparr> in
     andThen (next_field p3) (\<lambda>p4. let loc4 = loc3\<lparr>gga_longitude := atof p4\<rparr> in
     andThen (next_field p4) (\<lambda>p5. let loc5 = loc4\<lparr>gga_lon := hemisphere (CHR ''W'') (CHR ''E'') p5 (gga_lon loc4)\<rparr> in
     andThen (next_field p5) (\<lambda>p6. let loc6 = loc5\<lparr>gga_quality := of_int (atoi p6)\<rparr> in
     andThen (next_field p6) (\<lambda>p7. let loc7 = loc6\<lparr>gga_satellites := of_int (atoi p7)\<rparr> in
     andThen (next_field p7) (\<lambda>p8.
     andThen (next_field p8) (\<lambda>p9. Inr (loc7\<lparr>gga_altitude := atof p9\<rparr>))))))))))"

definition rp_NmeaParseGprmc :: "string \<Rightarrow> gprmc_t \<Rightarrow> stop + gprmc_t" where
  "rp_NmeaParseGprmc nmea loc0 =
     andThen (next_field nmea) (\<lambda>p1. let loc1 = loc0\<lparr>rmc_times := atof p1\<rparr> in
     andThen (next_field p1) (\<lambda>p2.
     andThen (next_field p2) (\<lambda>p3. let loc3 = loc1\<lparr>rmc_latitude := atof p3\<rparr> in
     andThen (next_field p3) (\<lambda>p4. let loc4 = loc3\<lparr>rmc_lat := hemisphere (CHR ''N'') (CHR ''S'') p4 (rmc_lat loc3)\<rparr> in
     andThen (next_field p4) (\<lambda>p5. let loc5 = loc4\<lparr>rmc_longitude := atof p5\<rparr> in
     andThen (next_field p5) (\<lambda>p6. let loc6 = loc5\<lparr>rmc_lon := hemisphere (CHR ''W'') (CHR ''E'') p6 (rmc_lon loc5)\<rparr> in
     andThen (next_field p6) (\<lambda>p7. let loc7 = loc6\<lparr>rmc_speed := atof p7\<rparr> in
     andThen (next_field p7) (\<lambda>p8. let loc8 = loc7\<lparr>rmc_course := atof p8\<rparr> in
     andThen (next_field p8) (\<lambda>p9. Inr (loc8\<lparr>rmc_date := atof p9\<rparr>))))))))))"

definition rp_NmeaGetMessageType :: "string \<Rightarrow> stop + u8" where
  "rp_NmeaGetMessageType message =
     andThen (rp_NmeaValidChecksum message) (\<lambda>checksum.
       if checksum \<noteq> NMEA_EMPTY then Inr checksum
       else if strstr message ''$GPGGA'' \<noteq> None then Inr NMEA_GPGGA
       else if strstr message ''$GPRMC'' \<noteq> None then Inr NMEA_GPRMC
       else Inr NMEA_UNKNOWN)"

section \<open>The checksum\<close>

definition nmea_xor :: "string \<Rightarrow> u8" where
  "nmea_xor body = foldl (XOR) 0 (map chr8 body)"

lemma xor_until_star_body:
  "CHR ''*'' \<notin> set body \<Longrightarrow> xor_until_star a (body @ CHR ''*'' # r) = Some (foldl (XOR) a (map chr8 body))"
  by (induction body arbitrary: a) auto

lemma nmea_xor_append: "nmea_xor (xs @ ys) = nmea_xor xs XOR nmea_xor ys"
  by (simp add: nmea_xor_def foldl_xor_append del: foldl_append)

lemma uint_chr8: "uint (chr8 c) = code c"
  by (simp add: uint_word_of_int)

lemma chr8_inj: "chr8 c = chr8 d \<longleftrightarrow> c = d"
  by (metis of_char_eq_iff uint_chr8)

lemma xor_cancel_left: "a XOR b = a XOR c \<Longrightarrow> b = (c :: u8)"
proof -
  assume "a XOR b = a XOR c"
  then have "a XOR (a XOR b) = a XOR (a XOR c)" by (rule arg_cong)
  then show ?thesis by (simp flip: xor.assoc)
qed

lemma nmea_xor_Cons: "nmea_xor (e # ys) = nmea_xor ys XOR chr8 e"
  using nmea_xor_append [of "[e]" ys] by (simp add: nmea_xor_def xor.commute)

lemma nmea_xor_change:
  assumes "c \<noteq> d"
  shows "nmea_xor (xs @ c # ys) \<noteq> nmea_xor (xs @ d # ys)"
proof
  assume "nmea_xor (xs @ c # ys) = nmea_xor (xs @ d # ys)"
  then have "nmea_xor xs XOR (nmea_xor ys XOR chr8 c) = nmea_xor xs XOR (nmea_xor ys XOR chr8 d)"
    by (simp only: nmea_xor_append nmea_xor_Cons)
  from xor_cancel_left [OF xor_cancel_left [OF this]] assms show False by (simp only: chr8_inj)
qed

lemma valid_checksum_iff:
  assumes "CHR ''*'' \<notin> set (c # body)"
  shows "rp_NmeaValidChecksum (c # body @ CHR ''*'' # t) =
     Inr (if nmea_xor body = of_int (strtol 16 t) then NMEA_EMPTY else NMEA_CHECKSUM_ERR)"
proof -
  have "strchr ((c # body) @ CHR ''*'' # t) (CHR ''*'') = Some (CHR ''*'' # t)"
    using assms by (rule strchr_append)
  with assms show ?thesis
    by (simp add: rp_NmeaValidChecksum_def xor_until_star_body nmea_xor_def)
qed

section \<open>Framing\<close>

lemma is_digit_not_x: "is_digit 16 c \<Longrightarrow> c \<noteq> CHR ''x'' \<and> c \<noteq> CHR ''X''"
  by (auto simp: is_digit_def digit_val_def)

lemma fmt_0x_digits: "\<forall>c \<in> set (fmt_0x 2 (uint (w :: u8))). is_digit 16 c"
  using hex.to_base_digits [of "uint w"] by (auto simp: fmt_0x_def fmt_x_def pad_def is_digit_def digit_val_def)

lemma strtol_hex2:
  fixes w :: u8
  assumes "rest = [] \<or> \<not> is_digit 16 (hd rest)" "rest = [] \<or> hd rest \<noteq> CHR ''x'' \<and> hd rest \<noteq> CHR ''X''"
  shows "strtol 16 (fmt_0x 2 (uint w) @ rest) = uint w"
proof -
  let ?t = "fmt_0x 2 (uint w)"
  have d: "\<forall>c \<in> set ?t. is_digit 16 c" by (rule fmt_0x_digits)
  have h: "horner 16 ?t = uint w"
    by (simp add: fmt_0x_def fmt_x_def pad_def horner_pad_zero hex.horner_to_base)
  have n: "?t \<noteq> []" by (simp add: fmt_0x_def fmt_x_def pad_def hex.to_base_ne)
  then obtain c u where t: "?t = c # u" by (cases ?t) auto
  have "skip_sign (dropWhile isspace (?t @ rest)) = (False, ?t @ rest)"
    using d t isspace_not_digit [of 16 c] skip_sign_digit [of 16 c] by simp
  moreover have "skip_0x 16 (?t @ rest) = ?t @ rest"
    using d t assms(2) is_digit_not_x by (cases u; cases rest) (auto simp: skip_0x_def split: list.splits)
  moreover have "takeWhile (is_digit 16) (?t @ rest) = ?t"
    using d assms(1) by (cases rest) (auto simp: takeWhile_append2 takeWhile_tail)
  ultimately have "strto_parts 16 (?t @ rest) = (False, uint w)"
    by (simp add: strto_parts_def h)
  moreover have "uint w < 256" using uint_bounded [of w] by simp
  moreover have "- 2147483648 \<le> uint w" by (rule order_trans [OF _ uint_ge_0]) simp
  ultimately show ?thesis by (simp add: strtol_def max_def)
qed

text \<open>A sentence as the receiver sends it.\<close>

definition nmea_frame :: "string \<Rightarrow> string" where
  "nmea_frame body = ''$'' @ body @ ''*'' @ fmt_0x 2 (uint (nmea_xor body)) @ cr"

lemma frame_valid:
  assumes "CHR ''*'' \<notin> set body"
  shows "rp_NmeaValidChecksum (nmea_frame body) = Inr NMEA_EMPTY"
proof -
  have "strtol 16 (fmt_0x 2 (uint (nmea_xor body)) @ cr) = uint (nmea_xor body)"
    by (rule strtol_hex2) (simp_all add: is_digit_def digit_val_def)
  then show ?thesis
    using assms valid_checksum_iff [of "CHR ''$''" body] by (simp add: nmea_frame_def)
qed

text \<open>A frame with any first character and any two-digit checksum.\<close>

lemma frame_judged:
  assumes "CHR ''*'' \<notin> set (c # body)"
  shows "rp_NmeaValidChecksum (c # body @ ''*'' @ fmt_0x 2 (uint (k :: u8)) @ cr) =
    Inr (if nmea_xor body = k then NMEA_EMPTY else NMEA_CHECKSUM_ERR)"
proof -
  have "strtol 16 (fmt_0x 2 (uint k) @ cr) = uint k"
    by (rule strtol_hex2) (simp_all add: is_digit_def digit_val_def)
  then show ?thesis using valid_checksum_iff [OF assms] by simp
qed

section \<open>Fields\<close>

abbreviation comma :: char where "comma \<equiv> CHR '',''"

lemma next_field_step [simp]: "comma \<notin> set f \<Longrightarrow> next_field (f @ comma # r) = Inr r"
  by (simp add: next_field_def)

fun commas :: "string list \<Rightarrow> string" where
  "commas [] = []"
| "commas [f] = f"
| "commas (f # fs) = f @ comma # commas fs"

definition n_commas :: "string \<Rightarrow> nat" where
  "n_commas s = length (filter (\<lambda>c. c = comma) s)"

lemma next_field_n:
  "n_commas s = 0 \<and> next_field s = Inl Fault \<or> (\<exists>r. next_field s = Inr r \<and> n_commas s = Suc (n_commas r))"
proof (cases "comma \<in> set s")
  case True
  then obtain u v where s: "s = u @ comma # v" "comma \<notin> set u" by (meson split_list_first)
  have "filter (\<lambda>c. c = comma) u = []" using s(2) by (induction u) auto
  with s show ?thesis by (simp add: n_commas_def)
next
  case False
  then have "filter (\<lambda>c. c = comma) s = []" by (induction s) auto
  with False show ?thesis by (simp add: n_commas_def next_field_def strchr_None)
qed

lemma andThen_simps [simp]: "andThen (Inl e) f = Inl e" "andThen (Inr x) f = f x"
  by (simp_all add: andThen_def)

lemma field_chain:
  "(\<And>r. n_commas r = n_commas s - 1 \<Longrightarrow> next_field s = Inr r \<Longrightarrow> (f r = Inl Fault \<longleftrightarrow> n_commas r < k)) \<Longrightarrow>
   andThen (next_field s) f = Inl Fault \<longleftrightarrow> n_commas s < Suc k"
  using next_field_n [of s] by auto

lemma nine: "(9::nat) = Suc (Suc (Suc (Suc (Suc (Suc (Suc (Suc (Suc 0))))))))"
  by simp

lemma gpgga_fault: "rp_NmeaParseGpgga nmea loc = Inl Fault \<longleftrightarrow> n_commas nmea < 9"
  unfolding rp_NmeaParseGpgga_def Let_def nine by (rule field_chain)+ simp

lemma gprmc_fault: "rp_NmeaParseGprmc nmea loc = Inl Fault \<longleftrightarrow> n_commas nmea < 9"
  unfolding rp_NmeaParseGprmc_def Let_def nine by (rule field_chain)+ simp

lemma comma_class [simp]: "\<not> isspace comma" "\<not> is_digit 10 comma"
  by (simp_all add: isspace_def is_digit_def digit_val_def)

lemma blanks_comma: "dropWhile isspace (f @ comma # r) = dropWhile isspace f @ comma # r"
  by (induction f) simp_all

lemma digits_comma: "takeWhile (is_digit 10) (f @ comma # r) = takeWhile (is_digit 10) f"
  by (induction f) simp_all

lemma sign_comma: "skip_sign (f @ comma # r) = (fst (skip_sign f), snd (skip_sign f) @ comma # r)"
  by (cases f) (simp_all add: skip_sign_def)

lemma rest_comma: "dropWhile (is_digit 10) (f @ comma # r) = dropWhile (is_digit 10) f @ comma # r"
  by (induction f) simp_all

lemma atoi_comma: "atoi (f @ comma # r) = atoi f"
  by (simp add: atoi_def strtol_def strto_parts_def blanks_comma sign_comma digits_comma split_beta)

lemma exponent_comma: "atof_exponent (u @ comma # r) = atof_exponent u"
  by (cases u) (simp_all add: atof_exponent_def sign_comma digits_comma split_beta)

lemma frac_comma:
  "frac_digits (u @ comma # r) = frac_digits u" "atof_exponent (after_frac (u @ comma # r)) = atof_exponent (after_frac u)"
proof -
  show "frac_digits (u @ comma # r) = frac_digits u"
    by (cases u) (simp_all add: frac_digits_def digits_comma)
  show "atof_exponent (after_frac (u @ comma # r)) = atof_exponent (after_frac u)"
    using exponent_comma [of u r] exponent_comma [of "[]" r]
    by (cases u) (simp_all add: after_frac_def rest_comma exponent_comma)
qed

lemma atof_comma: "atof (f @ comma # r) = atof f"
  by (simp only: atof_def blanks_comma sign_comma digits_comma rest_comma frac_comma split_beta Let_def fst_conv snd_conv)

text \<open>The parsers on a sentence given by its fields.\<close>

lemma hemisphere_comma:
  "hemisphere a b (f @ comma # r) old = (case f of [] \<Rightarrow> (if comma = a then a else if comma = b then b else NUL)
     | c # _ \<Rightarrow> if c = a then a else if c = b then b else if c = comma then NUL else old)"
  by (cases f) (simp_all add: hemisphere_def)

lemma gpgga_fields:
  assumes "\<forall>f \<in> set [f0, f1, f2, f3, f4, f5, f6, f7, f8]. comma \<notin> set f"
  shows "rp_NmeaParseGpgga (commas [f0, f1, f2, f3, f4, f5, f6, f7, f8, f9]) loc =
    Inr \<lparr>gga_times = atof f1, gga_latitude = atof f2, gga_lat = hemisphere (CHR ''N'') (CHR ''S'') (f3 @ '','') (gga_lat loc),
         gga_longitude = atof f4, gga_lon = hemisphere (CHR ''W'') (CHR ''E'') (f5 @ '','') (gga_lon loc),
         gga_quality = of_int (atoi f6), gga_satellites = of_int (atoi f7), gga_altitude = atof f9\<rparr>"
  using assms by (simp add: rp_NmeaParseGpgga_def Let_def atof_comma atoi_comma hemisphere_comma)

lemma gprmc_fields:
  assumes "\<forall>f \<in> set [f0, f1, f2, f3, f4, f5, f6, f7, f8]. comma \<notin> set f"
  shows "rp_NmeaParseGprmc (commas [f0, f1, f2, f3, f4, f5, f6, f7, f8, f9]) loc =
    Inr \<lparr>rmc_times = atof f1, rmc_latitude = atof f3, rmc_lat = hemisphere (CHR ''N'') (CHR ''S'') (f4 @ '','') (rmc_lat loc),
         rmc_longitude = atof f5, rmc_lon = hemisphere (CHR ''W'') (CHR ''E'') (f6 @ '','') (rmc_lon loc),
         rmc_speed = atof f7, rmc_course = atof f8, rmc_date = atof f9\<rparr>"
  using assms by (simp add: rp_NmeaParseGprmc_def Let_def atof_comma hemisphere_comma)


section \<open>Properties\<close>

text \<open>
  (C11) What the checksum detects: a sentence framed with the checksum of its body is accepted, whatever its first character is (the test
  skips it); with any one character of the body replaced by another, but for an asterisk or a NUL, it is rejected, and with any
  other two-digit checksum it is rejected.
\<close>

theorem nmea_checksum_detects:
  assumes "body = xs @ c # ys" "CHR ''*'' \<notin> set body" "NUL \<notin> set body" "d \<noteq> c" "d \<noteq> CHR ''*''" "d \<noteq> NUL"
    and "first \<noteq> CHR ''*''" "first \<noteq> NUL" "k \<noteq> nmea_xor body"
  shows "rp_NmeaValidChecksum (nmea_frame body) = Inr NMEA_EMPTY \<and>
    rp_NmeaValidChecksum (first # tl (nmea_frame body)) = Inr NMEA_EMPTY \<and>
    rp_NmeaValidChecksum (''$'' @ (xs @ d # ys) @ ''*'' @ fmt_0x 2 (uint (nmea_xor body)) @ cr) = Inr NMEA_CHECKSUM_ERR \<and>
    rp_NmeaValidChecksum (''$'' @ body @ ''*'' @ fmt_0x 2 (uint k) @ cr) = Inr NMEA_CHECKSUM_ERR"
proof -
  have "rp_NmeaValidChecksum (''$'' @ (xs @ d # ys) @ ''*'' @ fmt_0x 2 (uint (nmea_xor body)) @ cr) = Inr NMEA_CHECKSUM_ERR"
    using frame_judged [of "CHR ''$''" "xs @ d # ys" "nmea_xor body"] assms nmea_xor_change [OF assms(4), of xs ys] by simp
  then show ?thesis
    using frame_valid [OF assms(2)] frame_judged [of first body "nmea_xor body"] frame_judged [of "CHR ''$''" body k] assms(2,7,9)
    by (simp add: nmea_frame_def)
qed

theorem nmea_checksum_detects_witness:
  "rp_NmeaValidChecksum (nmea_frame ''GPRMC,12,A'') = Inr NMEA_EMPTY \<and>
    rp_NmeaValidChecksum (CHR ''!'' # tl (nmea_frame ''GPRMC,12,A'')) = Inr NMEA_EMPTY \<and>
    rp_NmeaValidChecksum (''$'' @ (''GPRMC,1'' @ CHR ''7'' # '',A'') @ ''*'' @ fmt_0x 2 (uint (nmea_xor ''GPRMC,12,A'')) @ cr) =
      Inr NMEA_CHECKSUM_ERR \<and>
    rp_NmeaValidChecksum (''$'' @ ''GPRMC,12,A'' @ ''*'' @ fmt_0x 2 (uint (0 :: u8)) @ cr) = Inr NMEA_CHECKSUM_ERR"
proof -
  have "nmea_xor ''GPRMC,12,A'' \<noteq> 0" by code_simp
  then show ?thesis
    by (intro nmea_checksum_detects [where c = "CHR ''2''"]) simp_all
qed

text \<open>
  Classification: a correctly framed sentence is reported as GGA or RMC exactly by its header, and any other
  correctly framed sentence without those headers as unknown; none of them faults.
\<close>

theorem nmea_classification:
  assumes "CHR ''*'' \<notin> set body"
  shows "rp_NmeaGetMessageType (nmea_frame (''GPGGA'' @ body)) = Inr NMEA_GPGGA \<and>
    (strstr (nmea_frame (''GPRMC'' @ body)) ''$GPGGA'' = None \<longrightarrow>
      rp_NmeaGetMessageType (nmea_frame (''GPRMC'' @ body)) = Inr NMEA_GPRMC) \<and>
    (strstr (nmea_frame body) ''$GPGGA'' = None \<and> strstr (nmea_frame body) ''$GPRMC'' = None \<longrightarrow>
      rp_NmeaGetMessageType (nmea_frame body) = Inr NMEA_UNKNOWN)"
proof -
  have h: "strstr (nmea_frame (g @ body)) (CHR ''$'' # g) \<noteq> None" for g
    by (simp add: nmea_frame_def)
  show ?thesis
    using frame_valid [of "''GPGGA'' @ body"] frame_valid [of "''GPRMC'' @ body"] frame_valid [OF assms]
      h [of "''GPGGA''"] h [of "''GPRMC''"] assms
    by (simp add: rp_NmeaGetMessageType_def)
qed

theorem nmea_classification_witness:
  "rp_NmeaGetMessageType (nmea_frame (''GPGGA'' @ '',123519'')) = Inr NMEA_GPGGA \<and>
   rp_NmeaGetMessageType (nmea_frame (''GPRMC'' @ '',123519'')) = Inr NMEA_GPRMC"
proof -
  have "strstr (nmea_frame (''GPRMC'' @ '',123519'')) ''$GPGGA'' = None" by code_simp
  with nmea_classification [of "'',123519''"] show ?thesis by simp
qed

text \<open>
  The GGA parser takes each value from its own field: on a sentence with fields \<open>f0\<close> to \<open>f9\<close> it stores the
  numbers of fields 1, 2, 4, 6, 7 and 9 and the hemisphere letters of fields 3 and 5.
\<close>

theorem rp_NmeaParseGpgga_fields:
  assumes "\<forall>f \<in> set [f0, f1, f2, f3, f4, f5, f6, f7, f8]. comma \<notin> set f"
  shows "rp_NmeaParseGpgga (commas [f0, f1, f2, f3, f4, f5, f6, f7, f8, f9]) loc =
    Inr \<lparr>gga_times = atof f1, gga_latitude = atof f2, gga_lat = hemisphere (CHR ''N'') (CHR ''S'') (f3 @ '','') (gga_lat loc),
         gga_longitude = atof f4, gga_lon = hemisphere (CHR ''W'') (CHR ''E'') (f5 @ '','') (gga_lon loc),
         gga_quality = of_int (atoi f6), gga_satellites = of_int (atoi f7), gga_altitude = atof f9\<rparr>"
  using gpgga_fields [OF assms] .

theorem rp_NmeaParseGpgga_fields_witness:
  "gga_lat (projr (rp_NmeaParseGpgga
      (commas [''$GPGGA'', ''123519'', ''4807.038'', ''N'', ''01131.000'', ''E'', ''1'', ''08'', ''0.9'', ''545.4,M''])
      \<lparr>gga_times = Fl False 0 0, gga_latitude = Fl False 0 0, gga_lat = NUL, gga_longitude = Fl False 0 0, gga_lon = NUL,
       gga_quality = 0, gga_satellites = 0, gga_altitude = Fl False 0 0\<rparr>)) = CHR ''N''"
  by (subst rp_NmeaParseGpgga_fields) (simp_all add: hemisphere_def)

text \<open>
  The GGA parser reads through an invalid pointer exactly on messages with fewer than nine commas; on every
  other message it returns.
\<close>

theorem rp_NmeaParseGpgga_fault_iff:
  "rp_NmeaParseGpgga nmea loc = Inl Fault \<longleftrightarrow> n_commas nmea < 9"
  by (rule gpgga_fault)

end
