(* ===== verification/GPS_RP.thy ===== *)
theory GPS_RP
  imports NMEA_RP
begin

text \<open>
  The position of the station, \<^verbatim>\<open>gps_rp.c\<close>: conversion of the receiver's \<open>ddmm.mmmm\<close> notation to decimal
  degrees in \<^verbatim>\<open>double\<close>, and the loop that collects one GGA and one RMC sentence.
\<close>

record loc_t =
  loc_times :: flt
  date :: flt
  latitude :: flt
  longitude :: flt
  speed :: flt
  altitude :: flt
  course :: flt
  satellites :: flt

abbreviation dbl :: "int \<Rightarrow> flt" where
  "dbl i \<equiv> f_of_int double_prec i"

definition gps_deg_dec :: "flt \<Rightarrow> flt" where
  "gps_deg_dec deg_point =
     (let ddeg = f_modf_int deg_point;
          sec = fmul double_prec (f_modf_frac deg_point) (dbl 60);
          deg = f_to_i32 (fdiv double_prec ddeg (dbl 100));
          minutes = f_to_i32 (fsub double_prec deg_point (dbl (deg * 100)));
          absdlat = f_round (fmul double_prec (dbl deg) (dbl 1000000));
          absmlat = f_round (fmul double_prec (dbl minutes) (dbl 1000000));
          absslat = f_round (fmul double_prec sec (dbl 1000000))
      in fdiv double_prec
           (f_round (fadd double_prec (fadd double_prec absdlat (fdiv double_prec absmlat (dbl 60)))
                                      (fdiv double_prec absslat (dbl 3600))))
           (dbl 1000000))"

definition gps_convert_deg_to_dec :: "flt \<Rightarrow> char \<Rightarrow> flt \<Rightarrow> char \<Rightarrow> flt \<times> flt" where
  "gps_convert_deg_to_dec lat0 ns lon0 we =
     (let lat = (if ns = CHR ''N'' then lat0 else fmul double_prec (dbl (- 1)) lat0);
          lon = (if we = CHR ''E'' then lon0 else fmul double_prec (dbl (- 1)) lon0)
      in (gps_deg_dec lat, gps_deg_dec lon))"

definition gps_init :: "env \<Rightarrow> ('a uart_st_scheme, unit) io" where
  "gps_init E = thn (rp_UartInit E) rp_UartConfig"

definition gps_off :: "('a uart_st_scheme, unit) io" where
  "gps_off = rp_UartClose"

text \<open>The locals \<^verbatim>\<open>gpgga\<close> and \<^verbatim>\<open>gprmc\<close> are not initialised.\<close>

definition blank_gga :: "env \<Rightarrow> gpgga_t" where
  "blank_gga E =
     (let u = dbl (uint (uninit E)); c = char_of (uint (uninit E) mod 256); w = ucast (uninit E)
      in \<lparr>gga_times = u, gga_latitude = u, gga_lat = c, gga_longitude = u, gga_lon = c, gga_quality = w,
          gga_satellites = w, gga_altitude = u\<rparr>)"

definition blank_rmc :: "env \<Rightarrow> gprmc_t" where
  "blank_rmc E =
     (let u = dbl (uint (uninit E)); c = char_of (uint (uninit E) mod 256)
      in \<lparr>rmc_times = u, rmc_latitude = u, rmc_lat = c, rmc_longitude = u, rmc_lon = c, rmc_speed = u,
          rmc_course = u, rmc_date = u\<rparr>)"

text \<open>The two branches of the switch in \<^verbatim>\<open>gps_location\<close>.\<close>

definition take_gga :: "gpgga_t \<Rightarrow> loc_t \<Rightarrow> loc_t" where
  "take_gga g coord =
     (let (la, lo) = gps_convert_deg_to_dec (gga_latitude g) (gga_lat g) (gga_longitude g) (gga_lon g)
      in coord\<lparr>loc_times := gga_times g, latitude := la, longitude := lo, altitude := gga_altitude g,
               satellites := dbl (uint (gga_satellites g))\<rparr>)"

definition take_rmc :: "gprmc_t \<Rightarrow> loc_t \<Rightarrow> loc_t" where
  "take_rmc g coord = coord\<lparr>speed := rmc_speed g, course := rmc_course g, date := rmc_date g\<rparr>"

text \<open>One turn of the loop on a line: the new status and coordinates.\<close>

definition gps_line :: "env \<Rightarrow> string \<Rightarrow> u8 \<times> loc_t \<Rightarrow> stop + u8 \<times> loc_t" where
  "gps_line E buffer st =
     andThen (rp_NmeaGetMessageType buffer) (\<lambda>ty.
       if ty = NMEA_GPGGA then
         andThen (rp_NmeaParseGpgga buffer (blank_gga E)) (\<lambda>g. Inr (fst st OR NMEA_GPGGA, take_gga g (snd st)))
       else if ty = NMEA_GPRMC then
         andThen (rp_NmeaParseGprmc buffer (blank_rmc E)) (\<lambda>g. Inr (fst st OR NMEA_GPRMC, take_rmc g (snd st)))
       else Inr st)"

datatype gps_res = Fix loc_t "rx list" | Gps_Stop stop loc_t "rx list"

function gps_fix :: "env \<Rightarrow> u8 \<times> loc_t \<Rightarrow> rx list \<Rightarrow> gps_res" where
  "gps_fix E st xs =
     (if fst st = NMEA_COMPLETED then Fix (snd st) xs
      else case uart_line 256 [] xs of
        Starved \<Rightarrow> Gps_Stop Blocked (snd st) []
      | No_Room r \<Rightarrow> Gps_Stop Overrun (snd st) r
      | Line l r \<Rightarrow>
          (case gps_line E (cstr l) st of
             Inl e \<Rightarrow> Gps_Stop e (snd st) r
           | Inr st' \<Rightarrow> gps_fix E st' r))"
  by pat_completeness auto
termination
  by (relation "measure (\<lambda>(E, st, xs). length xs)") (auto dest!: uart_line_room)

declare gps_fix.simps [simp del]

definition gps_location :: "env \<Rightarrow> loc_t \<Rightarrow> ('a os_scheme, loc_t) io" where
  "gps_location E coord =
     (\<lambda>s. case gps_fix E (NMEA_EMPTY, coord) (rx_line s) of
        Fix c r \<Rightarrow> Done c (s\<lparr>rx_line := r\<rparr>)
      | Gps_Stop e c r \<Rightarrow> Stopped e (s\<lparr>rx_line := r\<rparr>))"

definition blank_loc :: "env \<Rightarrow> loc_t" where
  "blank_loc E =
     (let u = dbl (uint (uninit E))
      in \<lparr>loc_times = u, date = u, latitude = u, longitude = u, speed = u, altitude = u, course = u, satellites = u\<rparr>)"

definition gps_print_data :: "env \<Rightarrow> ('a uart_st_scheme, int) io" where
  "gps_print_data E =
     thn (gps_init E)
    (bnd (gps_location E (blank_loc E)) (\<lambda>data.
     thn (stmts
       [puts_out (''Time      : '' @ fmt_0d 6 (sint (f_to_u32 (loc_times data))) @ nl),
        puts_out (''Date      : '' @ fmt_0d 6 (sint (f_to_u32 (date data))) @ nl),
        puts_out (''Latitude  : '' @ fmt_f 6 (latitude data) @ nl),
        puts_out (''Longitude : '' @ fmt_f 6 (longitude data) @ nl),
        puts_out (''Altitude  : '' @ fmt_f 1 (altitude data) @ nl),
        puts_out (''Satellites: '' @ fmt_d (sint (f_to_u32 (satellites data))) @ nl)])
     (ret 0)))"

section \<open>Collecting a fix\<close>

definition send :: "string \<Rightarrow> rx list" where
  "send l = map Byte (l @ nl)"

text \<open>A line the receiver may send: it fits the buffer and holds no newline or NUL.\<close>

definition sendable :: "string \<Rightarrow> bool" where
  "sendable l \<longleftrightarrow> length l < 256 \<and> CHR 0x0A \<notin> set l \<and> NUL \<notin> set l"

lemma data_of_map [simp]: "data_of (map Byte l) = l"
  by (induction l) simp_all

lemma uart_line_send: "sendable l \<Longrightarrow> uart_line 256 [] (send l @ r) = Line l r"
  using uart_line_full [of "map Byte l" "[]" 256 r] by (simp add: sendable_def send_def)

lemma cstr_sendable: "sendable l \<Longrightarrow> cstr l = l"
  by (auto simp: sendable_def cstr_def takeWhile_eq_all_conv)

lemma gps_fix_done: "fst st = NMEA_COMPLETED \<Longrightarrow> gps_fix E st xs = Fix (snd st) xs"
  by (simp add: gps_fix.simps [of E st])

lemma gps_fix_send:
  "sendable l \<Longrightarrow> fst st \<noteq> NMEA_COMPLETED \<Longrightarrow>
   gps_fix E st (send l @ r) = (case gps_line E l st of Inl e \<Rightarrow> Gps_Stop e (snd st) r | Inr st' \<Rightarrow> gps_fix E st' r)"
  by (simp add: gps_fix.simps [of E st] uart_line_send cstr_sendable)

text \<open>What a line adds to the status, and the lines the collector survives: classified without a fault, and
  with enough commas when they are GGA or RMC.\<close>

definition line_bits :: "string \<Rightarrow> u8" where
  "line_bits l =
     (case rp_NmeaGetMessageType l of Inl e \<Rightarrow> 0
      | Inr ty \<Rightarrow> if ty = NMEA_GPGGA then NMEA_GPGGA else if ty = NMEA_GPRMC then NMEA_GPRMC else 0)"

definition readable :: "string \<Rightarrow> bool" where
  "readable l \<longleftrightarrow> sendable l \<and> \<not> isl (rp_NmeaGetMessageType l) \<and> (line_bits l \<noteq> 0 \<longrightarrow> 9 \<le> n_commas l)"

lemma next_field_Inl: "(\<And>r. f r \<noteq> Inl e) \<Longrightarrow> e \<noteq> Fault \<Longrightarrow> andThen (next_field s) f \<noteq> Inl e"
  using next_field_n [of s] by auto

lemma parse_returns:
  "9 \<le> n_commas l \<Longrightarrow> \<exists>g. rp_NmeaParseGpgga l a = Inr g" "9 \<le> n_commas l \<Longrightarrow> \<exists>g. rp_NmeaParseGprmc l b = Inr g"
proof -
  have "e \<noteq> Fault \<Longrightarrow> rp_NmeaParseGpgga l a \<noteq> Inl e" for e
    unfolding rp_NmeaParseGpgga_def Let_def by (rule next_field_Inl)+ simp_all
  then show "9 \<le> n_commas l \<Longrightarrow> \<exists>g. rp_NmeaParseGpgga l a = Inr g"
    using gpgga_fault [of l a] by (cases "rp_NmeaParseGpgga l a") auto
  have "e \<noteq> Fault \<Longrightarrow> rp_NmeaParseGprmc l b \<noteq> Inl e" for e
    unfolding rp_NmeaParseGprmc_def Let_def by (rule next_field_Inl)+ simp_all
  then show "9 \<le> n_commas l \<Longrightarrow> \<exists>g. rp_NmeaParseGprmc l b = Inr g"
    using gprmc_fault [of l b] by (cases "rp_NmeaParseGprmc l b") auto
qed

lemma gps_line_readable:
  assumes "readable l"
  shows "\<exists>c'. gps_line E l (s, c) = Inr (s OR line_bits l, c')"
proof -
  obtain ty where t: "rp_NmeaGetMessageType l = Inr ty"
    using assms by (cases "rp_NmeaGetMessageType l") (auto simp: readable_def)
  have d: "NMEA_GPGGA \<noteq> NMEA_GPRMC" "NMEA_GPGGA \<noteq> 0" "NMEA_GPRMC \<noteq> 0" by (simp_all add: NMEA_GPGGA_def NMEA_GPRMC_def)
  show ?thesis
    using assms t d parse_returns(1) [of l "blank_gga E"] parse_returns(2) [of l "blank_rmc E"]
    by (auto simp: readable_def gps_line_def line_bits_def split: if_splits)
qed

lemma gps_line_idle: "readable l \<Longrightarrow> line_bits l = 0 \<Longrightarrow> gps_line E l st = Inr st"
  by (cases "rp_NmeaGetMessageType l")
    (auto simp: readable_def gps_line_def line_bits_def NMEA_GPGGA_def NMEA_GPRMC_def split: if_splits)

lemma gps_fix_lines:
  assumes "\<forall>l \<in> set ls. readable l" "s \<in> {0, 1, 2, 3}"
    "s AND 2 \<noteq> 0 \<or> (\<exists>l \<in> set ls. line_bits l = NMEA_GPGGA)" "s AND 1 \<noteq> 0 \<or> (\<exists>l \<in> set ls. line_bits l = NMEA_GPRMC)"
  shows "\<exists>c' r. gps_fix E (s, c) (concat (map send ls) @ rest) = Fix c' r"
  using assms
proof (induction ls arbitrary: s c)
  case Nil
  then have "s = NMEA_COMPLETED" by (auto simp: NMEA_COMPLETED_def)
  then show ?case by (simp add: gps_fix_done)
next
  case (Cons l ls)
  show ?case
  proof (cases "s = NMEA_COMPLETED")
    case True
    then show ?thesis by (simp add: gps_fix_done)
  next
    case False
    obtain c' where l: "gps_line E l (s, c) = Inr (s OR line_bits l, c')"
      using gps_line_readable Cons.prems(1) by fastforce
    have b: "line_bits l \<in> {0, 1, 2}"
      by (auto simp: line_bits_def NMEA_GPGGA_def NMEA_GPRMC_def split: sum.splits)
    have "\<exists>c'' r. gps_fix E (s OR line_bits l, c') (concat (map send ls) @ rest) = Fix c'' r"
      using Cons.prems b by (intro Cons.IH) (auto simp: NMEA_GPGGA_def NMEA_GPRMC_def)
    with l False Cons.prems(1) show ?thesis
      by (simp add: gps_fix_send readable_def)
  qed
qed

lemma gps_fix_idle:
  "\<forall>l \<in> set ls. readable l \<and> line_bits l = 0 \<Longrightarrow> fst st \<noteq> NMEA_COMPLETED \<Longrightarrow>
   gps_fix E st (concat (map send ls) @ r) = gps_fix E st r"
  by (induction ls) (simp_all add: gps_fix_send gps_line_idle readable_def)

lemma gps_location_order:
  assumes "\<forall>l \<in> set (js @ ks). readable l \<and> line_bits l = 0" "sendable l" "sendable m"
    and g: "rp_NmeaGetMessageType l = Inr NMEA_GPGGA" "rp_NmeaParseGpgga l (blank_gga E) = Inr g"
    and m: "rp_NmeaGetMessageType m = Inr NMEA_GPRMC" "rp_NmeaParseGprmc m (blank_rmc E) = Inr h"
    and ab: "(a, b) = (l, m) \<or> (a, b) = (m, l)"
    and rx: "rx_line s = concat (map send js) @ send a @ concat (map send ks) @ send b @ rest"
  shows "gps_location E coord s = Done (take_rmc h (take_gga g coord)) (s\<lparr>rx_line := rest\<rparr>)"
proof -
  have d: "NMEA_GPRMC \<noteq> NMEA_GPGGA" "NMEA_EMPTY \<noteq> NMEA_COMPLETED" "NMEA_GPGGA \<noteq> NMEA_COMPLETED" "NMEA_GPRMC \<noteq> NMEA_COMPLETED"
    "NMEA_EMPTY OR NMEA_GPGGA = NMEA_GPGGA" "NMEA_GPGGA OR NMEA_GPRMC = NMEA_COMPLETED"
    "NMEA_EMPTY OR NMEA_GPRMC = NMEA_GPRMC" "NMEA_GPRMC OR NMEA_GPGGA = NMEA_COMPLETED"
    by (simp_all add: NMEA_GPGGA_def NMEA_GPRMC_def NMEA_EMPTY_def NMEA_COMPLETED_def)
  have c: "take_gga g (take_rmc h coord) = take_rmc h (take_gga g coord)" by (simp add: take_gga_def take_rmc_def split_beta)
  have "gps_fix E (NMEA_EMPTY, coord) (rx_line s) = Fix (take_rmc h (take_gga g coord)) rest"
    using ab
  proof
    assume "(a, b) = (l, m)"
    then show ?thesis using assms(1-3) g m d by (simp add: rx gps_fix_idle gps_fix_send gps_line_def gps_fix_done)
  next
    assume "(a, b) = (m, l)"
    then show ?thesis using assms(1-3) g m d c by (simp add: rx gps_fix_idle gps_fix_send gps_line_def gps_fix_done)
  qed
  then show ?thesis by (simp add: gps_location_def)
qed

section \<open>Sentences given by their fields\<close>

text \<open>A field has no comma; neither a field nor the rest of a sentence has a dollar sign or an asterisk.\<close>

definition rest_ok :: "string \<Rightarrow> bool" where
  "rest_ok f \<longleftrightarrow> CHR ''$'' \<notin> set f \<and> CHR ''*'' \<notin> set f"

definition field_ok :: "string \<Rightarrow> bool" where
  "field_ok f \<longleftrightarrow> comma \<notin> set f \<and> rest_ok f"

lemma rest_ok_append [simp]: "rest_ok (f @ g) \<longleftrightarrow> rest_ok f \<and> rest_ok g" and rest_ok_Nil [simp]: "rest_ok []"
  and rest_ok_Cons [simp]: "rest_ok (c # f) \<longleftrightarrow> c \<noteq> CHR ''$'' \<and> c \<noteq> CHR ''*'' \<and> rest_ok f"
  by (auto simp: rest_ok_def)

lemma rest_ok_commas: "list_all field_ok fs \<Longrightarrow> rest_ok r \<Longrightarrow> rest_ok (commas (fs @ [r]))"
proof (induction fs)
  case (Cons f fs)
  then show ?case by (cases "fs @ [r]") (auto simp: field_ok_def)
qed simp

lemma strstr_absent: "CHR ''$'' \<notin> set t \<Longrightarrow> strstr t (CHR ''$'' # p) = None"
  by (induction t) auto

lemma frame_tail_ok: "CHR ''$'' \<notin> set (''*'' @ fmt_0x 2 (uint (w :: u8)) @ cr)"
  using fmt_0x_digits [of w] by (auto simp: is_digit_def digit_val_def)

lemma frame_type:
  assumes "rest_ok body"
  shows "rp_NmeaGetMessageType (nmea_frame (''GPGGA'' @ body)) = Inr NMEA_GPGGA"
    "rp_NmeaGetMessageType (nmea_frame (''GPRMC'' @ body)) = Inr NMEA_GPRMC"
proof -
  have v: "rp_NmeaValidChecksum (nmea_frame (g @ body)) = Inr NMEA_EMPTY" if "CHR ''*'' \<notin> set g" for g
    using that assms by (intro frame_valid) (simp add: rest_ok_def)
  have h: "strstr (nmea_frame (g @ body)) (CHR ''$'' # g) \<noteq> None" for g by (simp add: nmea_frame_def)
  have "strstr (nmea_frame (''GPRMC'' @ body)) ''$GPGGA'' = None"
    using strstr_absent [of "''GPRMC'' @ body @ ''*'' @ fmt_0x 2 (uint (nmea_xor (''GPRMC'' @ body))) @ cr" "''GPGGA''"] assms
      frame_tail_ok [of "nmea_xor (''GPRMC'' @ body)"]
    by (simp add: nmea_frame_def rest_ok_def)
  with v [of "''GPGGA''"] v [of "''GPRMC''"] h [of "''GPGGA''"] h [of "''GPRMC''"]
  show "rp_NmeaGetMessageType (nmea_frame (''GPGGA'' @ body)) = Inr NMEA_GPGGA"
    "rp_NmeaGetMessageType (nmea_frame (''GPRMC'' @ body)) = Inr NMEA_GPRMC"
    by (simp_all add: rp_NmeaGetMessageType_def)
qed

lemma frame_gga:
  assumes "list_all field_ok [f1, f2, f3, f4, f5, f6, f7, f8, f9]" "rest_ok x" "f3 = ''N'' \<or> f3 = ''S''" "f5 = ''E'' \<or> f5 = ''W''"
    and "l = nmea_frame (commas [''GPGGA'', f1, f2, f3, f4, f5, f6, f7, f8, f9, x])"
  shows "rp_NmeaGetMessageType l = Inr NMEA_GPGGA"
    "rp_NmeaParseGpgga l loc =
       Inr \<lparr>gga_times = atof f1, gga_latitude = atof f2, gga_lat = hd f3, gga_longitude = atof f4, gga_lon = hd f5,
            gga_quality = of_int (atoi f6), gga_satellites = of_int (atoi f7), gga_altitude = atof f9\<rparr>"
proof -
  have "rest_ok (comma # commas [f1, f2, f3, f4, f5, f6, f7, f8, f9, x])"
    using rest_ok_commas [OF assms(1,2)] by simp
  from frame_type(1) [OF this] show "rp_NmeaGetMessageType l = Inr NMEA_GPGGA" by (simp add: assms(5))
  let ?z = "x @ ''*'' @ fmt_0x 2 (uint (nmea_xor (commas [''GPGGA'', f1, f2, f3, f4, f5, f6, f7, f8, f9, x]))) @ cr"
  have l: "l = commas [''$GPGGA'', f1, f2, f3, f4, f5, f6, f7, f8, f9 @ comma # ?z]" by (simp add: assms(5) nmea_frame_def)
  have "\<forall>f \<in> set [''$GPGGA'', f1, f2, f3, f4, f5, f6, f7, f8]. comma \<notin> set f" using assms(1) by (simp add: field_ok_def)
  from gpgga_fields [OF this] show "rp_NmeaParseGpgga l loc =
       Inr \<lparr>gga_times = atof f1, gga_latitude = atof f2, gga_lat = hd f3, gga_longitude = atof f4, gga_lon = hd f5,
            gga_quality = of_int (atoi f6), gga_satellites = of_int (atoi f7), gga_altitude = atof f9\<rparr>"
    unfolding l using assms(3,4) by (auto simp: atof_comma hemisphere_def)
qed

lemma frame_rmc:
  assumes "list_all field_ok [f1, f2, f3, f4, f5, f6, f7, f8, f9]" "rest_ok x"
    and "m = nmea_frame (commas [''GPRMC'', f1, f2, f3, f4, f5, f6, f7, f8, f9, x])"
  shows "rp_NmeaGetMessageType m = Inr NMEA_GPRMC"
    "\<exists>h. rp_NmeaParseGprmc m loc = Inr h \<and> rmc_speed h = atof f7 \<and> rmc_course h = atof f8 \<and> rmc_date h = atof f9"
proof -
  have "rest_ok (comma # commas [f1, f2, f3, f4, f5, f6, f7, f8, f9, x])"
    using rest_ok_commas [OF assms(1,2)] by simp
  from frame_type(2) [OF this] show "rp_NmeaGetMessageType m = Inr NMEA_GPRMC" by (simp add: assms(3))
  let ?z = "x @ ''*'' @ fmt_0x 2 (uint (nmea_xor (commas [''GPRMC'', f1, f2, f3, f4, f5, f6, f7, f8, f9, x]))) @ cr"
  have m: "m = commas [''$GPRMC'', f1, f2, f3, f4, f5, f6, f7, f8, f9 @ comma # ?z]" by (simp add: assms(3) nmea_frame_def)
  have "\<forall>f \<in> set [''$GPRMC'', f1, f2, f3, f4, f5, f6, f7, f8]. comma \<notin> set f" using assms(1) by (simp add: field_ok_def)
  from gprmc_fields [OF this] show "\<exists>h. rp_NmeaParseGprmc m loc = Inr h \<and> rmc_speed h = atof f7 \<and> rmc_course h = atof f8 \<and> rmc_date h = atof f9"
    unfolding m by (simp add: atof_comma)
qed

section \<open>Accuracy of the conversion to decimal degrees\<close>

lemma dbl_val: "\<bar>i\<bar> < 2 ^ 53 \<Longrightarrow> fval (dbl i) = of_int i"
  by (rule f_of_int_exact)


text \<open>The whole degrees and the whole minutes are read off exactly.\<close>

lemma f_to_i32_small: "0 \<le> f_trunc x \<Longrightarrow> f_trunc x < 2 ^ 31 \<Longrightarrow> f_to_i32 x = f_trunc x"
  by (simp add: f_to_i32_def)

lemma real_split_100: "real_of_int n = 100 * of_int (n div 100) + of_int (n mod 100)"
proof -
  have "real_of_int n = of_int (100 * (n div 100) + n mod 100)" by (simp only: mult_div_mod_eq)
  then show ?thesis by (simp only: of_int_add of_int_mult of_int_numeral)
qed

lemma deg_exact:
  assumes d: "fpos d" "mant d < 2 ^ 53" "fval d < 18000"
  defines "n \<equiv> \<lfloor>fval d\<rfloor>"
  shows "f_to_i32 (fdiv double_prec (f_modf_int d) (dbl 100)) = n div 100"
    "f_to_i32 (fsub double_prec d (dbl (n div 100 * 100))) = n mod 100"
proof -
  have d0: "0 \<le> fval d" using fpos_val [OF d(1)] by simp
  have n: "0 \<le> n" "n < 18000" using d0 d(3) by (simp_all add: n_def floor_less_iff)
  have nd: "of_int n \<le> fval d" "fval d < of_int n + 1" unfolding n_def by linarith+
  have h: "fval (dbl 100) = 100" "fpos (dbl 100)" using dbl_val [of 100] by auto
  have i: "fval (f_modf_int d) = of_int n" "fpos (f_modf_int d)"
    using d(1) modf_parts(1) by (auto simp: n_def fpos_def modf_parts)
  define y where "y = fdiv double_prec (f_modf_int d) (dbl 100)"
  have yp: "fpos y" unfolding y_def by (rule fpos_ops(2)) (use i h in simp_all)
  have split: "real_of_int n = 100 * of_int (n div 100) + of_int (n mod 100)" by (rule real_split_100)
  have m: "0 \<le> n mod 100" "n mod 100 < 100" by simp_all
  have "\<bar>fval y - of_int n / 100\<bar> \<le> of_int n / 100 / 2 ^ 53"
    using fdiv_val(1) [of "f_modf_int d" "dbl 100" double_prec] i h by (simp add: y_def)
  moreover have "real_of_int n / 100 / 2 ^ 53 \<le> 1 / 1000" using n by simp
  ultimately have e: "\<bar>fval y - of_int n / 100\<bar> \<le> 1 / 1000" by linarith
  have low: "of_int (n div 100) \<le> fval y"
  proof (cases "n mod 100 = 0")
    case True
    then have "fval (f_modf_int d) / fval (dbl 100) = of_int (n div 100)" using split i h by simp
    then have "fval y = of_int (n div 100)"
      using fdiv_val(2) [of "f_modf_int d" "dbl 100"] i h n unfolding y_def by simp
    then show ?thesis by simp
  next
    case False
    then have "1 \<le> real_of_int (n mod 100)" using m by simp
    with e split show ?thesis unfolding abs_le_iff by linarith
  qed
  have "real_of_int (n mod 100) \<le> 99" using m by simp
  with e split have up: "fval y < of_int (n div 100) + 1" unfolding abs_le_iff by linarith
  have "f_trunc y = n div 100"
    using yp low up n by (intro f_trunc_eq) (simp_all add: fpos_def pos_imp_zdiv_nonneg_iff)
  then show "f_to_i32 (fdiv double_prec (f_modf_int d) (dbl 100)) = n div 100"
    using n by (simp add: f_to_i32_small pos_imp_zdiv_nonneg_iff flip: y_def)
  define k where "k = n div 100 * 100"
  have "k = n - n mod 100" by (simp add: k_def minus_mod_eq_div_mult)
  moreover have "0 \<le> k" using n by (simp add: k_def pos_imp_zdiv_nonneg_iff)
  ultimately have k: "0 \<le> k" "k \<le> n" using m by linarith+
  have fk: "fval (dbl k) = of_int k" using k n by (intro dbl_val) simp
  have kd: "of_int k \<le> fval d" using k(2) nd(1) by (meson of_int_le_iff order_trans)
  have z: "fval (fsub double_prec d (dbl k)) = fval d - of_int k" "fwf (fsub double_prec d (dbl k))"
    using fsub_int_exact [of d double_prec "dbl k" k] d fk k kd by simp_all
  have "n mod 100 = n - k" unfolding k_def by (rule minus_div_mult_eq_mod [symmetric])
  then have "f_trunc (fsub double_prec d (dbl k)) = n mod 100"
    using z nd m by (intro f_trunc_eq) simp_all
  then show "f_to_i32 (fsub double_prec d (dbl (n div 100 * 100))) = n mod 100"
    using m by (simp add: f_to_i32_small flip: k_def)
qed

text \<open>The chain of roundings after the split, on reals.\<close>

abbreviation tiny :: "real \<Rightarrow> real" where "tiny x \<equiv> x / 9007199254740992"

lemma deg_chain_real:
  fixes fr D M S T A Q1 Q2 S1 S2 R res :: real
  assumes fr: "0 \<le> fr" "fr < 1" and D: "0 \<le> D" "D \<le> 179" and M: "0 \<le> M" "M \<le> 99"
    and S: "\<bar>S - fr * 60\<bar> \<le> tiny (fr * 60)"
    and T: "\<bar>T - S * 1000000\<bar> \<le> tiny (S * 1000000)"
    and A: "\<bar>A - T\<bar> \<le> 1 / 2"
    and Q1: "\<bar>Q1 - M * 1000000 / 60\<bar> \<le> tiny (M * 1000000 / 60)"
    and Q2: "\<bar>Q2 - A / 3600\<bar> \<le> tiny (A / 3600)"
    and S1: "\<bar>S1 - (D * 1000000 + Q1)\<bar> \<le> tiny (D * 1000000 + Q1)"
    and S2: "\<bar>S2 - (S1 + Q2)\<bar> \<le> tiny (S1 + Q2)"
    and R: "\<bar>R - S2\<bar> \<le> 1 / 2"
    and res: "\<bar>res - R / 1000000\<bar> \<le> tiny (R / 1000000)"
  shows "\<bar>res - (D + (M + fr) / 60)\<bar> \<le> 501 / 1000000000"
proof -
  have s: "\<bar>S - fr * 60\<bar> \<le> 1 / 10000000000" using S fr unfolding abs_le_iff by linarith
  have t: "\<bar>T - fr * 60000000\<bar> \<le> 2 / 10000" using T s fr unfolding abs_le_iff by linarith
  have a: "\<bar>A - fr * 60000000\<bar> \<le> 5002 / 10000" using A t unfolding abs_le_iff by linarith
  have q1: "\<bar>Q1 - M * 1000000 / 60\<bar> \<le> 1 / 1000000" using Q1 M unfolding abs_le_iff by linarith
  have q2: "\<bar>Q2 - fr * 60000000 / 3600\<bar> \<le> 2 / 10000" using Q2 a fr unfolding abs_le_iff by linarith
  have "Q1 \<le> 1650001" using q1 M unfolding abs_le_iff by linarith
  then have "tiny (D * 1000000 + Q1) \<le> 1 / 1000000" using D by (simp add: divide_le_eq)
  with S1 have s1': "\<bar>S1 - (D * 1000000 + Q1)\<bar> \<le> 1 / 1000000" by linarith
  have s1: "\<bar>S1 - (D * 1000000 + M * 1000000 / 60)\<bar> \<le> 2 / 1000000" using s1' q1 unfolding abs_le_iff by linarith
  have s2: "\<bar>S2 - (D * 1000000 + M * 1000000 / 60 + fr * 60000000 / 3600)\<bar> \<le> 3 / 10000"
  proof -
    have "S1 + Q2 \<le> 200000000" using s1 q2 D M fr unfolding abs_le_iff by linarith
    then have "tiny (S1 + Q2) \<le> 1 / 1000000" by (simp add: divide_le_eq)
    with S2 have "\<bar>S2 - (S1 + Q2)\<bar> \<le> 1 / 1000000" by linarith
    with s1 q2 show ?thesis unfolding abs_le_iff by linarith
  qed
  have e: "(D + (M + fr) / 60) * 1000000 = D * 1000000 + M * 1000000 / 60 + fr * 60000000 / 3600" by (simp add: field_simps)
  have r: "\<bar>R - (D + (M + fr) / 60) * 1000000\<bar> \<le> 5003 / 10000"
    using R s2 unfolding e abs_le_iff by linarith
  have "R \<le> 200000000" using r D M fr unfolding e abs_le_iff by linarith
  then have "tiny (R / 1000000) \<le> 1 / 1000000000000" by linarith
  with res have "\<bar>res - R / 1000000\<bar> \<le> 1 / 1000000000000" by linarith
  moreover have "\<bar>R / 1000000 - (D + (M + fr) / 60)\<bar> \<le> 5003 / 10000000000"
  proof -
    define x where "x = D + (M + fr) / 60"
    have "\<bar>R - x * 1000000\<bar> \<le> 5003 / 10000" using r unfolding x_def .
    then have "\<bar>R / 1000000 - x\<bar> \<le> 5003 / 10000000000" unfolding abs_le_iff by linarith
    then show ?thesis unfolding x_def .
  qed
  ultimately show ?thesis by linarith
qed

lemma million_exact:
  assumes "0 \<le> i" "i < 1000"
  shows "fval (f_round (fmul double_prec (dbl i) (dbl 1000000))) = of_int i * 1000000"
proof -
  have c: "fval (dbl i) = of_int i" "fval (dbl 1000000) = 1000000" "fpos (dbl i)" "fpos (dbl 1000000)"
    using dbl_val [of i] dbl_val [of 1000000] assms by (auto intro: fpos_ops)
  then have "fval (fmul double_prec (dbl i) (dbl 1000000)) = of_int (i * 1000000)"
    using assms by (intro fmul_val(2)) simp_all
  moreover have "fpos (fmul double_prec (dbl i) (dbl 1000000))" by (rule fpos_ops(1) [OF c(3,4)])
  ultimately show ?thesis using f_round_error(4) [of _ "i * 1000000"] unfolding fpos_def by simp
qed

text \<open>The arithmetic after the whole degrees \<open>D\<close>, the whole minutes \<open>M\<close> and the fraction \<open>F\<close> have been split off.\<close>

definition deg_tail :: "int \<Rightarrow> int \<Rightarrow> flt \<Rightarrow> flt" where
  "deg_tail D M F =
     fdiv double_prec
       (f_round (fadd double_prec
         (fadd double_prec (f_round (fmul double_prec (dbl D) (dbl 1000000)))
            (fdiv double_prec (f_round (fmul double_prec (dbl M) (dbl 1000000))) (dbl 60)))
         (fdiv double_prec (f_round (fmul double_prec (fmul double_prec F (dbl 60)) (dbl 1000000))) (dbl 3600))))
       (dbl 1000000)"

lemma deg_tail_accuracy:
  assumes DM: "0 \<le> D" "D \<le> 179" "0 \<le> M" "M \<le> 99" and f: "fpos F" "fval F < 1"
  shows "\<bar>fval (deg_tail D M F) - (of_int D + (of_int M + fval F) / 60)\<bar> \<le> 501 / 1000000000"
proof -
  define S where "S = fmul double_prec F (dbl 60)"
  define T where "T = fmul double_prec S (dbl 1000000)"
  define A where "A = f_round T"
  define aD where "aD = f_round (fmul double_prec (dbl D) (dbl 1000000))"
  define aM where "aM = f_round (fmul double_prec (dbl M) (dbl 1000000))"
  define Q1 where "Q1 = fdiv double_prec aM (dbl 60)"
  define Q2 where "Q2 = fdiv double_prec A (dbl 3600)"
  define S1 where "S1 = fadd double_prec aD Q1"
  define S2 where "S2 = fadd double_prec S1 Q2"
  define R where "R = f_round S2"
  have g: "deg_tail D M F = fdiv double_prec R (dbl 1000000)"
    by (simp add: deg_tail_def S_def T_def A_def aD_def aM_def Q1_def Q2_def S1_def S2_def R_def)
  have c: "fval (dbl 60) = 60" "fval (dbl 1000000) = 1000000" "fval (dbl 3600) = 3600"
    "fval (dbl D) = of_int D" "fval (dbl M) = of_int M"
    using dbl_val [of 60] dbl_val [of 1000000] dbl_val [of 3600] dbl_val [of D] dbl_val [of M] DM by simp_all
  have cp: "fpos (dbl 60)" "fpos (dbl 1000000)" "fpos (dbl 3600)" "fpos (dbl D)" "fpos (dbl M)"
    using DM by (auto intro: fpos_ops)
  have p: "fpos S" "fpos T" "fpos A" "fpos aD" "fpos aM"
    unfolding A_def T_def S_def aD_def aM_def
    by (rule fpos_ops(1) [OF f(1) cp(1)] fpos_ops(1) [OF fpos_ops(1) [OF f(1) cp(1)] cp(2)]
        fpos_ops(4) fpos_ops(1) [OF cp(4,2)] fpos_ops(1) [OF cp(5,2)])+
  have q: "fpos Q1" "fpos Q2" "fpos S1" "fpos S2" "fpos R"
  proof -
    show "fpos Q1" unfolding Q1_def by (rule fpos_ops(2) [OF p(5) cp(1)]) (simp add: c)
    show "fpos Q2" unfolding Q2_def by (rule fpos_ops(2) [OF p(3) cp(3)]) (simp add: c)
    show "fpos S1" unfolding S1_def by (rule fpos_ops(3) [OF p(4) \<open>fpos Q1\<close>])
    then show "fpos S2" using \<open>fpos Q2\<close> unfolding S2_def by (rule fpos_ops(3))
    then show "fpos R" unfolding R_def by (rule fpos_ops(4))
  qed
  have ex: "fval aD = of_int D * 1000000" "fval aM = of_int M * 1000000"
    using million_exact [of D] million_exact [of M] DM by (simp_all add: aD_def aM_def)
  show ?thesis
  proof (rule deg_chain_real [where S = "fval S" and T = "fval T" and A = "fval A" and ?Q1.0 = "fval Q1" and ?Q2.0 = "fval Q2" and
        ?S1.0 = "fval S1" and ?S2.0 = "fval S2" and R = "fval R"])
    show "\<bar>fval S - fval F * 60\<bar> \<le> tiny (fval F * 60)" using fmul_val(1) [OF f(1) cp(1), of double_prec] f c by (simp add: S_def)
    show "\<bar>fval T - fval S * 1000000\<bar> \<le> tiny (fval S * 1000000)" using fmul_val(1) [OF p(1) cp(2), of double_prec] c by (simp add: T_def)
    show "\<bar>fval A - fval T\<bar> \<le> 1 / 2" using f_round_error(1) p(2) unfolding A_def fpos_def by blast
    show "\<bar>fval Q1 - of_int M * 1000000 / 60\<bar> \<le> tiny (of_int M * 1000000 / 60)"
      using fdiv_val(1) [OF p(5) cp(1), of double_prec] c ex by (simp add: Q1_def)
    show "\<bar>fval Q2 - fval A / 3600\<bar> \<le> tiny (fval A / 3600)" using fdiv_val(1) [OF p(3) cp(3), of double_prec] c by (simp add: Q2_def)
    show "\<bar>fval S1 - (of_int D * 1000000 + fval Q1)\<bar> \<le> tiny (of_int D * 1000000 + fval Q1)"
      using fadd_pos_val [OF p(4) q(1), of double_prec] ex by (simp add: S1_def)
    show "\<bar>fval S2 - (fval S1 + fval Q2)\<bar> \<le> tiny (fval S1 + fval Q2)" using fadd_pos_val [OF q(3,2), of double_prec] by (simp add: S2_def)
    show "\<bar>fval R - fval S2\<bar> \<le> 1 / 2" using f_round_error(1) q(4) unfolding R_def fpos_def by blast
    show "\<bar>fval (deg_tail D M F) - fval R / 1000000\<bar> \<le> tiny (fval R / 1000000)"
      using fdiv_val(1) [OF q(5) cp(2), of double_prec] c by (simp add: g)
  qed (use DM f fpos_val [of F] in simp_all)
qed

lemma gps_deg_dec_accuracy:
  assumes d: "fpos d" "mant d < 2 ^ 53" "fval d < 18000"
  defines "n \<equiv> \<lfloor>fval d\<rfloor>"
  shows "\<bar>fval (gps_deg_dec d) - (of_int (n div 100) + (fval d - 100 * of_int (n div 100)) / 60)\<bar> \<le> 501 / 1000000000"
proof -
  define D M where "D = n div 100" and "M = n mod 100"
  have n: "0 \<le> n" "n < 18000" using fpos_val [OF d(1)] d(3) by (simp_all add: n_def floor_less_iff)
  have "D < 180" using n by (simp add: D_def div_less_iff_less_mult)
  moreover have "M < 100" by (simp add: M_def)
  ultimately have DM: "0 \<le> D" "D \<le> 179" "0 \<le> M" "M \<le> 99"
    using n by (simp_all add: D_def M_def pos_imp_zdiv_nonneg_iff)
  have "f_to_i32 (fdiv double_prec (f_modf_int d) (dbl 100)) = D" "f_to_i32 (fsub double_prec d (dbl (D * 100))) = M"
    using deg_exact [OF d] by (simp_all add: D_def M_def n_def)
  then have g: "gps_deg_dec d = deg_tail D M (f_modf_frac d)"
    by (simp only: gps_deg_dec_def deg_tail_def Let_def)
  have f: "fval (f_modf_frac d) = fval d - of_int n" "fpos (f_modf_frac d)"
    using d(1) by (auto simp: fpos_def modf_parts n_def)
  moreover have "fval d - of_int n < 1" unfolding n_def by linarith
  ultimately have "\<bar>fval (gps_deg_dec d) - (of_int D + (of_int M + (fval d - of_int n)) / 60)\<bar> \<le> 501 / 1000000000"
    using deg_tail_accuracy [OF DM, of "f_modf_frac d"] g by simp
  moreover have "of_int M + (fval d - of_int n) = fval d - 100 * of_int D"
    using real_split_100 [of n] by (simp add: D_def M_def)
  ultimately show ?thesis unfolding D_def by simp
qed

section \<open>Properties\<close>

definition gga_sample :: string where
  "gga_sample = nmea_frame ''GPGGA,123519,4807.038,N,01131.000,E,1,08,0.9,545.4,M,46.9,M,,''"

definition rmc_sample :: string where
  "rmc_sample = nmea_frame ''GPRMC,123519,A,4807.038,N,01131.000,E,022.4,084.4,230394,003.1,W''"

lemma samples: "readable gga_sample" "readable rmc_sample" "line_bits gga_sample = NMEA_GPGGA" "line_bits rmc_sample = NMEA_GPRMC"
  "rp_NmeaGetMessageType gga_sample = Inr NMEA_GPGGA" "rp_NmeaGetMessageType rmc_sample = Inr NMEA_GPRMC"
  by code_simp+

text \<open>
  A line longer than the buffer is written past its end: on a line of \<open>k\<close> bytes and a newline, with pauses
  anywhere, \<^verbatim>\<open>rp_UartReadln\<close> with a buffer of \<open>n\<close> bytes returns the line when \<open>k < n\<close> and overruns the buffer
  otherwise; the length argument is never used.
\<close>

theorem rp_UartReadln_outcome:
  assumes "rx_line s = xs @ Byte (CHR 0x0A) # r" "CHR 0x0A \<notin> set (data_of xs)"
  shows "if length (data_of xs) < n then rp_UartReadln n s = Done (data_of xs) (s\<lparr>rx_line := r\<rparr>)
    else \<exists>r'. rp_UartReadln n s = Stopped Overrun (s\<lparr>rx_line := r'\<rparr>)"
proof (cases "length (data_of xs) < n")
  case True
  with assms uart_line_full [of xs "[]" n r] show ?thesis by (simp add: rp_UartReadln_def)
next
  case False
  with assms uart_line_overrun [of xs n "[]" r] show ?thesis by (auto simp: rp_UartReadln_def)
qed

theorem rp_UartReadln_outcome_witness:
  "rp_UartReadln 256 (os0\<lparr>rx_line := [NoData, Byte (CHR ''A''), NoData] @ Byte (CHR 0x0A) # []\<rparr>) =
     Done ''A'' (os0\<lparr>rx_line := []\<rparr>)"
  using rp_UartReadln_outcome [of "os0\<lparr>rx_line := [NoData, Byte (CHR ''A''), NoData] @ Byte (CHR 0x0A) # []\<rparr>"
      "[NoData, Byte (CHR ''A''), NoData]" "[]" 256] by simp

text \<open>
  (C20) The GPS loop ends: whatever the order of the lines and whatever other valid sentences or corrupted frames
  come between them, once one GGA and one RMC sentence have arrived \<^verbatim>\<open>gps_location\<close> returns.
\<close>

theorem gps_location_returns:
  assumes "\<forall>l \<in> set ls. readable l" "\<exists>l \<in> set ls. line_bits l = NMEA_GPGGA" "\<exists>l \<in> set ls. line_bits l = NMEA_GPRMC"
    "rx_line s = concat (map send ls) @ rest"
  shows "\<exists>c r. gps_location E coord s = Done c (s\<lparr>rx_line := r\<rparr>)"
  using gps_fix_lines [of ls NMEA_EMPTY E coord rest] assms by (auto simp: gps_location_def NMEA_EMPTY_def)

theorem gps_location_returns_witness:
  "\<exists>c r. gps_location bench (blank_loc bench) (os0\<lparr>rx_line := concat (map send [rmc_sample, gga_sample]) @ []\<rparr>) =
     Done c (os0\<lparr>rx_line := concat (map send [rmc_sample, gga_sample]) @ [], rx_line := r\<rparr>)"
  by (rule gps_location_returns [of "[rmc_sample, gga_sample]" _ "[]"]) (simp_all add: samples)

text \<open>
  (C21) What is collected: when a GGA and an RMC sentence arrive, in either order and with lines that are neither before and between them,
  the result holds the numbers of the fields of these two sentences: time, latitude, longitude, satellites and altitude of the fields
  1, 2, 4, 7 and 9 of the GGA sentence, latitude and longitude converted to decimal degrees and negated before for \<^verbatim>\<open>S\<close> and for \<^verbatim>\<open>W\<close>, and
  speed, course and date of the fields 7, 8 and 9 of the RMC sentence.  The rest of the input is left unread.
\<close>

theorem gps_location_values:
  assumes "\<forall>l \<in> set (js @ ks). readable l \<and> line_bits l = 0" "sendable l" "sendable m"
    and "l = nmea_frame (commas [''GPGGA'', tim, lat, ns, lon, ew, qual, sats, hdop, alt, x])"
    and "m = nmea_frame (commas [''GPRMC'', tim', act, lat', ns', lon', ew', spd, crs, dat, y])"
    and "list_all field_ok [tim, lat, ns, lon, ew, qual, sats, hdop, alt]" "rest_ok x"
    and "list_all field_ok [tim', act, lat', ns', lon', ew', spd, crs, dat]" "rest_ok y"
    and "ns = ''N'' \<or> ns = ''S''" "ew = ''E'' \<or> ew = ''W''" "0 \<le> atoi sats" "atoi sats < 256"
    and "(a, b) = (l, m) \<or> (a, b) = (m, l)" "rx_line s = concat (map send js) @ send a @ concat (map send ks) @ send b @ rest"
  shows "gps_location E coord s =
    Done \<lparr>loc_times = atof tim, date = atof dat,
          latitude = gps_deg_dec (if ns = ''S'' then fmul double_prec (dbl (- 1)) (atof lat) else atof lat),
          longitude = gps_deg_dec (if ew = ''W'' then fmul double_prec (dbl (- 1)) (atof lon) else atof lon),
          speed = atof spd, altitude = atof alt, course = atof crs, satellites = dbl (atoi sats)\<rparr>
      (s\<lparr>rx_line := rest\<rparr>)"
proof -
  note g = frame_gga [OF assms(6,7,10,11,4)]
  obtain h where h: "rp_NmeaParseGprmc m (blank_rmc E) = Inr h" "rmc_speed h = atof spd" "rmc_course h = atof crs" "rmc_date h = atof dat"
    using frame_rmc(2) [OF assms(8,9,5)] by blast
  have "uint (of_int (atoi sats) :: u8) = atoi sats" using assms(12,13) by (simp add: uint_word_of_int)
  then show ?thesis
    unfolding gps_location_order [OF assms(1-3) g(1) g(2) frame_rmc(1) [OF assms(8,9,5)] h(1) assms(14,15)]
    using assms(10,11) by (auto simp: take_rmc_def take_gga_def h gps_convert_deg_to_dec_def)
qed

theorem gps_location_values_witness:
  "\<exists>c t. gps_location bench (blank_loc bench) (os0\<lparr>rx_line := send rmc_sample @ send gga_sample @ [NoData]\<rparr>) = Done c t \<and>
     latitude c = gps_deg_dec (atof ''4807.038'') \<and> longitude c = gps_deg_dec (atof ''01131.000'') \<and> altitude c = atof ''545.4'' \<and>
     date c = atof ''230394'' \<and> satellites c = dbl 8 \<and> rx_line t = [NoData]"
proof -
  have l: "gga_sample = nmea_frame (commas [''GPGGA'', ''123519'', ''4807.038'', ''N'', ''01131.000'', ''E'', ''1'', ''08'', ''0.9'', ''545.4'', ''M,46.9,M,,''])"
    and m: "rmc_sample = nmea_frame (commas [''GPRMC'', ''123519'', ''A'', ''4807.038'', ''N'', ''01131.000'', ''E'', ''022.4'', ''084.4'', ''230394'', ''003.1,W''])"
    by (simp_all add: gga_sample_def rmc_sample_def)
  have f: "list_all field_ok [''123519'', ''4807.038'', ''N'', ''01131.000'', ''E'', ''1'', ''08'', ''0.9'', ''545.4'']" "rest_ok ''M,46.9,M,,''"
    "list_all field_ok [''123519'', ''A'', ''4807.038'', ''N'', ''01131.000'', ''E'', ''022.4'', ''084.4'', ''230394'']" "rest_ok ''003.1,W''"
    by (simp_all add: field_ok_def)
  have n: "atoi ''08'' = 8" by code_simp
  have s: "sendable gga_sample" "sendable rmc_sample" using samples(1,2) by (simp_all add: readable_def)
  have rx: "rx_line (os0\<lparr>rx_line := send rmc_sample @ send gga_sample @ [NoData]\<rparr>) =
      concat (map send []) @ send rmc_sample @ concat (map send []) @ send gga_sample @ [NoData]" by simp
  show ?thesis
    using gps_location_values [OF _ s l m f _ _ _ _ _ rx, of bench "blank_loc bench"] n by auto
qed

text \<open>
  (C34) Conversion to decimal degrees: for a non-negative \<^verbatim>\<open>double\<close> \<open>ddmm.mmmm\<close> below 18000 the result of
  \<^verbatim>\<open>gps_deg_dec\<close> is within 5.01e-7 of degrees plus minutes / 60.
\<close>

theorem gps_deg_dec_accurate:
  assumes "fpos d" "mant d < 2 ^ 53" "fval d < 18000"
  shows "\<bar>fval (gps_deg_dec d) -
    (of_int (\<lfloor>fval d\<rfloor> div 100) + (fval d - 100 * of_int (\<lfloor>fval d\<rfloor> div 100)) / 60)\<bar> \<le> 501 / 1000000000"
  using gps_deg_dec_accuracy [OF assms] .

theorem gps_deg_dec_accurate_witness:
  "\<bar>fval (gps_deg_dec (Fl False 9615 (- 1))) -
    (of_int (\<lfloor>fval (Fl False 9615 (- 1))\<rfloor> div 100) +
     (fval (Fl False 9615 (- 1)) - 100 * of_int (\<lfloor>fval (Fl False 9615 (- 1))\<rfloor> div 100)) / 60)\<bar> \<le> 501 / 1000000000"
  by (rule gps_deg_dec_accurate) (simp_all add: fpos_def fwf_def fval_def powi_neg)


end
