(* ===== verification/Lago_Args.thy ===== *)
theory Lago_Args
  imports GPS_RP
begin

text \<open>
  The global variables of the acquisition program \<^verbatim>\<open>lago.c\<close> and its command line: \<^verbatim>\<open>StrcpyS\<close>, \<^verbatim>\<open>show_usage\<close> and
  \<^verbatim>\<open>parse_param\<close>.  The flags are Booleans (the code stores 0 and 1 in them); a character array is the C string
  it holds, and \<open>StrcpyS\<close> on the array itself is related to that view by a refinement lemma.  \<^verbatim>\<open>argv[argc]\<close> is
  \<^verbatim>\<open>NULL\<close>: the code copies and converts arguments without looking at \<^verbatim>\<open>argc\<close>, which faults when they are missing.
\<close>

section \<open>Global variables\<close>

datatype fh = No_File | Stdout | Data_File string

text \<open>What the kernel and the hardware do during one wait for an interrupt: the results of \<^verbatim>\<open>write\<close>, \<^verbatim>\<open>poll\<close> and
  \<^verbatim>\<open>read\<close> on the UIO descriptor, the contents of the sample buffer afterwards, and whether SIGINT arrived.\<close>

record irq =
  irq_wr :: int
  irq_poll :: int
  irq_rd :: int
  irq_mem :: "int \<Rightarrow> u16"
  irq_sig :: bool

record lago = uart_st +
  interrupted :: bool
  n_dev :: int
  reg_off :: u32
  reg_val :: i32
  limit :: int
  current :: int
  position :: int
  g_data :: loc_t
  gps_lat :: flt
  gps_lon :: flt
  gps_alt :: flt
  r1 :: int
  r2 :: int
  hack :: int
  rates :: "nat \<Rightarrow> int"
  fReadReg :: bool
  fGetCfgStatus :: bool
  fGetPT :: bool
  fGetGPS :: bool
  fGetXADC :: bool
  fInitSystem :: bool
  fWriteReg :: bool
  fSetCfgReg :: bool
  fToFile :: bool
  fToStdout :: bool
  fFile :: bool
  fCount :: bool
  fByte :: bool
  fRegValue :: bool
  fData :: bool
  fFirstTime :: bool
  fshowversion :: bool
  charAction :: string
  scRegister :: string
  charReg :: string
  charFile :: string
  charCurrentFile :: string
  charCurrentMetaData :: string
  charCount :: string
  scByte :: string
  charRegValue :: string
  fhout :: fh
  fileTime :: int
  fileDate :: tm
  falseGPS :: bool
  mtd_seconds :: int
  mtd_bl :: "int \<times> int"
  mtd_bl2 :: "int \<times> int"
  mtd_iBin :: int
  mtd_cbl :: int
  mtd_dp :: int
  mtd_cdp :: int
  mtd_pulse_cnt :: int
  mtd_pulse_pnt :: int
  cma_mem :: "int \<Rightarrow> u16"
  irqs :: "irq list"
  spawned :: bool

definition MAXCHRLEN :: nat where "MAXCHRLEN = 1024"
definition MAXFILENAMELEN :: nat where "MAXFILENAMELEN = 255"
definition DATAVERSION :: int where "DATAVERSION = 5"
definition VERSION :: int where "VERSION = 2"
definition REVISION :: int where "REVISION = 0"
definition EXP :: string where "EXP = ''LAGO''"

section \<open>Copying strings\<close>

text \<open>\<^verbatim>\<open>strncpy(szDst, szSrc, cchDst - 1); szDst[cchDst - 1] = '\0'\<close> on the array \<open>dst\<close>.\<close>

definition StrcpyS :: "string \<Rightarrow> nat \<Rightarrow> string \<Rightarrow> string" where
  "StrcpyS dst n src =
     (if 0 < n then take (n - 1) (src @ replicate (n - 1) NUL) @ [NUL] @ drop n dst else dst)"

text \<open>The C string the array then holds.\<close>

definition strcpys :: "nat \<Rightarrow> string \<Rightarrow> string" where
  "strcpys n src = take (n - 1) src"

section \<open>Usage\<close>

abbreviation tab :: string where "tab \<equiv> [CHR 0x09]"

definition usage_text :: "string \<Rightarrow> string" where
  "usage_text progname =
     nl @ tab @ ''The LAGO ACQUA suite'' @ nl @
     tab @ ''Data acquisition system for the LAGO BRC electronic'' @ nl @
     tab @ ''(c) 2012-Today, The LAGO Project, http://lagoproject.net'' @ nl @
     tab @ ''(c) 2012, LabDPR, http://labdpr.cab.cnea.gov.ar'' @ nl @
     nl @ tab @ ''The LAGO Project, lago@lagoproject.org'' @ nl @
     nl @ tab @ ''DPR Lab. 2021'' @ nl @
     tab @ ''H. Arnaldi, lharnaldi@gmail.com'' @ nl @
     tab @ ''X. Bertou, bertou@gmail.com'' @ nl @
     tab @ EXP @ '' v'' @ fmt_d VERSION @ ''r'' @ fmt_d REVISION @ '' comms soft'' @ nl @ nl @
     ''Usage: '' @ progname @ '' <action> <register> <value> [options]'' @ nl @
     nl @ tab @ ''Actions:'' @ nl @
     tab @ ''-a'' @ tab @ tab @ tab @ tab @ ''Get all registers status'' @ nl @
     tab @ ''-s'' @ tab @ tab @ tab @ tab @ ''Set registers'' @ nl @
     tab @ ''-f'' @ tab @ tab @ tab @ tab @ ''Start DAQ and save data to file'' @ nl @
     tab @ ''-o'' @ tab @ tab @ tab @ tab @ ''Start DAQ and send data to stdout'' @ nl @
     tab @ ''-g'' @ tab @ tab @ tab @ tab @ ''Get GPS data'' @ nl @
     tab @ ''-t'' @ tab @ tab @ tab @ tab @ ''Get Pressure and Temperature data'' @ nl @
     tab @ ''-i'' @ tab @ tab @ tab @ tab @ ''Initialise registers to default values'' @ nl @
     tab @ ''-x'' @ tab @ tab @ tab @ tab @ ''Read the voltage in the XADC channels'' @ nl @
     tab @ ''-v'' @ tab @ tab @ tab @ tab @ ''Show DAQ version'' @ nl @
     nl @ tab @ ''Registers:'' @ nl @
     tab @ ''t1, t2'' @ tab @ tab @ tab @ tab @ ''Specify triggers 1 and 2'' @ nl @
     tab @ ''sc1, sc2'' @ tab @ tab @ tab @ ''Specify scaling factor 1 and 2'' @ nl @
     tab @ ''hv1, hv2'' @ tab @ tab @ tab @ ''Specify high voltages'' @ nl @
     tab @ ''ov1, ov2, ov3, ov4'' @ tab @ tab @ ''Specify output voltages'' @ nl @
     nl @ tab @ ''Options:'' @ nl @
     tab @ ''-f <filename>'' @ tab @ tab @ tab @ ''Specify file name'' @ nl @
     nl @ nl"

definition show_usage :: "string \<Rightarrow> ('a lago_scheme, unit) io" where
  "show_usage progname =
     bnd (gets fshowversion) (\<lambda>v.
     puts_out (if v then ''LAGO ACQUA BRC v'' @ fmt_d VERSION @ ''r'' @ fmt_d REVISION @ '' data v'' @ fmt_d DATAVERSION @ nl
               else usage_text progname))"

section \<open>Parsing\<close>

definition argv_at :: "string list \<Rightarrow> nat \<Rightarrow> ('s, string) io" where
  "argv_at argv i = (if i < length argv then ret (argv ! i) else halt Fault)"

definition reset_flags :: "'a lago_scheme \<Rightarrow> 'a lago_scheme" where
  "reset_flags s = s
     \<lparr>fReadReg := False, fWriteReg := False, fGetCfgStatus := False, fSetCfgReg := False, fToFile := False,
      fToStdout := False, fGetPT := False, fGetGPS := False, fFile := False, fCount := False, fByte := False,
      fData := False, fRegValue := False, fGetXADC := False\<rparr>"

definition set_register :: "string \<Rightarrow> u32 option" where
  "set_register r =
     (if r = ''t1'' then Some (cfg_off TRLVL_1)
      else if r = ''t2'' then Some (cfg_off TRLVL_2)
      else if r = ''st1'' then Some (cfg_off STRLVL_1)
      else if r = ''st2'' then Some (cfg_off STRLVL_2)
      else if r = ''hv1'' then Some (cfg_off HV1)
      else if r = ''hv2'' then Some (cfg_off HV2)
      else if r = ''ov1'' then Some (cfg_off HV1)
      else if r = ''ov2'' then Some (cfg_off HV2)
      else if r = ''ov3'' then Some (cfg_off HV3)
      else if r = ''ov4'' then Some (cfg_off HV4)
      else if r = ''sc1'' then Some (cfg_off TR_SCAL_A)
      else if r = ''sc2'' then Some (cfg_off TR_SCAL_B)
      else None)"

definition device_number :: "string \<Rightarrow> int option" where
  "device_number r =
     (if r = ''intc'' then Some 0 else if r = ''cfg'' then Some 1
      else if r = ''sts'' then Some 2 else if r = ''xadc'' then Some 3 else None)"

text \<open>Lines 492-513: a single register, for \<^verbatim>\<open>-r\<close> and \<^verbatim>\<open>-w\<close>.\<close>

definition parse_single :: "string list \<Rightarrow> ('a lago_scheme, int) io" where
  "parse_single argv =
     bnd (argv_at argv 2) (\<lambda>a. let reg = strcpys MAXCHRLEN a in
     thn (modify (\<lambda>s. s\<lparr>charReg := reg\<rparr>))
     (case device_number reg of None \<Rightarrow> ret 0
      | Some n \<Rightarrow>
          thn (modify (\<lambda>s. s\<lparr>n_dev := n\<rparr>))
         (bnd (argv_at argv 3) (\<lambda>b.
          thn (modify (\<lambda>s. s\<lparr>reg_off := strtoul 16 b\<rparr>))
         (bnd (gets fWriteReg) (\<lambda>w.
          if w then bnd (argv_at argv 4) (\<lambda>c. thn (modify (\<lambda>s. s\<lparr>reg_val := strtoul 16 c\<rparr>)) (ret 1))
          else ret 1))))))"

text \<open>Lines 515-573: a named configuration register, for \<^verbatim>\<open>-s\<close>.\<close>

definition parse_set :: "string list \<Rightarrow> ('a lago_scheme, int) io" where
  "parse_set argv =
     bnd (argv_at argv 2) (\<lambda>a. let reg = strcpys MAXCHRLEN a in
     thn (modify (\<lambda>s. s\<lparr>charReg := reg\<rparr>))
     (case set_register reg of None \<Rightarrow> ret 0
      | Some off \<Rightarrow>
          thn (modify (\<lambda>s. s\<lparr>reg_off := off\<rparr>))
         (bnd (argv_at argv 3) (\<lambda>b. let val = strcpys 16 b in
          thn (modify (\<lambda>s. s\<lparr>charRegValue := val\<rparr>))
         (thn (whn (take 2 reg = ''hv'' \<or> take 2 reg = ''ov'')
                (if 2500 < atoi val
                 then thn (puts_out (''Error: maximum voltage is 2500 mV'' @ nl)) (halt (Exit 1))
                 else modify (\<lambda>s. s\<lparr>fRegValue := True\<rparr>)))
              (ret 1))))))"

text \<open>Lines 583-640: the options after the register.\<close>

definition options_checked :: "('a lago_scheme, int) io" where
  "options_checked =
     bnd (gets (\<lambda>s. fWriteReg s \<and> \<not> fByte s)) (\<lambda>nb.
     bnd (gets (\<lambda>s. fToFile s \<and> \<not> fFile s)) (\<lambda>nf.
     if nb then thn (puts_out (''Error: No byte value provided'' @ nl)) (ret 0)
     else if nf then thn (puts_out (''Error: No filename provided'' @ nl)) (ret 0)
     else ret 1))"

fun parse_options :: "string list \<Rightarrow> ('a lago_scheme, int) io" where
  "parse_options [] = options_checked"
| "parse_options [a] = ret 0"
| "parse_options (a # v # rest) =
     (if a = ''-f'' then thn (modify (\<lambda>s. s\<lparr>charFile := strcpys 16 v, fFile := True\<rparr>)) (parse_options rest)
      else if a = ''-c'' then thn (modify (\<lambda>s. s\<lparr>charCount := strcpys 16 v, fCount := True\<rparr>)) (parse_options rest)
      else if a = ''-b'' then thn (modify (\<lambda>s. s\<lparr>scByte := strcpys 16 v, fByte := True\<rparr>)) (parse_options rest)
      else ret 0)"

definition parse_target :: "string list \<Rightarrow> ('a lago_scheme, int) io" where
  "parse_target argv =
     bnd (gets (\<lambda>s. fReadReg s \<or> fWriteReg s)) (\<lambda>single.
     bnd (gets fSetCfgReg) (\<lambda>st.
     bnd (gets fToFile) (\<lambda>tofile.
     if single then parse_single argv
     else if st then parse_set argv
     else if tofile then
       (if 2 < length argv
        then thn (modify (\<lambda>s. s\<lparr>charFile := strcpys MAXFILENAMELEN (argv ! 2), fFile := True\<rparr>)) (ret 1)
        else ret 0)
     else bnd (argv_at argv 2) (\<lambda>a.
          thn (modify (\<lambda>s. s\<lparr>scRegister := strcpys MAXCHRLEN a\<rparr>)) (parse_options (drop 3 argv))))))"

definition parse_param :: "string list \<Rightarrow> ('a lago_scheme, int) io" where
  "parse_param argv =
     thn (modify reset_flags)
     (if length argv < 2 then ret 0
      else bnd (argv_at argv 1) (\<lambda>a. let act = strcpys MAXCHRLEN a in
        thn (modify (\<lambda>s. s\<lparr>charAction := act\<rparr>))
        (if act = ''-r'' then thn (modify (\<lambda>s. s\<lparr>fReadReg := True\<rparr>)) (parse_target argv)
         else if act = ''-w'' then thn (modify (\<lambda>s. s\<lparr>fWriteReg := True\<rparr>)) (parse_target argv)
         else if act = ''-a'' then thn (modify (\<lambda>s. s\<lparr>fGetCfgStatus := True\<rparr>)) (ret 1)
         else if act = ''-v'' then thn (modify (\<lambda>s. s\<lparr>fshowversion := True\<rparr>)) (ret 0)
         else if act = ''-s'' then thn (modify (\<lambda>s. s\<lparr>fSetCfgReg := True\<rparr>)) (parse_target argv)
         else if act = ''-f'' then thn (modify (\<lambda>s. s\<lparr>fToFile := True\<rparr>)) (parse_target argv)
         else if act = ''-o'' then thn (modify (\<lambda>s. s\<lparr>fToStdout := True\<rparr>)) (ret 1)
         else if act = ''-t'' then thn (modify (\<lambda>s. s\<lparr>fGetPT := True\<rparr>)) (ret 1)
         else if act = ''-g'' then thn (modify (\<lambda>s. s\<lparr>fGetGPS := True\<rparr>)) (ret 1)
         else if act = ''-i'' then thn (modify (\<lambda>s. s\<lparr>fInitSystem := True\<rparr>)) (ret 1)
         else if act = ''-x'' then thn (modify (\<lambda>s. s\<lparr>fGetXADC := True\<rparr>)) (ret 1)
         else ret 0)))"

section \<open>The copied string\<close>

lemma cstr_append: "NUL \<notin> set xs \<Longrightarrow> cstr (xs @ NUL # ys) = xs"
  unfolding cstr_def by (subst takeWhile_all) auto

lemma cstr_replicate: "NUL \<notin> set xs \<Longrightarrow> cstr (xs @ replicate k NUL @ NUL # ys) = xs"
  by (cases k) (simp_all add: cstr_append)

lemma length_StrcpyS: "n \<le> length dst \<Longrightarrow> length (StrcpyS dst n src) = length dst"
  by (auto simp: StrcpyS_def)

lemma drop_StrcpyS: "0 < n \<Longrightarrow> drop n (StrcpyS dst n src) = drop n dst"
proof -
  assume n: "0 < n"
  define h where "h = take (n - 1) (src @ replicate (n - 1) NUL) @ [NUL]"
  then have "length h = n" using n by simp
  moreover have "StrcpyS dst n src = h @ drop n dst" using n by (simp add: StrcpyS_def h_def)
  ultimately show ?thesis by simp
qed

lemma StrcpyS_string:
  assumes "0 < n" "NUL \<notin> set src"
  shows "cstr (StrcpyS dst n src) = strcpys n src"
proof -
  have "take (n - 1) (src @ replicate (n - 1) NUL) = take (n - 1) src @ replicate (n - 1 - length src) NUL"
    by simp
  moreover have "NUL \<notin> set (take (n - 1) src)" using assms(2) by (meson in_set_takeD)
  ultimately show ?thesis
    using assms(1) cstr_replicate [of "take (n - 1) src" "n - 1 - length src" "drop n dst"]
    by (simp add: StrcpyS_def strcpys_def)
qed

section \<open>The action flags\<close>

definition actions :: "'a lago_scheme \<Rightarrow> bool list" where
  "actions s = [fReadReg s, fWriteReg s, fSetCfgReg s, fGetCfgStatus s, fGetPT s, fGetGPS s, fInitSystem s, fGetXADC s,
     fToFile s, fToStdout s]"

lemma argv_if: "argv_at argv i = (if length argv \<le> i then halt Fault else ret (argv ! i))"
  by (simp add: argv_at_def not_less)

text \<open>The three parts of the command line that follow an action, as functions of the state.\<close>

lemma parse_target_cases:
  "parse_target argv s =
     (if fReadReg s \<or> fWriteReg s then parse_single argv s
      else if fSetCfgReg s then parse_set argv s
      else if fToFile s then
        (if 2 < length argv then Done 1 (s\<lparr>charFile := strcpys MAXFILENAMELEN (argv ! 2), fFile := True\<rparr>) else Done 0 s)
      else bnd (argv_at argv 2) (\<lambda>a. thn (modify (\<lambda>s. s\<lparr>scRegister := strcpys MAXCHRLEN a\<rparr>)) (parse_options (drop 3 argv))) s)"
  by (simp add: parse_target_def)

lemma parse_single_app:
  "parse_single argv s =
     (if length argv \<le> 2 then Stopped Fault s
      else let s1 = s\<lparr>charReg := strcpys MAXCHRLEN (argv ! 2)\<rparr> in
      case device_number (strcpys MAXCHRLEN (argv ! 2)) of None \<Rightarrow> Done 0 s1
      | Some n \<Rightarrow>
          let s2 = s1\<lparr>n_dev := n\<rparr> in
          if length argv \<le> 3 then Stopped Fault s2
          else let s3 = s2\<lparr>reg_off := strtoul 16 (argv ! 3)\<rparr> in
            if \<not> fWriteReg s then Done 1 s3
            else if length argv \<le> 4 then Stopped Fault s3
            else Done 1 (s3\<lparr>reg_val := strtoul 16 (argv ! 4)\<rparr>))"
  by (cases "device_number (strcpys MAXCHRLEN (argv ! 2))")
    (simp_all only: parse_single_def argv_if io_eval option.case Let_def, simp_all)

definition is_voltage :: "string \<Rightarrow> bool" where
  "is_voltage r \<longleftrightarrow> take 2 r = ''hv'' \<or> take 2 r = ''ov''"

lemma parse_set_app:
  "parse_set argv s =
     (if length argv \<le> 2 then Stopped Fault s
      else let r = strcpys MAXCHRLEN (argv ! 2); s1 = s\<lparr>charReg := r\<rparr> in
      case set_register r of None \<Rightarrow> Done 0 s1
      | Some off \<Rightarrow>
          let s2 = s1\<lparr>reg_off := off\<rparr> in
          if length argv \<le> 3 then Stopped Fault s2
          else let v = strcpys 16 (argv ! 3); s3 = s2\<lparr>charRegValue := v\<rparr> in
            if \<not> is_voltage r then Done 1 s3
            else if 2500 < atoi v then Stopped (Exit 1) (s3\<lparr>out := out s3 @ ''Error: maximum voltage is 2500 mV'' @ nl\<rparr>)
            else Done 1 (s3\<lparr>fRegValue := True\<rparr>))"
  by (cases "set_register (strcpys MAXCHRLEN (argv ! 2))")
    (simp_all only: parse_set_def argv_if io_eval puts_out_def option.case Let_def is_voltage_def, simp_all)

definition with_action :: "string list \<Rightarrow> 'a lago_scheme \<Rightarrow> 'a lago_scheme" where
  "with_action argv s = (reset_flags s)\<lparr>charAction := strcpys MAXCHRLEN (argv ! 1)\<rparr>"

lemma parse_param_app:
  "parse_param argv s =
     (if length argv < 2 then Done 0 (reset_flags s)
      else let act = strcpys MAXCHRLEN (argv ! 1); t = with_action argv s in
         if act = ''-r'' then parse_single argv (t\<lparr>fReadReg := True\<rparr>)
         else if act = ''-w'' then parse_single argv (t\<lparr>fWriteReg := True\<rparr>)
         else if act = ''-a'' then Done 1 (t\<lparr>fGetCfgStatus := True\<rparr>)
         else if act = ''-v'' then Done 0 (t\<lparr>fshowversion := True\<rparr>)
         else if act = ''-s'' then parse_set argv (t\<lparr>fSetCfgReg := True\<rparr>)
         else if act = ''-f'' then
            (if 2 < length argv then Done 1 (t\<lparr>fToFile := True, charFile := strcpys MAXFILENAMELEN (argv ! 2), fFile := True\<rparr>)
             else Done 0 (t\<lparr>fToFile := True\<rparr>))
         else if act = ''-o'' then Done 1 (t\<lparr>fToStdout := True\<rparr>)
         else if act = ''-t'' then Done 1 (t\<lparr>fGetPT := True\<rparr>)
         else if act = ''-g'' then Done 1 (t\<lparr>fGetGPS := True\<rparr>)
         else if act = ''-i'' then Done 1 (t\<lparr>fInitSystem := True\<rparr>)
         else if act = ''-x'' then Done 1 (t\<lparr>fGetXADC := True\<rparr>)
         else Done 0 t)"
proof -
  have target: "parse_target argv (t\<lparr>fReadReg := True\<rparr>) = parse_single argv (t\<lparr>fReadReg := True\<rparr>)"
    "parse_target argv (t\<lparr>fWriteReg := True\<rparr>) = parse_single argv (t\<lparr>fWriteReg := True\<rparr>)" for t :: "'a lago_scheme"
    by (simp_all add: parse_target_cases)
  have target': "parse_target argv ((with_action argv s)\<lparr>fSetCfgReg := True\<rparr>) = parse_set argv ((with_action argv s)\<lparr>fSetCfgReg := True\<rparr>)"
    "parse_target argv ((with_action argv s)\<lparr>fToFile := True\<rparr>) =
       (if 2 < length argv
        then Done 1 ((with_action argv s)\<lparr>fToFile := True, charFile := strcpys MAXFILENAMELEN (argv ! 2), fFile := True\<rparr>)
        else Done 0 ((with_action argv s)\<lparr>fToFile := True\<rparr>))"
    by (simp_all add: parse_target_cases with_action_def reset_flags_def)
  show ?thesis
  proof (cases "length argv < 2")
    case True
    then show ?thesis by (simp add: parse_param_def)
  next
    case False
    then have "1 < length argv" by simp
    with False show ?thesis
      by (simp only: parse_param_def argv_at_def if_True io_eval Let_def if_False target target' flip: with_action_def)
  qed
qed

lemma actions_with_action [simp]:
  "actions (with_action argv s) = [False, False, False, False, False, False, fInitSystem s, False, False, False]"
  by (simp add: actions_def with_action_def reset_flags_def)


lemma parse_single_actions: "parse_single argv t = Done r t' \<Longrightarrow> actions t' = actions t"
  unfolding parse_single_app actions_def Let_def
  by (auto split: if_splits option.splits)

lemma parse_set_actions: "parse_set argv t = Done r t' \<Longrightarrow> actions t' = actions t"
  unfolding parse_set_app actions_def Let_def
  by (auto split: if_splits option.splits)


text \<open>The variables of the options part, which no command line reaches.\<close>

definition options_of :: "'a lago_scheme \<Rightarrow> string \<times> string \<times> string \<times> bool \<times> bool" where
  "options_of s = (scRegister s, charCount s, scByte s, fCount s, fByte s)"

lemma parse_single_options: "parse_single argv t = Done r t' \<Longrightarrow> options_of t' = options_of t"
  unfolding parse_single_app options_of_def Let_def
  by (auto split: if_splits option.splits)

lemma parse_set_options: "parse_set argv t = Done r t' \<Longrightarrow> options_of t' = options_of t"
  unfolding parse_set_app options_of_def Let_def
  by (auto split: if_splits option.splits)

lemma parse_result: "parse_single argv t = Done r t' \<Longrightarrow> r = 0 \<or> r = 1" "parse_set argv t = Done r t' \<Longrightarrow> r = 0 \<or> r = 1"
  unfolding parse_single_app parse_set_app Let_def by (auto split: if_splits option.splits)

definition one_action :: "'a lago_scheme \<Rightarrow> bool" where
  "one_action s \<longleftrightarrow> length (filter id (actions s)) = 1"

lemma one_action_with_action:
  assumes "\<not> fInitSystem s"
  shows "one_action ((with_action argv s)\<lparr>fReadReg := True\<rparr>)" "one_action ((with_action argv s)\<lparr>fWriteReg := True\<rparr>)"
    "one_action ((with_action argv s)\<lparr>fSetCfgReg := True\<rparr>)" "one_action ((with_action argv s)\<lparr>fGetCfgStatus := True\<rparr>)"
    "one_action ((with_action argv s)\<lparr>fToFile := True, charFile := f, fFile := True\<rparr>)" "one_action ((with_action argv s)\<lparr>fToStdout := True\<rparr>)"
    "one_action ((with_action argv s)\<lparr>fGetPT := True\<rparr>)" "one_action ((with_action argv s)\<lparr>fGetGPS := True\<rparr>)"
    "one_action ((with_action argv s)\<lparr>fInitSystem := True\<rparr>)" "one_action ((with_action argv s)\<lparr>fGetXADC := True\<rparr>)"
  using assms by (simp_all add: one_action_def actions_def with_action_def reset_flags_def)

lemma parse_param_one:
  assumes "\<not> fInitSystem s"
  shows "returns (\<lambda>r t. r \<noteq> 0 \<longrightarrow> one_action t) (parse_param argv s)"
proof -
  have keep: "one_action u \<Longrightarrow> returns (\<lambda>r t. r \<noteq> 0 \<longrightarrow> one_action t) (parse_single argv u)"
    "one_action u \<Longrightarrow> returns (\<lambda>r t. r \<noteq> 0 \<longrightarrow> one_action t) (parse_set argv u)" for u :: "'a lago_scheme"
    unfolding returns_def one_action_def by (metis parse_single_actions, metis parse_set_actions)
  show ?thesis
    unfolding parse_param_app Let_def
    by (intro returns_if keep one_action_with_action assms) (simp_all add: one_action_with_action [OF assms])
qed

lemma parse_param_options:
  assumes "parse_param argv s = Done r t"
  shows "options_of t = (scRegister s, charCount s, scByte s, False, False)"
proof -
  have w: "options_of (with_action argv s) = (scRegister s, charCount s, scByte s, False, False)"
    "options_of (reset_flags s) = (scRegister s, charCount s, scByte s, False, False)"
    by (simp_all add: options_of_def with_action_def reset_flags_def)
  have f: "options_of (u\<lparr>fReadReg := b\<rparr>) = options_of u" "options_of (u\<lparr>fWriteReg := b\<rparr>) = options_of u"
    "options_of (u\<lparr>fSetCfgReg := b\<rparr>) = options_of u" "options_of (u\<lparr>fGetCfgStatus := b\<rparr>) = options_of u"
    "options_of (u\<lparr>fToFile := b, charFile := c, fFile := b\<rparr>) = options_of u" "options_of (u\<lparr>fToFile := b\<rparr>) = options_of u" "options_of (u\<lparr>fToStdout := b\<rparr>) = options_of u"
    "options_of (u\<lparr>fGetPT := b\<rparr>) = options_of u" "options_of (u\<lparr>fGetGPS := b\<rparr>) = options_of u"
    "options_of (u\<lparr>fInitSystem := b\<rparr>) = options_of u" "options_of (u\<lparr>fGetXADC := b\<rparr>) = options_of u"
    "options_of (u\<lparr>fshowversion := b\<rparr>) = options_of u" for u :: "'a lago_scheme" and b c
    by (simp_all add: options_of_def)
  show ?thesis
    using assms unfolding parse_param_app Let_def
    by (auto split: if_splits dest!: parse_single_options parse_set_options simp: f w)
qed

lemma parse_param_result: "parse_param argv s = Done r t \<Longrightarrow> r = 0 \<or> r = 1"
  unfolding parse_param_app Let_def by (auto split: if_splits dest: parse_result)

text \<open>The command lines on which an argument is missing where one is copied or converted.\<close>

definition missing_argument :: "string list \<Rightarrow> bool" where
  "missing_argument argv \<longleftrightarrow>
     2 \<le> length argv \<and>
     (let n = length argv; act = strcpys MAXCHRLEN (argv ! 1); r = strcpys MAXCHRLEN (argv ! 2)
      in (act = ''-r'' \<or> act = ''-w'') \<and> (n = 2 \<or> device_number r \<noteq> None \<and> (n = 3 \<or> act = ''-w'' \<and> n = 4))
       \<or> act = ''-s'' \<and> (n = 2 \<or> set_register r \<noteq> None \<and> n = 3))"

definition excess_voltage :: "string list \<Rightarrow> bool" where
  "excess_voltage argv \<longleftrightarrow>
     4 \<le> length argv \<and> strcpys MAXCHRLEN (argv ! 1) = ''-s'' \<and> set_register (strcpys MAXCHRLEN (argv ! 2)) \<noteq> None \<and>
     is_voltage (strcpys MAXCHRLEN (argv ! 2)) \<and> 2500 < atoi (strcpys 16 (argv ! 3))"

lemma parse_single_stop:
  "2 \<le> length argv \<Longrightarrow> stop_of (parse_single argv t) =
     (if length argv = 2 \<or> device_number (strcpys MAXCHRLEN (argv ! 2)) \<noteq> None \<and> (length argv = 3 \<or> fWriteReg t \<and> length argv = 4)
      then Some Fault else None)"
  unfolding parse_single_app Let_def by (auto split: option.split)

lemma parse_set_stop:
  "2 \<le> length argv \<Longrightarrow> stop_of (parse_set argv t) =
     (if length argv = 2 \<or> set_register (strcpys MAXCHRLEN (argv ! 2)) \<noteq> None \<and> length argv = 3 then Some Fault
      else if set_register (strcpys MAXCHRLEN (argv ! 2)) \<noteq> None \<and> is_voltage (strcpys MAXCHRLEN (argv ! 2)) \<and> 2500 < atoi (strcpys 16 (argv ! 3))
      then Some (Exit 1) else None)"
  unfolding parse_set_app Let_def by (auto split: option.split)

lemma parse_param_stop:
  "stop_of (parse_param argv s) =
     (if missing_argument argv then Some Fault else if excess_voltage argv then Some (Exit 1) else None)"
proof (cases "length argv < 2")
  case True
  then show ?thesis by (simp add: parse_param_app missing_argument_def excess_voltage_def)
next
  case False
  have w: "\<not> fWriteReg ((with_action argv s)\<lparr>fReadReg := True\<rparr>)" by (simp add: with_action_def reset_flags_def)
  have n: "length argv \<noteq> 2 \<Longrightarrow> length argv \<noteq> 3 \<Longrightarrow> 4 \<le> length argv" "2 \<le> length argv" using False by simp_all
  let ?a = "strcpys MAXCHRLEN (argv ! 1)"
  consider "?a = ''-r''" | "?a = ''-w''" | "?a = ''-s''" | "?a \<noteq> ''-r''" "?a \<noteq> ''-w''" "?a \<noteq> ''-s''" by blast
  then show ?thesis
  proof cases
    case 1
    with False n w show ?thesis by (simp add: parse_param_app parse_single_stop missing_argument_def excess_voltage_def)
  next
    case 2
    with False n show ?thesis by (simp add: Let_def parse_param_app parse_single_stop missing_argument_def excess_voltage_def)
  next
    case 3
    with False n show ?thesis by (auto simp: parse_param_app parse_set_stop missing_argument_def excess_voltage_def)
  next
    case 4
    with False show ?thesis by (simp add: parse_param_app missing_argument_def excess_voltage_def Let_def)
  qed
qed

section \<open>Properties\<close>

text \<open>The state of the program before its first statement, on the platform of the witnesses.\<close>

definition lago0 :: lago where
  "lago0 = uart_st.extend (bmp_st.extend bmp_st0 \<lparr>uart_fd = 0, uart_mode = None, uart_tx = []\<rparr>)
     \<lparr>interrupted = False, n_dev = 0, reg_off = 0, reg_val = 0, limit = 0, current = 0, position = 0, g_data = blank_loc bench,
      gps_lat = dbl 0, gps_lon = dbl 0, gps_alt = dbl 0, r1 = 0, r2 = 0, hack = 0, rates = (\<lambda>t. 0),
      fReadReg = False, fGetCfgStatus = False, fGetPT = False, fGetGPS = False, fGetXADC = False, fInitSystem = False,
      fWriteReg = False, fSetCfgReg = False, fToFile = False, fToStdout = False, fFile = False, fCount = False, fByte = False,
      fRegValue = False, fData = False, fFirstTime = True, fshowversion = False,
      charAction = [], scRegister = [], charReg = [], charFile = [], charCurrentFile = [], charCurrentMetaData = [],
      charCount = [], scByte = [], charRegValue = [], fhout = No_File, fileTime = 0,
      fileDate = gmtime 0, falseGPS = False, mtd_seconds = 0, mtd_bl = (0, 0), mtd_bl2 = (0, 0), mtd_iBin = 0, mtd_cbl = 0,
      mtd_dp = 0, mtd_cdp = 0, mtd_pulse_cnt = 0, mtd_pulse_pnt = 0, cma_mem = (\<lambda>i. 0), irqs = [], spawned = False\<rparr>"

lemmas lago0_defs = lago0_def uart_st.extend_def bmp_st.extend_def bmp_st0_def zynq.extend_def zynq0_def os.extend_def os0_def

text \<open>
  \<^verbatim>\<open>StrcpyS\<close> copies safely: into an array of at least \<open>n\<close> bytes it stores the first \<open>n - 1\<close> characters of the
  source as a terminated string, and changes neither the size of the array nor a byte at or after \<open>n\<close>.
\<close>

theorem StrcpyS_refines:
  assumes "0 < n" "n \<le> length dst" "NUL \<notin> set src"
  shows "cstr (StrcpyS dst n src) = strcpys n src \<and> length (StrcpyS dst n src) = length dst \<and>
    drop n (StrcpyS dst n src) = drop n dst"
  using StrcpyS_string [OF assms(1,3)] length_StrcpyS [OF assms(2)] drop_StrcpyS [OF assms(1)] by simp

theorem StrcpyS_refines_witness:
  "cstr (StrcpyS (replicate 6 (CHR ''#'')) 4 ''hv1234'') = ''hv1'' \<and> length (StrcpyS (replicate 6 (CHR ''#'')) 4 ''hv1234'') = 6 \<and>
    drop 4 (StrcpyS (replicate 6 (CHR ''#'')) 4 ''hv1234'') = ''##''"
  using StrcpyS_refines [of 4 "replicate 6 (CHR ''#'')" "''hv1234''"] by (simp add: strcpys_def numeral_eq_Suc)

text \<open>
  (C26) An accepted command line selects exactly one action: \<^verbatim>\<open>parse_param\<close> returns 0 or 1; when it returns 1, exactly one
  of the ten action flags is set (none was set by an earlier \<^verbatim>\<open>-i\<close>); and no command line, accepted or not, changes a
  variable of the \<^verbatim>\<open>-f\<close>, \<^verbatim>\<open>-c\<close>, \<^verbatim>\<open>-b\<close> options: that part of the parser is never reached.
\<close>

theorem parse_param_action:
  assumes "parse_param argv s = Done r t" "\<not> fInitSystem s"
  shows "(r = 0 \<or> r = 1) \<and> (r = 1 \<longrightarrow> one_action t) \<and>
    options_of t = (scRegister s, charCount s, scByte s, False, False)"
  using parse_param_result [OF assms(1)] returnsD [OF parse_param_one [OF assms(2)] assms(1)] parse_param_options [OF assms(1)]
  by simp

theorem parse_param_action_witness:
  "\<exists>t. parse_param [''lago'', ''-f'', ''run7''] lago0 = Done 1 t \<and> one_action t \<and> charFile t = ''run7'' \<and> \<not> fCount t"
proof -
  obtain t where e: "parse_param [''lago'', ''-f'', ''run7''] lago0 = Done 1 t" "charFile t = ''run7''"
    by (simp add: parse_param_app with_action_def strcpys_def MAXCHRLEN_def MAXFILENAMELEN_def numeral_eq_Suc)
  moreover have "\<not> fInitSystem lago0" by (simp add: lago0_defs)
  ultimately show ?thesis using parse_param_action [OF e(1)] by (auto simp: options_of_def)
qed

text \<open>
  (C27) Every command line, and how \<^verbatim>\<open>parse_param\<close> ends on it: it reads through the null pointer after the last argument
  exactly when an argument that is copied or converted is missing, it terminates the program with status 1 exactly when a
  voltage above 2500 mV is requested, and it returns otherwise.
\<close>

theorem parse_param_stops:
  "stop_of (parse_param argv s) =
     (if missing_argument argv then Some Fault else if excess_voltage argv then Some (Exit 1) else None)"
  by (rule parse_param_stop)

end
