(* ===== verification/Lago_File.thy ===== *)
theory Lago_File
  imports Lago_Args
begin

text \<open>
  The data files of \<^verbatim>\<open>lago.c\<close>: \<^verbatim>\<open>new_file\<close> closes the current file, normalises the date, opens the file of the
  hour and writes the header.  A file is the text appended to its path; a failed \<^verbatim>\<open>fopen\<close> leaves \<^verbatim>\<open>fhout\<close> NULL,
  and the next \<^verbatim>\<open>fprintf\<close> faults.
\<close>

definition fput :: "string \<Rightarrow> ('a lago_scheme, unit) io" where
  "fput t =
     bnd (gets fhout) (\<lambda>f. case f of
       No_File \<Rightarrow> halt Fault
     | Stdout \<Rightarrow> puts_out t
     | Data_File p \<Rightarrow> modify (\<lambda>s. s\<lparr>files := (files s)(p := files s p @ t)\<rparr>))"

definition fput_cfg :: "env \<Rightarrow> cfg_reg \<Rightarrow> (u32 \<Rightarrow> string) \<Rightarrow> ('a lago_scheme, unit) io" where
  "fput_cfg E r f = bnd (cfg_read E (cfg_off r)) (\<lambda>v. fput (f v))"

text \<open>\<^verbatim>\<open>fileTime = timegm(fileDate); fileDate = gmtime(&fileTime);\<close>\<close>

definition normalise_date :: "('a lago_scheme, unit) io" where
  "normalise_date = modify (\<lambda>s. let t = timegm (fileDate s) in s\<lparr>fileTime := t, fileDate := gmtime t\<rparr>)"

definition date_stamp :: "tm \<Rightarrow> string" where
  "date_stamp d =
     fmt_0d 4 (tm_year d + 1900) @ ''_'' @ fmt_0d 2 (tm_mon d + 1) @ ''_'' @ fmt_0d 2 (tm_mday d) @ ''_'' @
     fmt_0d 2 (tm_hour d) @ ''h00''"

definition data_name :: "string \<Rightarrow> bool \<Rightarrow> tm \<Rightarrow> string \<Rightarrow> string" where
  "data_name base nogps d ext =
     take (MAXCHRLEN - 1) (base @ (if nogps then ''_nogps_'' else ''_'') @ date_stamp d @ ext)"

definition open_data_file :: "env \<Rightarrow> ('a lago_scheme, unit) io" where
  "open_data_file E =
     thn normalise_date
    (thn (modify (\<lambda>s. s\<lparr>charCurrentFile := data_name (charFile s) (falseGPS s) (fileDate s) ''.dat'',
                        charCurrentMetaData := data_name (charFile s) (falseGPS s) (fileDate s) ''.mtd''\<rparr>))
    (thn (modify (\<lambda>s. s\<lparr>fhout := if os_fopen E (charCurrentFile s) then Data_File (charCurrentFile s) else No_File\<rparr>))
    (bnd (gets id) (\<lambda>s. puts_err (''Opening file '' @ charCurrentFile s @ '' at '' @ fmt_0d 2 (tm_hour (fileDate s)) @ ''h'' @
        fmt_0d 2 (tm_min (fileDate s)) @ '' for data taking'' @ nl)))))"

definition header_lines :: "string list" where
  "header_lines =
     [''# v '' @ fmt_d DATAVERSION,
      ''# #'',
      ''# # This is a '' @ EXP @ '' raw data file, version '' @ fmt_d DATAVERSION,
      ''# # It contains the following data:'',
      ''# #   <N1> <N2>        : line with values of the 2 ADC for a triggered pulse'',
      ''# #   # t <C> <V>      : end of a trigger'',
      ''# #                      gives the channel trigger (<C>: 3 bit mask) and 125 MHz clock count (<V>) of the trigger time'',
      ''# #   # c <C>          : internal trigger counter'',
      ''# #   # x f <V>        : 125 MHz frequency'',
      ''# #   # x t <V>        : temperature value'',
      ''# #   # x p <V>        : pressure value'',
      ''# #   # x r1 <V>       : pulse rate at channel 1'',
      ''# #   # x r2 <V>       : pulse rate at channel 2'',
      ''# #   # x h <HH:MM:SS> <DD/MM/YYYY> <S> : GPS time (every new second, last number is seconds since EPOCH)'',
      ''# #   # x s <T> C <P> hPa <A> m : temperature <T>, pressure <P> and altitude (from pressure) <A>'',
      ''# #   # x g <LAT> <LON> <ALT>   : GPS data - latitude, longitude, altitude'',
      ''# #   # x v <HV1> <HV2>         : HV voltages for channels 1 and 2'',
      ''# #   # x b <B1> <B2> <B3>      : baselines (NOT IMPLEMENTED IN LAGO)'',
      ''# # In case of error, an unfinished line will be finished by # E @@@'',
      ''# # Followed by a line with # E <N> and the error message in human readable format, where <N> is the error code:'',
      ''# #   # E 1 : read timeout of 2 seconds'',
      ''# #   # E 2 : too many buffer reading tries'',
      ''# #   # E 3 : unknown word from FPGA'',
      ''# #'',
      ''# # Current registers setting'',
      ''# #'']"

definition new_file :: "env \<Rightarrow> ('a lago_scheme, int) io" where
  "new_file E =
     bnd (sys_time E) (\<lambda>currt.
     bnd (gets fToStdout) (\<lambda>tostd.
     thn (whn (\<not> tostd) (open_data_file E))
    (thn (stmts (map (\<lambda>l. fput (l @ nl)) header_lines))
    (thn (stmts
       [fput_cfg E TRLVL_1 (\<lambda>v. ''# x c T1 '' @ fmt_d (sint v) @ nl),
        fput_cfg E TRLVL_2 (\<lambda>v. ''# x c T2 '' @ fmt_d (sint v) @ nl),
        fput_cfg E HV1 (\<lambda>v. ''# x c HV1 '' @ fmt_f 1 (dac_to_mv v) @ '' mV'' @ nl),
        fput_cfg E HV2 (\<lambda>v. ''# x c HV2 '' @ fmt_f 1 (dac_to_mv v) @ '' mV'' @ nl),
        fput_cfg E TR_SCAL_A (\<lambda>v. ''# x c SC1 '' @ fmt_d (sint v) @ nl),
        fput_cfg E TR_SCAL_B (\<lambda>v. ''# x c SC2 '' @ fmt_d (sint v) @ nl),
        fput (''# # This file was started on '' @ host_name E @ nl),
        fput (''# # Machine local time was '' @ ctime_r E currt),
        bnd (gets falseGPS) (\<lambda>g. whn g (fput (''# # WARNING, there is no GPS, using PC time'' @ nl))),
        fput (''# #'' @ nl)])
     (ret 0)))))"

end
