(* ===== verification/Lago_Reader.thy ===== *)
theory Lago_Reader
  imports Lago_File
begin

text \<open>
  The read-out of the sample buffer, \<^verbatim>\<open>read_buffer\<close> of \<^verbatim>\<open>lago.c\<close>.  The writer in the programmable logic fills a ring of
  32-bit words; the program remembers the last word it read (\<^verbatim>\<open>current\<close>) and prints every word up to the position
  of the writer.  The two top bits of a word select its kind: samples, trigger, counter, or a tagged record.
  A 32-bit \<^verbatim>\<open>long\<close> or \<^verbatim>\<open>int\<close> that is accumulated wraps (\<open>w32\<close>).  The samples are read once per call: the words between
  the two positions do not change while they are read.
\<close>

definition w32 :: "int \<Rightarrow> int" where
  "w32 x = sint (of_int x :: i32)"

section \<open>Memory\<close>

text \<open>\<^verbatim>\<open>*(cma_ptr + 2*i)\<close>: the index is computed in \<^verbatim>\<open>uint32_t\<close>; outside the mapped buffer the access faults.\<close>

definition half_index :: "u32 \<Rightarrow> int" where
  "half_index i = uint (2 * i)"

definition cma_ok :: "env \<Rightarrow> 'a lago_scheme \<Rightarrow> u32 \<Rightarrow> bool" where
  "cma_ok E s i \<longleftrightarrow>
     (case cma_ptr s of Mapped p b len \<Rightarrow> 2 * (half_index i + 1) + 2 \<le> page_round E len | _ \<Rightarrow> False)"

definition ch0_at :: "'a lago_scheme \<Rightarrow> u32 \<Rightarrow> i16" where
  "ch0_at s i = cma_mem s (half_index i)"

definition ch1_at :: "'a lago_scheme \<Rightarrow> u32 \<Rightarrow> i16" where
  "ch1_at s i = cma_mem s (half_index i + 1)"

definition word_of :: "i16 \<Rightarrow> i16 \<Rightarrow> u32" where
  "word_of lo hi = ucast lo OR push_bit 16 (ucast hi)"

section \<open>Samples, triggers and counters\<close>

text \<open>\<^verbatim>\<open>((ch>>13)<<14) + ((ch>>13)<<15) + ch\<close>, printed with \<open>%5hd\<close>.\<close>

definition sample_value :: "i16 \<Rightarrow> int" where
  "sample_value ch =
     (let c = sint ch; h = drop_bit 13 c in sint (of_int (push_bit 14 h + push_bit 15 h + c) :: i16))"

definition add_pair :: "int \<times> int \<Rightarrow> int \<Rightarrow> int \<Rightarrow> int \<times> int" where
  "add_pair p a b = (w32 (fst p + a), w32 (snd p + b))"

definition baseline :: "i16 \<Rightarrow> i16 \<Rightarrow> 'a lago_scheme \<Rightarrow> 'a lago_scheme" where
  "baseline c0 c1 s =
     (let s1 = s\<lparr>mtd_iBin := w32 (mtd_iBin s + 1)\<rparr>
      in if mtd_iBin s1 = 1
         then s1\<lparr>mtd_bl := add_pair (mtd_bl s1) (sint c0) (sint c1),
                 mtd_bl2 := add_pair (mtd_bl2 s1) (sint c0 * sint c0) (sint c1 * sint c1),
                 mtd_cbl := w32 (mtd_cbl s1 + 1)\<rparr>
         else s1)"

definition put_samples :: "i16 \<Rightarrow> i16 \<Rightarrow> ('a lago_scheme, unit) io" where
  "put_samples c0 c1 =
     thn (fput (fmt_wd 5 (sample_value c0) @ '' '' @ fmt_wd 5 (sample_value c1) @ nl))
         (modify (baseline c0 c1))"

definition trigger_id :: "u32 \<Rightarrow> u32" where
  "trigger_id wo = drop_bit 27 wo AND 7"

definition put_trigger :: "u32 \<Rightarrow> ('a lago_scheme, unit) io" where
  "put_trigger wo =
     thn (fput (''# t '' @ fmt_d (sint (trigger_id wo)) @ '' '' @ fmt_d (sint (wo AND 0x7FFFFFF)) @ nl))
         (modify (\<lambda>s. let t = nat (uint (trigger_id wo)) in s\<lparr>rates := (rates s)(t := w32 (rates s t + 1)), mtd_iBin := 0\<rparr>))"

definition count_pulse :: "int \<Rightarrow> 'a lago_scheme \<Rightarrow> 'a lago_scheme" where
  "count_pulse c s =
     (let pnt = mtd_pulse_cnt s; dp = w32 (c - pnt - 1)
      in s\<lparr>mtd_pulse_pnt := pnt, mtd_pulse_cnt := c, mtd_dp := dp,
           mtd_cdp := if 0 < dp \<and> pnt \<noteq> 0 then w32 (mtd_cdp s + dp) else mtd_cdp s\<rparr>)"

definition put_counter :: "u32 \<Rightarrow> ('a lago_scheme, unit) io" where
  "put_counter wo =
     (let c = uint (wo AND 0x3FFFFFFF)
      in thn (modify (count_pulse c)) (fput (''# c '' @ fmt_d c @ nl)))"

section \<open>Tagged records\<close>

definition volts_to_hv :: "flt \<Rightarrow> flt" where
  "volts_to_hv v = fdiv double_prec v (dlit 31949 (10 ^ 7))"

text \<open>Case 0x1B, without and with a GPS: the clock of the program is stepped, or set from the word.\<close>

definition step_false_gps :: "env \<Rightarrow> ('a lago_scheme, unit) io" where
  "step_false_gps E =
     thn (modify (\<lambda>s. s\<lparr>fileDate := (fileDate s)\<lparr>tm_sec := tm_sec (fileDate s) + 1\<rparr>\<rparr>))
    (bnd (gets fileDate) (\<lambda>d. bnd (gets fToStdout) (\<lambda>std.
     if tm_sec d = 60 \<and> tm_min d = 59 then whn (\<not> std) (thn (new_file E) (ret ())) else normalise_date)))"

definition step_gps :: "env \<Rightarrow> u32 \<Rightarrow> ('a lago_scheme, unit) io" where
  "step_gps E wo =
     (let h = drop_bit 16 wo AND 0xFF; m = drop_bit 8 wo AND 0xFF; sec = wo AND 0xFF in
      thn (bnd (gets (\<lambda>s. (of_int (tm_hour (fileDate s)) :: u32))) (\<lambda>hour. bnd (gets fToStdout) (\<lambda>std.
        whn (hour \<noteq> h)
          (thn (whn (h < hour) (modify (\<lambda>s. s\<lparr>fileDate := (fileDate s)\<lparr>tm_mday := tm_mday (fileDate s) + 1\<rparr>\<rparr>)))
          (thn (modify (\<lambda>s. s\<lparr>fileDate := (fileDate s)\<lparr>tm_hour := uint h\<rparr>\<rparr>))
               (whn (\<not> std) (thn (new_file E) (ret ()))))))))
          (modify (\<lambda>s. s\<lparr>fileDate := (fileDate s)\<lparr>tm_hour := uint h, tm_min := uint m, tm_sec := uint sec\<rparr>\<rparr>)))"

definition put_second :: "env \<Rightarrow> u32 \<Rightarrow> ('a lago_scheme, unit) io" where
  "put_second E wo =
     thn (bnd (gets falseGPS) (\<lambda>g. if g then step_false_gps E else step_gps E wo))
    (thn (modify (\<lambda>s. s\<lparr>mtd_seconds := w32 (mtd_seconds s + 1)\<rparr>))
    (thn normalise_date
    (thn (bnd (gets (\<lambda>s. (fileDate s, fileTime s))) (\<lambda>(d, t).
       fput (''# x h   '' @ fmt_0d 2 (tm_hour d) @ '':'' @ fmt_0d 2 (tm_min d) @ '':'' @ fmt_0d 2 (tm_sec d) @ '' '' @
             fmt_0d 2 (tm_mday d) @ ''/'' @ fmt_0d 2 (tm_mon d + 1) @ ''/'' @ fmt_0d 4 (tm_year d + 1900) @ '' '' @
             fmt_d t @ '' '' @ fmt_d (sint (wo AND 0x03FFFFFF)) @ nl)))
    (thn (bnd (get_voltage E XADC_AI2) (\<lambda>v2. bnd (get_voltage E XADC_AI3) (\<lambda>v3.
       fput (''# x v '' @ fmt_f 1 (volts_to_hv v2) @ '' '' @ fmt_f 1 (volts_to_hv v3) @ nl))))
    (thn (bnd (get_temp_AD592 E XADC_AI0) (\<lambda>t0. bnd (get_temp_AD592 E XADC_AI1) (\<lambda>t1. bnd (gets hack) (\<lambda>k.
       thn (modify (\<lambda>s. s\<lparr>hack := w32 (k + 1)\<rparr>))
           (fput (''# p '' @ fmt_u (uint (of_int k :: u32)) @ '' '' @ fmt_f 1 t0 @ '' '' @ fmt_f 1 t1 @ nl))))))
    (thn (bnd (gets hack) (\<lambda>k. whn (k smod 60 = 0) (puts_out nl)))
         (bnd (gets (\<lambda>s. (r1 s, r2 s, hack s))) (\<lambda>(a, b, k).
            puts_out (''rates '' @ fmt_wd 5 a @ '' '' @ fmt_wd 5 b @ '', PPS '' @ fmt_u (uint (of_int k :: u32)) @ ''        '' @ cr)))))))))"

text \<open>\<^verbatim>\<open>((int32_t)(wo&0xFFFFFF)<<8>>8)/65536.0\<close>\<close>

definition coordinate :: "u32 \<Rightarrow> flt" where
  "coordinate wo =
     fdiv double_prec (f_of_int double_prec (sint (signed_drop_bit 8 (push_bit 8 (wo AND 0xFFFFFF))))) (f_of_int double_prec 65536)"

definition put_position :: "u32 \<Rightarrow> ('a lago_scheme, unit) io" where
  "put_position wo =
     (let k = drop_bit 24 wo AND 7 in
      if k = 0 then modify (\<lambda>s. s\<lparr>gps_lat := coordinate wo\<rparr>)
      else if k = 1 then modify (\<lambda>s. s\<lparr>gps_lon := coordinate wo\<rparr>)
      else if k = 2 then
        thn (modify (\<lambda>s. s\<lparr>gps_alt := coordinate wo\<rparr>))
            (bnd (gets g_data) (\<lambda>g. fput (''# x g '' @ fmt_f 6 (latitude g) @ '' '' @ fmt_f 6 (longitude g) @ '' '' @
                fmt_f 2 (altitude g) @ nl)))
      else ret ())"

definition put_record :: "env \<Rightarrow> bmp_ptr \<Rightarrow> u32 \<Rightarrow> ('a lago_scheme, unit) io" where
  "put_record E bmp wo =
     (let tag = drop_bit 27 wo; low24 = wo AND 0x00FFFFFF in
      if tag = 0x18 then fput (''# x f '' @ fmt_d (sint (wo AND 0x07FFFFFF)) @ '' '' @ nl)
      else if tag = 0x19 then bnd (bmp180_temperature E bmp) (\<lambda>t. fput (''# x t '' @ fmt_f 1 t @ '' '' @ nl))
      else if tag = 0x1A then bnd (bmp180_pressure E bmp) (\<lambda>p.
        fput (''# x p '' @ fmt_f 2 (fdiv double_prec p (f_of_int double_prec 100)) @ '' '' @ nl))
      else if tag = 0x1B then put_second E wo
      else if tag = 0x1C then put_position wo
      else if tag = 0x1D then thn (fput (''# r1 '' @ fmt_d (sint low24) @ '' '' @ nl)) (modify (\<lambda>s. s\<lparr>r1 := sint low24\<rparr>))
      else if tag = 0x1E then thn (fput (''# r2 '' @ fmt_d (sint low24) @ '' '' @ nl)) (modify (\<lambda>s. s\<lparr>r2 := sint low24\<rparr>))
      else thn (fput (''# E @@@'' @ nl))
               (fput (''# E 3 - unknown word from FPGA: '' @ fmt_d (sint tag) @ '' '' @ fmt_x (uint tag) @ nl)))"

section \<open>The loop\<close>

definition put_word :: "env \<Rightarrow> bmp_ptr \<Rightarrow> i16 \<Rightarrow> i16 \<Rightarrow> ('a lago_scheme, unit) io" where
  "put_word E bmp c0 c1 =
     (let wo = word_of c0 c1; kind = drop_bit 30 wo in
      if kind = 0 then put_samples c0 c1
      else if kind = 1 then put_trigger wo
      else if kind = 2 then put_counter wo
      else put_record E bmp wo)"

definition read_word :: "env \<Rightarrow> bmp_ptr \<Rightarrow> u32 \<Rightarrow> ('a lago_scheme, unit) io" where
  "read_word E bmp i =
     bnd (gets id) (\<lambda>s.
     if cma_ok E s i
     then thn (put_word E bmp (ch0_at s i) (ch1_at s i)) (modify (\<lambda>s. s\<lparr>current := sint i\<rparr>))
     else halt Fault)"

text \<open>The window of words to read, \<open>readinit\<close> and \<open>readend\<close>, and the indices of the loop, compared as \<^verbatim>\<open>uint32_t\<close>.\<close>

definition window :: "int \<Rightarrow> int \<Rightarrow> int \<Rightarrow> int \<times> int" where
  "window cur pos lmt =
     (if cur < w32 (pos + 2) then (w32 (cur + 2), pos) else if pos < cur then (w32 (cur + 2), lmt) else (0, lmt))"

definition indices :: "int \<times> int \<Rightarrow> u32 list" where
  "indices w = map of_int [uint (of_int (fst w) :: u32) .. uint (of_int (snd w) :: u32) - 1]"

definition first_time :: "env \<Rightarrow> ('a lago_scheme, unit) io" where
  "first_time E =
     bnd (cfg_read E (cfg_off RESET_GRAL)) (\<lambda>v.
     bnd (sys_time E) (\<lambda>now.
     thn (if drop_bit 4 v AND 1 = 1
          then modify (\<lambda>s. s\<lparr>fileTime := now, fileDate := gmtime now, falseGPS := True\<rparr>)
          else thn (modify (\<lambda>s. s\<lparr>fileTime := now,
                      fileDate := \<lparr>tm_sec = 55, tm_min = 55, tm_hour = 10, tm_mday = 29, tm_mon = 8, tm_year = 2018\<rparr>\<rparr>))
                   normalise_date)
    (thn (new_file E)
         (modify (\<lambda>s. s\<lparr>fFirstTime := False\<rparr>)))))"

definition rewind :: "'a lago_scheme \<Rightarrow> 'a lago_scheme" where
  "rewind s = (if current s = w32 (limit s - 2) then s\<lparr>current := - 2\<rparr> else s)"

definition read_buffer :: "env \<Rightarrow> int \<Rightarrow> bmp_ptr \<Rightarrow> ('a lago_scheme, int) io" where
  "read_buffer E pos bmp =
     thn (bnd (gets fToStdout) (\<lambda>std. whn std (modify (\<lambda>s. s\<lparr>fhout := Stdout\<rparr>))))
    (thn (bnd (gets fFirstTime) (\<lambda>f. whn f (first_time E)))
    (thn (modify rewind)
    (bnd (gets id) (\<lambda>s.
     thn (whn (current s \<noteq> pos) (stmts (map (read_word E bmp) (indices (window (current s) pos (limit s))))))
         (ret 1)))))"

section \<open>Samples and counters\<close>

lemma w32_id: "- (2 ^ 31) \<le> x \<Longrightarrow> x < 2 ^ 31 \<Longrightarrow> w32 x = x"
  unfolding w32_def by (rule sint_of_int_range)

lemma sample_value_14:
  assumes "uint ch < 2 ^ 14"
  shows "sample_value ch = (if uint ch < 2 ^ 13 then uint ch else uint ch - 2 ^ 14)"
proof -
  define c where "c = uint ch"
  have c: "0 \<le> c" "c < 2 ^ 14" using assms by (simp_all add: c_def)
  have "signed_take_bit 15 c = c" using c by (intro signed_take_bit_int_eq_self) simp_all
  then have s: "sint ch = c" by (simp add: sint_uint c_def)
  have sx: "sint (of_int x :: i16) = x" if "- (2 ^ 15) \<le> x" "x < 2 ^ 15" for x
    using that signed_take_bit_int_eq_self [of 15 x] by (simp add: sint_sbintrunc')
  show ?thesis
  proof (cases "c < 2 ^ 13")
    case True
    then have "drop_bit 13 c = 0" using c by (simp add: drop_bit_eq_div)
    with True c show ?thesis by (simp add: sample_value_def s Let_def sx c_def [symmetric])
  next
    case False
    then have "drop_bit 13 c = 1" using c by (simp add: drop_bit_eq_div)
    then have "sample_value ch = sint (of_int (49152 + c) :: i16)"
      by (simp add: sample_value_def s Let_def push_bit_eq_mult)
    also have "(of_int (49152 + c) :: i16) = of_int (c - 16384)"
      by (simp only: word_of_int_eq_iff) (simp add: take_bit_eq_mod mod_eq_dvd_iff)
    also have "sint (of_int (c - 16384) :: i16) = c - 16384"
      using c by (intro sx) simp_all
    finally show ?thesis using False by (simp add: c_def)
  qed
qed


lemma count_pulse_step:
  assumes "0 < mtd_pulse_cnt s" "mtd_pulse_cnt s < c" "c < 2 ^ 30" "0 \<le> mtd_cdp s" "mtd_cdp s + c < 2 ^ 31"
  shows "mtd_cdp (count_pulse c s) = mtd_cdp s + (c - mtd_pulse_cnt s - 1) \<and> mtd_pulse_cnt (count_pulse c s) = c"
  using assms by (auto simp: count_pulse_def Let_def w32_id)

lemma count_pulse_fold:
  assumes "sorted_wrt (<) (mtd_pulse_cnt s # cs)" "0 < mtd_pulse_cnt s" "\<forall>c \<in> set cs. c < 2 ^ 30"
    and "0 \<le> mtd_cdp s" "mtd_cdp s \<le> 2 ^ 30 - (last (mtd_pulse_cnt s # cs) - mtd_pulse_cnt s)"
  shows "mtd_cdp (fold count_pulse cs s) = mtd_cdp s + (last (mtd_pulse_cnt s # cs) - mtd_pulse_cnt s - int (length cs))"
  using assms
proof (induction cs arbitrary: s)
  case (Cons c cs)
  have le: "c \<le> last (c # cs)" using Cons.prems(1) by (cases cs rule: rev_cases) (auto simp: sorted_wrt_append)
  have m: "mtd_pulse_cnt s < c" "c < 2 ^ 30" using Cons.prems(1,3) by simp_all
  have "last (mtd_pulse_cnt s # c # cs) = last (c # cs)" by simp
  then have st: "mtd_cdp (count_pulse c s) = mtd_cdp s + (c - mtd_pulse_cnt s - 1)" "mtd_pulse_cnt (count_pulse c s) = c"
    using count_pulse_step [OF Cons.prems(2) m] Cons.prems(4,5) le m by simp_all
  have "mtd_cdp (fold count_pulse cs (count_pulse c s)) =
    mtd_cdp (count_pulse c s) + (last (mtd_pulse_cnt (count_pulse c s) # cs) - mtd_pulse_cnt (count_pulse c s) - int (length cs))"
    using Cons.prems m st by (intro Cons.IH) simp_all
  with st show ?case by simp
qed simp

lemma uint_word_of: "uint (word_of lo hi) = uint lo + 2 ^ 16 * uint hi"
proof -
  have b: "uint lo < 2 ^ 16" "uint hi < 2 ^ 16" "0 \<le> uint lo" "0 \<le> uint hi"
    using uint_lt2p [of lo] uint_lt2p [of hi] by simp_all
  have "(ucast lo :: u32) + push_bit 16 (ucast hi) = ucast lo OR push_bit 16 (ucast hi)"
    by (rule disjunctive_add) (auto simp: bit_simps dest: bit_imp_le_length)
  then have "word_of lo hi = ucast lo + 2 ^ 16 * ucast hi"
    by (simp only: word_of_def) (simp only: push_bit_eq_mult mult.commute)
  also have "\<dots> = of_int (uint lo + 2 ^ 16 * uint hi)"
    by (simp only: of_int_add of_int_mult of_int_power of_int_numeral of_int_uint)
  finally have "word_of lo hi = of_int (uint lo + 2 ^ 16 * uint hi)" .
  moreover have "uint (of_int (uint lo + 2 ^ 16 * uint hi) :: u32) = uint lo + 2 ^ 16 * uint hi"
    using b by (intro uint_of_int_range) simp_all
  ultimately show ?thesis by simp
qed

text \<open>A 14-bit two's complement number.\<close>

definition signed14 :: "i16 \<Rightarrow> int" where
  "signed14 ch = (if uint ch < 2 ^ 13 then uint ch else uint ch - 2 ^ 14)"

lemma put_word_samples:
  assumes "uint c1 < 2 ^ 14"
  shows "put_word E bmp c0 c1 = put_samples c0 c1"
proof -
  have "uint c0 < 2 ^ 16" using uint_lt2p [of c0] by simp
  with assms have "uint (word_of c0 c1) < 2 ^ 30" by (simp only: uint_word_of) simp
  then have "drop_bit 30 (word_of c0 c1) = 0"
    by (simp only: word_uint_eq_iff unsigned_drop_bit_eq) (simp add: drop_bit_eq_div take_bit_int_eq_self)
  then show ?thesis by (simp add: put_word_def)
qed

section \<open>Properties\<close>

text \<open>
  (C28) Samples are sign-extended: a word that carries two 14-bit two's complement samples is printed as one line with
  their signed values in fields of five characters, in the range -8192 to 8191, and enters the base line sums.
\<close>

theorem put_word_signed_samples:
  assumes "uint c0 < 2 ^ 14" "uint c1 < 2 ^ 14" "fhout s = Data_File p"
  shows "put_word E bmp c0 c1 s = Done ()
      (baseline c0 c1 (s\<lparr>files := (files s)(p := files s p @ fmt_wd 5 (signed14 c0) @ '' '' @ fmt_wd 5 (signed14 c1) @ nl)\<rparr>)) \<and>
    - 8192 \<le> signed14 c0 \<and> signed14 c0 \<le> 8191"
proof -
  have v: "sample_value c0 = signed14 c0" "sample_value c1 = signed14 c1"
    using sample_value_14 [OF assms(1)] sample_value_14 [OF assms(2)] by (simp_all add: signed14_def)
  have "- 8192 \<le> signed14 c0 \<and> signed14 c0 \<le> 8191"
    using assms(1) order_trans [OF _ uint_ge_0, of "- 8192" c0] by (simp add: signed14_def)
  then show ?thesis
    using assms(3) by (simp add: put_word_samples [OF assms(2)] put_samples_def fput_def v)
qed

theorem put_word_signed_samples_witness:
  "files (final (put_word bench None 0x3FFF 0x1234 (lago0\<lparr>fhout := Data_File ''a''\<rparr>))) ''a'' = ''   -1  4660'' @ nl"
proof -
  have "files lago0 = (\<lambda>p. [])" by (simp add: lago0_defs)
  moreover have "fmt_wd 5 (- 1) = ''   -1''" "fmt_wd 5 4660 = '' 4660''" by code_simp+
  ultimately show ?thesis
    using put_word_signed_samples [of "0x3FFF" "0x1234" "lago0\<lparr>fhout := Data_File ''a''\<rparr>" "''a''" bench None]
    by (simp add: signed14_def baseline_def Let_def)
qed

text \<open>
  Lost pulses: over any strictly increasing run of counter words after a non-zero one, the amount added to
  \<^verbatim>\<open>mtd_cdp\<close> is exactly the number of counter values that were skipped.
\<close>

theorem lost_pulses:
  assumes "sorted_wrt (<) (mtd_pulse_cnt s # cs)" "0 < mtd_pulse_cnt s" "\<forall>c \<in> set cs. c < 2 ^ 30"
    and "0 \<le> mtd_cdp s" "mtd_cdp s \<le> 2 ^ 30 - (last (mtd_pulse_cnt s # cs) - mtd_pulse_cnt s)"
  shows "mtd_cdp (fold count_pulse cs s) =
    mtd_cdp s + int (card ({mtd_pulse_cnt s .. last (mtd_pulse_cnt s # cs)} - set (mtd_pulse_cnt s # cs)))"
proof -
  let ?a = "mtd_pulse_cnt s" and ?z = "last (mtd_pulse_cnt s # cs)"
  have d: "distinct (?a # cs)" using assms(1) strict_sorted_iff by blast
  have sub: "set (?a # cs) \<subseteq> {?a .. ?z}"
    using assms(1) by (cases cs rule: rev_cases) (auto simp: sorted_wrt_append less_imp_le)
  have "?a \<le> ?z" using sub by auto
  then have "int (card ({?a .. ?z} - set (?a # cs))) = (?z - ?a + 1) - int (Suc (length cs))"
    using card_mono [OF _ sub] distinct_card [OF d] by (subst card_Diff_subset [OF _ sub]) simp_all
  with count_pulse_fold [OF assms] show ?thesis by simp
qed

theorem lost_pulses_witness:
  "mtd_cdp (fold count_pulse [8, 9, 12] (lago0\<lparr>mtd_pulse_cnt := 5\<rparr>)) = 4"
proof -
  have "{5 .. 12} - set [5, 8, 9, 12] = {6, 7, 10, 11 :: int}" by auto
  then show ?thesis
    using lost_pulses [of "lago0\<lparr>mtd_pulse_cnt := 5\<rparr>" "[8, 9, 12]"] by (simp add: lago0_defs)
qed

end
