(* ===== verification/Lago_Cursor.thy ===== *)
theory Lago_Cursor
  imports Lago_Reader
begin

text \<open>
  Where \<^verbatim>\<open>read_buffer\<close> reads.  The first part is a frame: printing a word, whatever its kind, leaves the devices, the ring
  and the pending interrupts alone (\<open>core\<close>).  The second part computes the cursor after a call in closed form, and what
  follows from it for the words of the ring.
\<close>

section \<open>What the read-out leaves alone\<close>

type_synonym core_view =
  "(bus_ev list \<times> (int \<times> int \<times> int) \<times> (ptr \<times> ptr \<times> ptr \<times> ptr \<times> ptr) \<times> bmp180_t option list) \<times>
   (int \<times> int \<times> int) \<times> (bool \<times> bool \<times> bool) \<times> (int \<Rightarrow> u16) \<times> irq list"

definition core :: "'a lago_scheme \<Rightarrow> core_view" where
  "core s = ((writes s, (intc_fd s, cfg_fd s, sts_fd s), (intc_ptr s, cfg_ptr s, sts_ptr s, xadc_ptr s, cma_ptr s), bmps s),
     (limit s, current s, position s), (interrupted s, fToStdout s, fFirstTime s), cma_mem s, irqs s)"

lemma core_upd:
  "core (s\<lparr>out := a\<rparr>) = core s" "core (s\<lparr>err := a\<rparr>) = core s" "core (s\<lparr>hist := Rd p k # hist s\<rparr>) = core s"
  "core (s\<lparr>i2c_log := l\<rparr>) = core s" "core (s\<lparr>clock := n\<rparr>) = core s" "core (s\<lparr>files := f\<rparr>) = core s"
  by (simp_all add: core_def writes_def)

lemma stable_dev_read [stable_intros]: "stable core (dev_read E p off)"
  by (auto simp: stable_def dev_read_def core_upd split: option.split)

lemma stable_os [stable_intros]:
  "stable core (puts_out t)" "stable core (puts_err t)" "stable core (sys_time E)"
  "stable core (i2c_write_byte r v)" "stable core (i2c_read_word E r)" "stable core (i2c_read_byte E r)"
  by (simp_all add: stable_def i2c_write_byte_def i2c_read_word_def i2c_read_byte_def core_upd)

lemma stable_deref [stable_intros]: "stable core (deref p)"
  by (auto simp: stable_def deref_def split: option.split)

lemma stable_cfg_read [stable_intros]: "stable core (cfg_read E off)"
  unfolding cfg_read_def by (intro stable_intros)

lemma stable_converters [stable_intros]: "stable core (get_voltage E off)" "stable core (get_temp_AD592 E off)"
  unfolding get_temp_AD592_def get_voltage_def by (intro stable_intros)+

lemma stable_bmp180 [stable_intros]: "stable core (bmp180_temperature E p)" "stable core (bmp180_pressure E p)"
  unfolding bmp180_temperature_def bmp180_pressure_def bmp180_read_raw_temperature_def bmp180_read_raw_pressure_def Let_def
  by (intro stable_intros stop.distinct)+

lemma stable_fput [stable_intros]: "stable core (fput t)"
  unfolding fput_def by (auto simp: stable_def core_upd split: fh.split)

lemma stable_fput_cfg [stable_intros]: "stable core (fput_cfg E r f)"
  unfolding fput_cfg_def by (intro stable_intros)

lemma stable_normalise_date [stable_intros]: "stable core normalise_date"
  unfolding normalise_date_def by (intro stable_modify) (simp add: core_def writes_def Let_def)

lemma stable_open_data_file [stable_intros]: "stable core (open_data_file E)"
  unfolding open_data_file_def by (intro stable_intros) (simp_all add: core_def writes_def)

lemma stable_new_file [stable_intros]: "stable core (new_file E)"
  unfolding new_file_def by (intro stable_intros) (auto intro!: stable_intros)

lemma stable_baseline: "core (baseline c0 c1 s) = core s"
  by (simp add: baseline_def Let_def core_def writes_def)

lemma stable_samples [stable_intros]: "stable core (put_samples c0 c1)"
  unfolding put_samples_def by (intro stable_intros stable_baseline)

lemma stable_trigger [stable_intros]: "stable core (put_trigger wo)"
  unfolding put_trigger_def by (intro stable_intros) (simp add: Let_def core_def writes_def)

lemma stable_counter [stable_intros]: "stable core (put_counter wo)"
  unfolding put_counter_def Let_def count_pulse_def by (intro stable_intros) (simp add: core_def writes_def)

lemma stable_step_false_gps [stable_intros]: "stable core (step_false_gps E)"
  unfolding step_false_gps_def by (intro stable_intros) (simp add: core_def writes_def)

lemma stable_step_gps [stable_intros]: "stable core (step_gps E wo)"
  unfolding step_gps_def Let_def by (intro stable_intros) (simp_all add: core_def writes_def)

lemma stable_second [stable_intros]: "stable core (put_second E wo)"
  unfolding put_second_def by (intro stable_intros) (simp_all add: core_def writes_def)

lemma stable_position [stable_intros]: "stable core (put_position wo)"
  unfolding put_position_def Let_def by (intro stable_intros) (simp_all add: core_def writes_def)

lemma stable_record [stable_intros]: "stable core (put_record E bmp wo)"
  unfolding put_record_def Let_def by (intro stable_intros) (simp_all add: core_def writes_def)

lemma stable_word [stable_intros]: "stable core (put_word E bmp c0 c1)"
  unfolding put_word_def Let_def by (intro stable_intros)

text \<open>The first call only clears its flag; a word only moves the cursor.\<close>

lemma first_time_core:
  assumes "first_time E s = Done x t"
  shows "core t = core (s\<lparr>fFirstTime := False\<rparr>)"
proof -
  define prep where "prep =
    bnd (cfg_read E (cfg_off RESET_GRAL)) (\<lambda>v. bnd (sys_time E) (\<lambda>now.
     thn (if drop_bit 4 v AND 1 = 1
          then modify (\<lambda>s::'a lago_scheme. s\<lparr>fileTime := now, fileDate := gmtime now, falseGPS := True\<rparr>)
          else thn (modify (\<lambda>s. s\<lparr>fileTime := now,
                      fileDate := \<lparr>tm_sec = 55, tm_min = 55, tm_hour = 10, tm_mday = 29, tm_mon = 8, tm_year = 2018\<rparr>\<rparr>))
                   normalise_date)
     (new_file E)))"
  have "first_time E = thn prep (modify (\<lambda>s. s\<lparr>fFirstTime := False\<rparr>))"
    by (simp add: first_time_def prep_def thn_bnd thn_assoc)
  then obtain y u where u: "prep s = Done y u" "t = u\<lparr>fFirstTime := False\<rparr>"
    using assms by (cases "prep s") auto
  have "stable core prep"
    unfolding prep_def by (intro stable_intros) (simp_all add: core_def writes_def)
  with u have "core u = core s" by (blast dest: stable_Done)
  with u(2) show ?thesis by (simp add: core_def writes_def)
qed

lemma core_current: "core s = core t \<Longrightarrow> core (s\<lparr>current := c\<rparr>) = core (t\<lparr>current := c\<rparr>)"
  by (simp add: core_def writes_def)

lemma read_word_core:
  assumes "read_word E bmp i s = Done x t"
  shows "core t = core (s\<lparr>current := sint i\<rparr>)"
proof -
  from assms obtain y u where "put_word E bmp (ch0_at s i) (ch1_at s i) s = Done y u" "t = u\<lparr>current := sint i\<rparr>"
    by (auto simp: read_word_def thn_app split: if_splits outcome.splits)
  moreover from this have "core u = core s" by (blast dest: stable_Done [OF stable_word])
  ultimately show ?thesis using core_current [of u s] by simp
qed

lemma read_words_core:
  "stmts (map (read_word E bmp) ks) s = Done x t \<Longrightarrow>
   core t = core (s\<lparr>current := (if ks = [] then current s else sint (last ks))\<rparr>)"
proof (induction ks arbitrary: s)
  case (Cons k ks)
  then obtain y u where u: "read_word E bmp k s = Done y u" "stmts (map (read_word E bmp) ks) u = Done x t"
    by (cases "read_word E bmp k s") auto
  from read_word_core [OF u(1)] have cu: "core u = core (s\<lparr>current := sint k\<rparr>)" .
  then have k: "current u = sint k" by (simp add: core_def)
  have "core t = core (u\<lparr>current := (if ks = [] then sint k else sint (last ks))\<rparr>)"
    using Cons.IH [OF u(2)] k by simp
  also have "\<dots> = core (s\<lparr>current := (if ks = [] then sint k else sint (last ks))\<rparr>)"
    using core_current [OF cu] by simp
  finally show ?case by simp
qed simp

definition start_cursor :: "int \<Rightarrow> int \<Rightarrow> int" where
  "start_cursor c l = (if c = w32 (l - 2) then - 2 else c)"

definition next_cursor :: "int \<Rightarrow> int \<Rightarrow> int \<Rightarrow> int" where
  "next_cursor c pos l =
     (let c' = start_cursor c l; ks = (if c' = pos then [] else indices (window c' pos l))
      in if ks = [] then c' else sint (last ks))"

lemma read_buffer_core:
  assumes "read_buffer E pos bmp s = Done r t"
  shows "r = 1 \<and> core t = core (s\<lparr>fFirstTime := False, current := next_cursor (current s) pos (limit s)\<rparr>)"
proof -
  define s1 where "s1 = (if fToStdout s then s\<lparr>fhout := Stdout\<rparr> else s)"
  have c1: "core s1 = core s" by (simp add: s1_def core_def writes_def)
  define m :: "('a lago_scheme, unit) io" where "m = whn (fFirstTime s1) (first_time E)"
  have eq: "read_buffer E pos bmp s =
    bnd m (\<lambda>_ u. let v = rewind u in
      thn (whn (current v \<noteq> pos) (stmts (map (read_word E bmp) (indices (window (current v) pos (limit v)))))) (ret 1) v) s1"
    by (simp add: read_buffer_def s1_def m_def whn_def bnd_def thn_def Let_def fun_eq_iff)
  with assms obtain y u where u: "m s1 = Done y u" by (cases "m s1") auto
  have cu: "core u = core (s\<lparr>fFirstTime := False\<rparr>)"
    using u c1 first_time_core [of E s1 y u] unfolding m_def
    by (cases "fFirstTime s1") (simp_all add: core_def writes_def)
  define v where "v = rewind u"
  have cv: "core v = core (s\<lparr>fFirstTime := False, current := start_cursor (current s) (limit s)\<rparr>)"
    using cu by (auto simp: v_def rewind_def start_cursor_def core_def writes_def)
  define ks where "ks = (if current v = pos then [] else indices (window (current v) pos (limit v)))"
  have "stmts (map (read_word E bmp) ks) v = Done () t \<and> r = 1"
    using assms u unfolding eq
    by (cases "stmts (map (read_word E bmp) (indices (window (current v) pos (limit v)))) v")
      (auto simp: Let_def v_def [symmetric] ks_def whn_def thn_app split: if_splits outcome.splits)
  moreover from this have "core t = core (v\<lparr>current := (if ks = [] then current v else sint (last ks))\<rparr>)"
    by (blast dest: read_words_core)
  moreover have "current v = start_cursor (current s) (limit s)" "limit v = limit s"
    using cv by (simp_all add: core_def)
  ultimately show ?thesis
    using cv by (simp add: next_cursor_def Let_def ks_def core_def writes_def)
qed


section \<open>The cursor\<close>

text \<open>A position of the writer and a cursor of the reader in a ring of \<open>l\<close> words.\<close>

definition in_ring :: "int \<Rightarrow> int \<Rightarrow> int \<Rightarrow> bool" where
  "in_ring c p l \<longleftrightarrow> - 2 \<le> c \<and> c < l \<and> 0 \<le> p \<and> p < l \<and> l \<le> 2 ^ 30"

definition read_end :: "int \<Rightarrow> int \<Rightarrow> int \<Rightarrow> int" where
  "read_end c p l = (if c < p + 2 then p else l)"

lemma window_ring: "in_ring c p l \<Longrightarrow> window c p l = (c + 2, read_end c p l)"
  by (auto simp: in_ring_def window_def read_end_def w32_id)

lemma indices_ring:
  assumes "in_ring c p l"
  shows "indices (window c p l) = map of_int [c + 2 .. read_end c p l - 1]"
proof -
  have "uint (of_int (c + 2) :: u32) = c + 2" "uint (of_int (read_end c p l) :: u32) = read_end c p l"
    using assms by (intro uint_of_int_range; simp add: in_ring_def read_end_def)+
  then show ?thesis by (simp add: window_ring [OF assms] indices_def)
qed

lemma start_cursor_ring: "in_ring c p l \<Longrightarrow> start_cursor c l = (if c = l - 2 then - 2 else c) \<and> in_ring (start_cursor c l) p l"
  by (auto simp: start_cursor_def in_ring_def w32_id)

lemma next_cursor_ring:
  assumes "in_ring c p l"
  shows "next_cursor c p l =
    (let c' = start_cursor c l; e = read_end c' p l in if c' = p \<or> e \<le> c' + 2 then c' else e - 1)"
proof -
  define c' where "c' = start_cursor c l"
  define e where "e = read_end c' p l"
  have r: "in_ring c' p l" using start_cursor_ring [OF assms] unfolding c'_def by blast
  have "last (map (of_int :: int \<Rightarrow> u32) [c' + 2 .. e - 1]) = of_int (e - 1)" if "c' + 2 < e"
    using that by (simp add: last_map upto_rec2 [of "c' + 2" "e - 1"])
  moreover have "sint (of_int (e - 1) :: u32) = e - 1" if "c' + 2 < e"
    using that r w32_id [of "e - 1"] unfolding w32_def by (simp add: in_ring_def e_def read_end_def split: if_splits)
  ultimately show ?thesis
    using indices_ring [OF r] by (auto simp: next_cursor_def Let_def simp flip: c'_def e_def)
qed

lemma next_cursor_in_ring: "in_ring c p l \<Longrightarrow> in_ring (next_cursor c p l) q l \<longleftrightarrow> 0 \<le> q \<and> q < l"
  using start_cursor_ring [of c p l] by (auto simp: next_cursor_ring Let_def in_ring_def read_end_def)


lemma cursor_wrap:
  assumes "in_ring c p l" "p + 2 \<le> c" "c + 2 < l"
  shows "next_cursor c p l = l - 1"
proof -
  have "start_cursor c l = c" using start_cursor_ring [OF assms(1)] assms(3) by simp
  with assms show ?thesis by (simp add: next_cursor_ring read_end_def)
qed

lemma cursor_end:
  assumes "in_ring (l - 1) p l"
  shows "start_cursor (l - 1) l = l - 1 \<and> indices (window (l - 1) p l) = []"
  using start_cursor_ring [OF assms] indices_ring [OF assms] assms by (simp add: read_end_def in_ring_def)

text \<open>With the cursor on the last word of the ring a call reads nothing.\<close>

lemma read_buffer_end:
  assumes "\<not> fFirstTime s" "current s = limit s - 1" "in_ring (current s) p (limit s)"
  shows "read_buffer E p bmp s = Done 1 (if fToStdout s then s\<lparr>fhout := Stdout\<rparr> else s)"
proof -
  define t where "t = (if fToStdout s then s\<lparr>fhout := Stdout\<rparr> else s)"
  have t: "\<not> fFirstTime t" "current t = limit s - 1" "limit t = limit s" using assms by (simp_all add: t_def)
  have "current t \<noteq> w32 (limit t - 2)" using assms(3) t by (simp add: w32_id in_ring_def)
  then have r: "rewind t = t" by (simp only: rewind_def if_False)
  have e: "indices (window (current t) p (limit t)) = []"
    using cursor_end [of "limit s" p] assms(2,3) t by simp
  have "read_buffer E p bmp s =
    thn (whn (current (rewind t) \<noteq> p) (stmts (map (read_word E bmp) (indices (window (current (rewind t)) p (limit (rewind t))))))) (ret 1) (rewind t)"
    using t(1) unfolding t_def by (cases "fToStdout s") (simp_all only: read_buffer_def io_eval if_True if_False lago.simps id_apply)
  then show ?thesis unfolding r e by (simp add: t_def [symmetric] whn_def)
qed

section \<open>Properties\<close>

lemma coreD: "core s = core t \<Longrightarrow> current s = current t \<and> limit s = limit t \<and> fFirstTime s = fFirstTime t \<and> fToStdout s = fToStdout t"
  by (simp add: core_def)

text \<open>A ring of sixteen words, all samples, read to the standard output.\<close>

definition ring0 :: "int \<Rightarrow> lago" where
  "ring0 c = lago0\<lparr>cma_ptr := Mapped ''/dev/mem'' 0 64, limit := 16, current := c, fFirstTime := False, fToStdout := True\<rparr>"

lemma ring0_simps: "current (ring0 c) = c" "limit (ring0 c) = 16" "\<not> fFirstTime (ring0 c)" "fToStdout (ring0 c)"
  "cma_ptr (ring0 c) = Mapped ''/dev/mem'' 0 64" "cma_mem (ring0 c) = (\<lambda>i. 0)"
  by (simp_all add: ring0_def lago0_defs)

lemma ring0_reads:
  assumes "in_ring c p 16" "c \<noteq> 14" "c \<noteq> p" "indices (window c p 16) = [k]" "uint k < 16"
  shows "\<exists>t. read_buffer bench p None (ring0 c) = Done 1 t"
proof -
  define s where "s = (ring0 c)\<lparr>fhout := Stdout\<rparr>"
  have s: "current s = c" "limit s = 16" "\<not> fFirstTime s" "cma_ptr s = Mapped ''/dev/mem'' 0 64" "cma_mem s = (\<lambda>i. 0)" "fhout s = Stdout"
    by (simp_all add: s_def ring0_simps)
  have "rewind s = s" using s assms(2) by (simp add: rewind_def w32_id)
  then have e: "read_buffer bench p None (ring0 c) = thn (read_word bench None k) (ret 1) s"
    using assms(3,4) s
    by (simp only: read_buffer_def io_eval ring0_simps if_True if_False lago.simps id_apply s_def [symmetric] list.map) simp
  have "half_index k = 2 * uint k" using assms(5) by (simp add: half_index_def uint_word_ariths)
  then have "cma_ok bench s k" using assms(5) s by (simp add: cma_ok_def page_round_def)
  moreover have "\<exists>t. put_word bench None 0 0 s = Done () t"
    using s by (simp add: put_word_samples put_samples_def fput_def)
  moreover have "ch0_at s k = 0" "ch1_at s k = 0" using s by (simp_all add: ch0_at_def ch1_at_def)
  ultimately show ?thesis by (auto simp: e read_word_def)
qed

text \<open>
  (C15) A word is lost between two calls: after a call that read up to the position \<open>p1\<close> of the writer, the cursor is on
  \<open>p1 - 1\<close>, and the next call, for a position \<open>p2\<close> further on, reads the words \<open>p1 + 1\<close> to \<open>p2 - 1\<close>; the word at \<open>p1\<close> is
  in neither window.
\<close>

theorem read_buffer_skips:
  assumes "read_buffer E p1 bmp s = Done r t" "in_ring (current s) p1 (limit s)" "current s + 2 < p1" "p1 < limit s - 1"
  shows "indices (window (current s) p1 (limit s)) = map of_int [current s + 2 .. p1 - 1] \<and> current t = p1 - 1 \<and>
    (\<forall>p2. p1 < p2 \<and> p2 < limit s \<longrightarrow> indices (window (current t) p2 (limit t)) = map of_int [p1 + 1 .. p2 - 1])"
proof -
  have st: "start_cursor (current s) (limit s) = current s"
    using start_cursor_ring [OF assms(2)] assms(3,4) by simp
  have re: "read_end (current s) p1 (limit s) = p1" using assms(3) by (simp add: read_end_def)
  have n: "next_cursor (current s) p1 (limit s) = p1 - 1"
    using next_cursor_ring [OF assms(2)] st re assms(3) by (simp add: Let_def)
  have t: "current t = p1 - 1" "limit t = limit s"
    using coreD [OF conjunct2 [OF read_buffer_core [OF assms(1)]]] n by simp_all
  have "indices (window (p1 - 1) p2 (limit s)) = map of_int [p1 + 1 .. p2 - 1]" if "p1 < p2" "p2 < limit s" for p2
    using that assms(2,3) indices_ring [of "p1 - 1" p2 "limit s"] by (simp add: in_ring_def read_end_def add.commute)
  with t re indices_ring [OF assms(2)] show ?thesis by simp
qed

theorem read_buffer_skips_witness:
  "\<exists>t. read_buffer bench 1 None (ring0 (- 2)) = Done 1 t \<and> current t = 0 \<and>
     indices (window 0 4 16) = map of_int [2 .. 3]"
proof -
  have r: "in_ring (- 2) 1 16" by (simp add: in_ring_def)
  have "indices (window (- 2) 1 16) = [0]" using indices_ring [OF r] by (simp add: read_end_def)
  then obtain t where e: "read_buffer bench 1 None (ring0 (- 2)) = Done 1 t"
    using ring0_reads [OF r, of 0] by auto
  have lt: "limit t = 16" using coreD [OF conjunct2 [OF read_buffer_core [OF e]]] by (simp add: ring0_simps)
  have a: "indices (window (current (ring0 (- 2))) 1 (limit (ring0 (- 2)))) = map of_int [current (ring0 (- 2)) + 2 .. 1 - 1] \<and> current t = 1 - 1 \<and>
    (\<forall>p2. 1 < p2 \<and> p2 < limit (ring0 (- 2)) \<longrightarrow> indices (window (current t) p2 (limit t)) = map of_int [1 + 1 .. p2 - 1])"
    using r by (intro read_buffer_skips [OF e]) (simp_all add: ring0_simps)
  then have "current t = 0" by simp
  moreover have "indices (window (current t) 4 (limit t)) = map of_int [1 + 1 .. 4 - 1]"
    using spec [OF conjunct2 [OF conjunct2 [OF a]], of 4] by (simp add: ring0_simps)
  ultimately show ?thesis using e lt by auto
qed

text \<open>
  (C16) The read-out stops at the end of the ring: once the writer has wrapped around behind the reader (and at least one
  word is left before the end), a call leaves the cursor on the last word of the ring, which is not the value the
  rewinding test looks for, and from then on no call, for any position of the writer, reads a word or moves the cursor.
\<close>

theorem read_buffer_sticks:
  assumes "read_buffer E p bmp s = Done r t" "in_ring (current s) p (limit s)" "p + 2 \<le> current s" "current s + 2 < limit s"
  shows "current t = limit s - 1 \<and>
    (\<forall>q. 0 \<le> q \<and> q < limit s \<longrightarrow> read_buffer E q bmp t = Done 1 (if fToStdout t then t\<lparr>fhout := Stdout\<rparr> else t))"
proof -
  have t: "current t = limit s - 1" "limit t = limit s" "\<not> fFirstTime t"
    using coreD [OF conjunct2 [OF read_buffer_core [OF assms(1)]]] cursor_wrap [OF assms(2-4)] by simp_all
  moreover have "in_ring (current t) q (limit t)" if "0 \<le> q" "q < limit s" for q
    using that t assms(2) by (simp add: in_ring_def)
  ultimately show ?thesis using read_buffer_end [of t] by simp
qed

theorem read_buffer_sticks_witness:
  "\<exists>t. read_buffer bench 0 None (ring0 13) = Done 1 t \<and> current t = 15 \<and> read_buffer bench 9 None t = Done 1 (t\<lparr>fhout := Stdout\<rparr>)"
proof -
  have r: "in_ring 13 0 16" by (simp add: in_ring_def)
  have "indices (window 13 0 16) = [15]" using indices_ring [OF r] by (simp add: read_end_def)
  then obtain t where e: "read_buffer bench 0 None (ring0 13) = Done 1 t"
    using ring0_reads [OF r, of 15] by auto
  have "fToStdout t" using coreD [OF conjunct2 [OF read_buffer_core [OF e]]] by (simp add: ring0_simps)
  moreover have "current t = 15 \<and> (\<forall>q. 0 \<le> q \<and> q < 16 \<longrightarrow> read_buffer bench q None t = Done 1 (if fToStdout t then t\<lparr>fhout := Stdout\<rparr> else t))"
    using read_buffer_sticks [OF e] r by (simp add: ring0_simps)
  ultimately show ?thesis using e by simp
qed

end
