(* ===== verification/Lago_Online.thy ===== *)
theory Lago_Online
  imports Lago_Cursor
begin

text \<open>
  Total correctness of the read-out: when the registers are mapped, data files can be opened, the pressure sensor answers and
  the ring is mapped, \<^verbatim>\<open>new_file\<close>, every kind of word, and \<^verbatim>\<open>read_buffer\<close> for every position in the ring return, and leave the
  program ready for the next call.
\<close>

section \<open>Devices that answer\<close>

definition regs_up :: "env \<Rightarrow> 'a lago_scheme \<Rightarrow> bool" where
  "regs_up E s \<longleftrightarrow> cfg_ready E s \<and> uio_mapped xadc_dev (xadc_ptr s) \<and> (\<forall>f. os_fopen E f)"

definition writable :: "env \<Rightarrow> 'a lago_scheme \<Rightarrow> bool" where
  "writable E s \<longleftrightarrow> regs_up E s \<and> fhout s \<noteq> No_File"

lemma runs_modify_writable [runs_intros]:
  assumes "\<And>s. cfg_ptr (f s) = cfg_ptr s \<and> xadc_ptr (f s) = xadc_ptr s \<and> fhout (f s) = fhout s"
  shows "runs (writable E) (modify f) (writable E)"
  using assms by (intro runs_modify) (simp add: writable_def regs_up_def cfg_ready_def)

lemma runs_os [runs_intros]:
  "runs (writable E) (puts_out t) (writable E)" "runs (writable E) (puts_err t) (writable E)"
  "runs (regs_up E) (sys_time E) (regs_up E)"
  by (simp_all add: runs_def writable_def regs_up_def cfg_ready_def)

lemma runs_fput [runs_intros]: "runs (writable E) (fput t) (writable E)"
  by (auto simp: runs_def fput_def writable_def regs_up_def cfg_ready_def split: fh.split)

lemma runs_cfg_read [runs_intros]:
  "runs (regs_up E) (cfg_read E (cfg_off r)) (regs_up E)" "runs (writable E) (cfg_read E (cfg_off r)) (writable E)"
  by (auto simp: runs_def writable_def regs_up_def cfg_read_app simp del: cfg_off.simps)

lemma runs_fput_cfg [runs_intros]: "runs (writable E) (fput_cfg E r f) (writable E)"
  unfolding fput_cfg_def by (intro runs_intros)

lemma XADC_offsets [simp]: "reg_offset XADC_AI0" "reg_offset XADC_AI1" "reg_offset XADC_AI2" "reg_offset XADC_AI3"
  by (simp_all add: reg_offset_def XADC_AI0_def XADC_AI1_def XADC_AI2_def XADC_AI3_def xadc_vaux_off_def)

lemma runs_get_voltage [runs_intros]: "reg_offset off \<Longrightarrow> runs (writable E) (get_voltage E off) (writable E)"
  by (auto simp: runs_def writable_def regs_up_def cfg_ready_def get_voltage_def dev_read_mapped)

lemma runs_get_temp [runs_intros]: "reg_offset off \<Longrightarrow> runs (writable E) (get_temp_AD592 E off) (writable E)"
  unfolding get_temp_AD592_def by (intro runs_intros)

lemma runs_normalise_date [runs_intros]:
  "runs (regs_up E) normalise_date (regs_up E)" "runs (writable E) normalise_date (writable E)"
  by (simp_all add: runs_def normalise_date_def writable_def regs_up_def cfg_ready_def Let_def)

lemma runs_open_data_file [runs_intros]: "runs (regs_up E) (open_data_file E) (writable E)"
  by (auto simp: runs_def open_data_file_def normalise_date_def Let_def writable_def regs_up_def cfg_ready_def)

lemma runs_new_file [runs_intros]: "runs (\<lambda>s. regs_up E s \<and> (fToStdout s \<longrightarrow> fhout s \<noteq> No_File)) (new_file E) (writable E)"
proof -
  let ?P = "\<lambda>s. regs_up E s \<and> (fToStdout s \<longrightarrow> fhout s \<noteq> No_File)"
  have "runs ?P (sys_time E) ?P" by (auto simp: runs_def regs_up_def cfg_ready_def)
  moreover have "runs (\<lambda>s. ?P s \<and> fToStdout s = b) (whn (\<not> b) (open_data_file E)) (writable E)" for b
    using runs_pre [OF runs_open_data_file] by (cases b) (auto simp: runs_def writable_def)
  ultimately show ?thesis
    unfolding new_file_def
    by (intro runs_bnd [of ?P "sys_time E" ?P] runs_gets runs_thn [of _ _ "writable E"] runs_stmts runs_ret)
      (auto intro!: runs_intros runs_gets intro: runs_pre)
qed


lemma runs_samples [runs_intros]: "runs (writable E) (put_samples c0 c1) (writable E)"
  unfolding put_samples_def by (intro runs_intros) (simp add: baseline_def Let_def)

lemma runs_trigger [runs_intros]: "runs (writable E) (put_trigger wo) (writable E)"
  unfolding put_trigger_def by (intro runs_intros) (simp add: Let_def)

lemma runs_counter [runs_intros]: "runs (writable E) (put_counter wo) (writable E)"
  unfolding put_counter_def Let_def count_pulse_def by (intro runs_intros) simp

lemma runs_new_file_writable [runs_intros]: "runs (writable E) (new_file E) (writable E)"
  by (rule runs_pre [OF runs_new_file]) (simp add: writable_def)

lemma runs_step_false_gps [runs_intros]: "runs (writable E) (step_false_gps E) (writable E)"
  unfolding step_false_gps_def by (intro runs_intros) simp

lemma runs_step_gps [runs_intros]: "runs (writable E) (step_gps E wo) (writable E)"
  unfolding step_gps_def Let_def by (intro runs_intros) simp_all

lemma runs_second [runs_intros]: "runs (writable E) (put_second E wo) (writable E)"
  unfolding put_second_def by (intro runs_intros XADC_offsets) simp_all

lemma runs_position [runs_intros]: "runs (writable E) (put_position wo) (writable E)"
  unfolding put_position_def Let_def by (intro runs_intros) simp_all

text \<open>A sensor whose readings never make a divisor zero.\<close>

definition sensor_up :: "env \<Rightarrow> bmp_ptr \<Rightarrow> 'a lago_scheme \<Rightarrow> bool" where
  "sensor_up E bmp s \<longleftrightarrow> (\<exists>i b. bmp = Some i \<and> live s i b \<and> (\<forall>l. calc_B5 b (UT_of E l) \<noteq> None) \<and>
     (\<forall>l l'. calc_pressure b (UT_of E l) (UP_of E l' (oss b)) \<noteq> None))"

definition online :: "env \<Rightarrow> bmp_ptr \<Rightarrow> 'a lago_scheme \<Rightarrow> bool" where
  "online E bmp s \<longleftrightarrow> writable E s \<and> sensor_up E bmp s"

lemma sensor_up_core: "core s = core t \<Longrightarrow> sensor_up E bmp s = sensor_up E bmp t"
  by (simp add: sensor_up_def live_def core_def)

lemma runs_online:
  assumes "runs (writable E) m (writable E)" "stable core m"
  shows "runs (online E bmp) m (online E bmp)"
  using assms stable_Done [OF assms(2)] sensor_up_core unfolding runs_def online_def by metis

lemma bmp180_temperature_up: "runs (online E bmp) (bmp180_temperature E bmp) (online E bmp)"
proof (unfold runs_def, intro allI impI)
  fix s :: "'a lago_scheme" assume o: "online E bmp s"
  then obtain i b where b: "bmp = Some i" "live s i b" "\<forall>l. calc_B5 b (UT_of E l) \<noteq> None"
    by (auto simp: online_def sensor_up_def)
  from b(3) obtain B5 where "calc_B5 b (UT_of E (i2c_log s)) = Some B5" by blast
  with b have "bmp180_temperature E bmp s = Done (calc_T B5) (s\<lparr>i2c_log := I2c_Read_Word 0xF6 # I2c_Write 0xF4 0x2E # i2c_log s\<rparr>)"
    by (simp add: bmp180_temperature_def raw_temperature_live)
  moreover have "online E bmp (s\<lparr>i2c_log := l\<rparr>)" for l
    using o by (simp add: online_def sensor_up_def writable_def regs_up_def cfg_ready_def)
  ultimately show "\<exists>x t. bmp180_temperature E bmp s = Done x t \<and> online E bmp t" by blast
qed

lemma bmp180_pressure_up: "runs (online E bmp) (bmp180_pressure E bmp) (online E bmp)"
proof (unfold runs_def, intro allI impI)
  fix s :: "'a lago_scheme" assume o: "online E bmp s"
  then obtain i b where b: "bmp = Some i" "live s i b" "\<forall>l l'. calc_pressure b (UT_of E l) (UP_of E l' (oss b)) \<noteq> None"
    by (auto simp: online_def sensor_up_def)
  let ?l = "I2c_Read_Word 0xF6 # I2c_Write 0xF4 0x2E # i2c_log s"
  from raw_pressure_live [of "s\<lparr>i2c_log := ?l\<rparr>" i b E] b(2) obtain l where
    l: "bmp180_read_raw_pressure E (Some i) (of_int (oss b)) (s\<lparr>i2c_log := ?l\<rparr>) = Done (UP_of E ?l (oss b)) (s\<lparr>i2c_log := l\<rparr>)"
    by auto
  from b(3) obtain r where "calc_pressure b (UT_of E (i2c_log s)) (UP_of E ?l (oss b)) = Some r" by blast
  with b l have "bmp180_pressure E bmp s = Done (f_of_int single_prec (sint r)) (s\<lparr>i2c_log := l\<rparr>)"
    by (simp add: bmp180_pressure_def raw_temperature_live)
  moreover have "online E bmp (s\<lparr>i2c_log := l\<rparr>)" for l
    using o by (simp add: online_def sensor_up_def writable_def regs_up_def cfg_ready_def)
  ultimately show "\<exists>x t. bmp180_pressure E bmp s = Done x t \<and> online E bmp t" by blast
qed

lemmas runs_fput_online = runs_online [OF runs_fput stable_fput]

lemma runs_record: "runs (online E bmp) (put_record E bmp wo) (online E bmp)"
  unfolding put_record_def Let_def
  by (intro runs_if runs_inv bmp180_temperature_up bmp180_pressure_up runs_fput_online runs_online stable_second runs_second
      stable_position runs_position runs_modify_writable stable_modify) (simp_all add: core_def writes_def)

lemma runs_word: "runs (online E bmp) (put_word E bmp c0 c1) (online E bmp)"
  unfolding put_word_def Let_def
  by (intro runs_if runs_record runs_online runs_samples runs_trigger runs_counter stable_samples stable_trigger stable_counter)


lemma runs_first_time:
  "runs (\<lambda>s. regs_up E s \<and> (fToStdout s \<longrightarrow> fhout s \<noteq> No_File)) (first_time E) (writable E)"
proof -
  let ?P = "\<lambda>s::'a lago_scheme. regs_up E s \<and> (fToStdout s \<longrightarrow> fhout s \<noteq> No_File)"
  have u: "?P s \<Longrightarrow> ?P (s\<lparr>hist := h\<rparr>)" "?P s \<Longrightarrow> ?P (s\<lparr>clock := n\<rparr>)"
    "?P s \<Longrightarrow> ?P (s\<lparr>fileTime := T, fileDate := d\<rparr>)" "?P s \<Longrightarrow> ?P (s\<lparr>fileTime := T, fileDate := d, falseGPS := b\<rparr>)" for s h n T d b
    by (simp_all add: regs_up_def cfg_ready_def)
  have "runs ?P (cfg_read E (cfg_off RESET_GRAL)) ?P"
    using u(1) by (auto simp: runs_def regs_up_def cfg_read_app simp del: cfg_off.simps)
  moreover have "runs ?P (sys_time E) ?P" using u(2) by (simp add: runs_def)
  moreover have "runs ?P (modify (\<lambda>s. s\<lparr>fileTime := T, fileDate := d\<rparr>)) ?P"
    "runs ?P (modify (\<lambda>s. s\<lparr>fileTime := T, fileDate := d, falseGPS := b\<rparr>)) ?P" "runs ?P normalise_date ?P" for T d b
    using u(3,4) by (simp_all add: runs_def normalise_date_def Let_def)
  moreover have "runs (writable E) (modify (\<lambda>s::'a lago_scheme. s\<lparr>fFirstTime := False\<rparr>)) (writable E)"
    by (rule runs_modify_writable) simp
  ultimately show ?thesis
    unfolding first_time_def
    by (intro runs_bnd [of ?P _ ?P] runs_thn [of ?P _ ?P _ "writable E"] runs_thn [of ?P "new_file E" "writable E"] runs_new_file
        runs_if runs_inv)
qed

text \<open>The ring is mapped, and the cursor is on it.\<close>

definition words_mapped :: "env \<Rightarrow> ptr \<Rightarrow> int \<Rightarrow> bool" where
  "words_mapped E p n \<longleftrightarrow> (case p of Mapped q b len \<Rightarrow> 4 * n \<le> page_round E len | _ \<Rightarrow> False)"

definition ring_mapped :: "env \<Rightarrow> 'a lago_scheme \<Rightarrow> bool" where
  "ring_mapped E s \<longleftrightarrow> limit s \<le> 2 ^ 30 \<and> - 2 \<le> current s \<and> current s < limit s \<and>
     words_mapped E (cma_ptr s) (limit s)"

lemma cma_ok_ring:
  assumes "ring_mapped E s" "0 \<le> k" "k < limit s"
  shows "cma_ok E s (of_int k) \<and> uint (of_int k :: u32) = k \<and> sint (of_int k :: u32) = k"
proof -
  have l: "limit s \<le> 2 ^ 30" using assms(1) by (simp add: ring_mapped_def)
  with assms(2,3) have u: "uint (of_int k :: u32) = k" by (intro uint_of_int_range) simp_all
  have s: "sint (of_int k :: u32) = k" using l assms(2,3) w32_id [of k] by (simp add: w32_def)
  have "half_index (of_int k) = 2 * k"
    using l assms(2,3) uint_of_int_range [of "2 * k"] by (simp add: half_index_def)
  with assms u s show ?thesis by (auto simp: cma_ok_def ring_mapped_def words_mapped_def split: ptr.splits)
qed

lemma read_words_run:
  "online E bmp s \<Longrightarrow> ring_mapped E s \<Longrightarrow> \<forall>k \<in> set ks. 0 \<le> k \<and> k < limit s \<Longrightarrow>
   \<exists>t. stmts (map (read_word E bmp) (map of_int ks)) s = Done () t \<and> online E bmp t \<and> ring_mapped E t"
proof (induction ks arbitrary: s)
  case (Cons k ks)
  from Cons.prems have k: "cma_ok E s (of_int k)" "sint (of_int k :: u32) = k" using cma_ok_ring [of E s k] by simp_all
  obtain u where u: "put_word E bmp (ch0_at s (of_int k)) (ch1_at s (of_int k)) s = Done () u" "online E bmp u"
    using runsD [OF runs_word Cons.prems(1)] by (metis (full_types) old.unit.exhaust)
  have c: "core u = core s" using stable_Done [OF stable_word u(1)] .
  define v where "v = u\<lparr>current := k\<rparr>"
  have rw: "read_word E bmp (of_int k) s = Done () v" using k u(1) by (simp add: read_word_def v_def)
  have "online E bmp v" using u(2) by (simp add: v_def online_def writable_def regs_up_def cfg_ready_def sensor_up_def live_def)
  moreover have "ring_mapped E v" "limit v = limit s"
    using c Cons.prems(2,3) by (simp_all add: v_def ring_mapped_def core_def)
  ultimately obtain t where "stmts (map (read_word E bmp) (map of_int ks)) v = Done () t" "online E bmp t" "ring_mapped E t"
    using Cons.IH [of v] Cons.prems(3) by auto
  with rw show ?case by auto
qed simp

definition ready :: "env \<Rightarrow> bmp_ptr \<Rightarrow> 'a lago_scheme \<Rightarrow> bool" where
  "ready E bmp s \<longleftrightarrow> regs_up E s \<and> sensor_up E bmp s \<and> ring_mapped E s \<and> (fhout s = No_File \<longrightarrow> fFirstTime s \<or> fToStdout s)"

lemma read_buffer_runs:
  assumes "ready E bmp s" "0 \<le> pos" "pos < limit s"
  shows "\<exists>t. read_buffer E pos bmp s = Done 1 t \<and> ready E bmp t"
proof -
  define s1 where "s1 = (if fToStdout s then s\<lparr>fhout := Stdout\<rparr> else s)"
  have c1: "core s1 = core s" by (simp add: s1_def core_def writes_def)
  have "regs_up E s1" using assms(1) by (simp add: s1_def ready_def regs_up_def cfg_ready_def)
  moreover have "fToStdout s1 \<Longrightarrow> fhout s1 \<noteq> No_File" "fhout s1 = No_File \<Longrightarrow> fFirstTime s1"
    using assms(1) by (auto simp: s1_def ready_def split: if_splits)
  ultimately obtain u where u: "whn (fFirstTime s1) (first_time E) s1 = Done () u" "writable E u"
    using runsD [OF runs_first_time, of E s1] by (cases "fFirstTime s1") (auto simp: writable_def)
  have cu: "core u = core (s\<lparr>fFirstTime := False\<rparr>)"
    using u(1) c1 first_time_core [of E s1 "()" u] by (cases "fFirstTime s1") (simp_all add: core_def writes_def)
  define v where "v = rewind u"
  have cv: "core v = core (s\<lparr>fFirstTime := False, current := start_cursor (current s) (limit s)\<rparr>)"
    using cu by (auto simp: v_def rewind_def start_cursor_def core_def writes_def)
  have r0: "in_ring (current s) pos (limit s)" using assms by (simp add: in_ring_def ready_def ring_mapped_def)
  have v: "online E bmp v" "ring_mapped E v" "limit v = limit s" "in_ring (current v) pos (limit v)"
  proof -
    show l: "limit v = limit s" using cv by (simp add: core_def)
    have c: "current v = start_cursor (current s) (limit s)" using cv by (simp add: core_def)
    show "in_ring (current v) pos (limit v)" using start_cursor_ring [OF r0] unfolding c l by blast
    then show "ring_mapped E v" using assms(1) cv l by (simp add: ready_def ring_mapped_def in_ring_def core_def)
    have "sensor_up E bmp v" using assms(1) cv sensor_up_core [of v "s\<lparr>fFirstTime := False, current := start_cursor (current s) (limit s)\<rparr>" E bmp]
      by (simp add: ready_def sensor_up_def live_def)
    moreover have "writable E v" using u(2) by (simp add: v_def rewind_def writable_def regs_up_def cfg_ready_def)
    ultimately show "online E bmp v" by (simp add: online_def)
  qed
  define ks where "ks = (if current v = pos then [] else [current v + 2 .. read_end (current v) pos (limit v) - 1])"
  have "\<forall>k \<in> set ks. 0 \<le> k \<and> k < limit v" using v(4) by (auto simp: ks_def in_ring_def read_end_def split: if_splits)
  from read_words_run [OF v(1,2) this] obtain t where
    t: "stmts (map (read_word E bmp) (map of_int ks)) v = Done () t" "online E bmp t" "ring_mapped E t" by blast
  have "read_buffer E pos bmp s = bnd (whn (fFirstTime s1) (first_time E)) (\<lambda>_ u.
      thn (whn (current (rewind u) \<noteq> pos) (stmts (map (read_word E bmp) (indices (window (current (rewind u)) pos (limit (rewind u))))))) (ret 1) (rewind u)) s1"
    by (simp add: read_buffer_def s1_def whn_def bnd_def thn_def fun_eq_iff)
  also have "\<dots> = Done 1 t"
    using u(1) t(1) indices_ring [OF v(4)] by (cases "current v = pos") (simp_all add: v_def [symmetric] ks_def)
  finally have "read_buffer E pos bmp s = Done 1 t" .
  moreover have "ready E bmp t" using t(2,3) by (simp add: ready_def online_def writable_def)
  ultimately show ?thesis by blast
qed

end
