(* ===== verification/Lago_Clock.thy ===== *)
theory Lago_Clock
  imports Lago_Online
begin

text \<open>
  The clock of the acquisition, kept in \<^verbatim>\<open>fileTime\<close> and \<^verbatim>\<open>fileDate\<close>: stepped by the second records when there is no GPS,
  and normalised through \<^verbatim>\<open>timegm\<close> and \<^verbatim>\<open>gmtime\<close> (the interpretation \<open>utc\<close> of the calendar interface) on every path.
\<close>

section \<open>The clock\<close>

definition clk :: "'a lago_scheme \<Rightarrow> int \<times> tm \<times> bool \<times> bool \<times> string \<times> string" where
  "clk s = (fileTime s, fileDate s, falseGPS s, fToStdout s, charFile s, charCurrentFile s)"

lemma clk_os:
  "stable clk (puts_out t)" "stable clk (puts_err t)" "stable clk (sys_time E)"
  by (simp_all add: stable_def clk_def)

lemma clk_dev_read: "stable clk (dev_read E p off)"
  by (auto simp: stable_def dev_read_def clk_def split: option.split)

lemma clk_cfg_read: "stable clk (cfg_read E off)"
  unfolding cfg_read_def by (intro stable_intros clk_dev_read)

lemma clk_converters: "stable clk (get_voltage E off)" "stable clk (get_temp_AD592 E off)"
  unfolding get_temp_AD592_def get_voltage_def by (intro stable_intros clk_dev_read)+

lemma clk_fput: "stable clk (fput t)" "stable clk (fput_cfg E r f)"
proof -
  show "stable clk (fput t)" for t unfolding fput_def by (auto simp: stable_def clk_def split: fh.split)
  then show "stable clk (fput_cfg E r f)" unfolding fput_cfg_def by (intro stable_intros clk_cfg_read)
qed

lemmas clk_intros = stable_intros clk_os clk_cfg_read clk_converters clk_fput

text \<open>The date after \<^verbatim>\<open>timegm\<close> and \<^verbatim>\<open>gmtime\<close>.\<close>

definition renorm :: "tm \<Rightarrow> int \<times> tm" where
  "renorm d = (timegm d, gmtime (timegm d))"

lemma renorm_gmtime: "- (2 ^ 31) \<le> T \<Longrightarrow> T < 2 ^ 31 \<Longrightarrow> renorm (gmtime T) = (T, gmtime T)"
  using civil_seconds_gmtime [of T] by (simp add: renorm_def timegm_in_range)

lemma renorm_idem: "renorm (snd (renorm d)) = renorm d"
  using renorm_gmtime [of "timegm d"] by (auto simp: renorm_def timegm_def Let_def)

lemma renorm_tick:
  assumes "- (2 ^ 31) \<le> T" "T + 1 < 2 ^ 31"
  shows "renorm ((gmtime T)\<lparr>tm_sec := tm_sec (gmtime T) + 1\<rparr>) = (T + 1, gmtime (T + 1))"
proof -
  have "civil_seconds ((gmtime T)\<lparr>tm_sec := tm_sec (gmtime T) + 1\<rparr>) = T + 1"
    using civil_seconds_gmtime [of T] by (simp add: civil_seconds_def Let_def)
  with assms show ?thesis by (simp add: renorm_def timegm_in_range)
qed

lemma clk_normalise_date: "clk (final (normalise_date s)) =
   (fst (renorm (fileDate s)), snd (renorm (fileDate s)), falseGPS s, fToStdout s, charFile s, charCurrentFile s)"
  by (simp add: normalise_date_def clk_def renorm_def Let_def)

lemma new_file_clock:
  assumes "new_file E s = Done r t"
  shows "(fileTime t, fileDate t) = (if fToStdout s then (fileTime s, fileDate s) else renorm (fileDate s)) \<and>
    falseGPS t = falseGPS s \<and> fToStdout t = fToStdout s \<and>
    (\<not> fToStdout s \<longrightarrow> charCurrentFile t = data_name (charFile s) (falseGPS s) (snd (renorm (fileDate s))) ''.dat'')"
proof -
  define s1 where "s1 = s\<lparr>clock := Suc (clock s)\<rparr>"
  define op where "op = whn (\<not> fToStdout s) (open_data_file E :: ('a lago_scheme, unit) io)"
  obtain rest where e: "new_file E s = thn op rest s1" and st: "stable clk (rest :: ('a lago_scheme, int) io)"
  proof (rule that)
    let ?rest = "thn (stmts (map (\<lambda>l. fput (l @ nl)) header_lines))
      (thn (stmts
       [fput_cfg E TRLVL_1 (\<lambda>v. ''# x c T1 '' @ fmt_d (sint v) @ nl),
        fput_cfg E TRLVL_2 (\<lambda>v. ''# x c T2 '' @ fmt_d (sint v) @ nl),
        fput_cfg E HV1 (\<lambda>v. ''# x c HV1 '' @ fmt_f 1 (dac_to_mv v) @ '' mV'' @ nl),
        fput_cfg E HV2 (\<lambda>v. ''# x c HV2 '' @ fmt_f 1 (dac_to_mv v) @ '' mV'' @ nl),
        fput_cfg E TR_SCAL_A (\<lambda>v. ''# x c SC1 '' @ fmt_d (sint v) @ nl),
        fput_cfg E TR_SCAL_B (\<lambda>v. ''# x c SC2 '' @ fmt_d (sint v) @ nl),
        fput (''# # This file was started on '' @ host_name E @ nl),
        fput (''# # Machine local time was '' @ ctime_r E (os_time E (clock s))),
        bnd (gets falseGPS) (\<lambda>g. whn g (fput (''# # WARNING, there is no GPS, using PC time'' @ nl))),
        fput (''# #'' @ nl)]) (ret 0)) :: ('a lago_scheme, int) io"
    show "new_file E s = thn op ?rest s1"
      by (simp add: new_file_def op_def s1_def del: stmts.simps)
    show "stable clk ?rest"
      by (intro clk_intros) (auto intro!: clk_intros)
  qed
  from assms e obtain y u where u: "op s1 = Done y u" "rest u = Done r t" by (cases "op s1") auto
  have "clk t = clk u" using stable_Done [OF st u(2)] .
  moreover have "clk u = (if fToStdout s then clk s else (fst (renorm (fileDate s)), snd (renorm (fileDate s)), falseGPS s,
      fToStdout s, charFile s, data_name (charFile s) (falseGPS s) (snd (renorm (fileDate s))) ''.dat''))"
    using u(1) by (cases "fToStdout s") (auto simp: op_def s1_def open_data_file_def normalise_date_def Let_def clk_def renorm_def)
  ultimately show ?thesis by (auto simp: clk_def split: if_splits)
qed


lemma step_false_gps_clock:
  assumes "step_false_gps E s = Done x t"
  shows "renorm (fileDate t) = renorm ((fileDate s)\<lparr>tm_sec := tm_sec (fileDate s) + 1\<rparr>)"
proof -
  define s1 where "s1 = s\<lparr>fileDate := (fileDate s)\<lparr>tm_sec := tm_sec (fileDate s) + 1\<rparr>\<rparr>"
  define d where "d = (fileDate s)\<lparr>tm_sec := tm_sec (fileDate s) + 1\<rparr>"
  have e: "step_false_gps E s =
    (if tm_sec d = 60 \<and> tm_min d = 59 then whn (\<not> fToStdout s) (thn (new_file E) (ret ())) else normalise_date) s1"
    by (simp add: step_false_gps_def s1_def d_def)
  have d1: "fileDate s1 = d" "fToStdout s1 = fToStdout s" by (simp_all add: s1_def d_def)
  consider "tm_sec d = 60" "tm_min d = 59" "\<not> fToStdout s" | "tm_sec d = 60" "tm_min d = 59" "fToStdout s" | "\<not> (tm_sec d = 60 \<and> tm_min d = 59)"
    by blast
  then have "renorm (fileDate t) = renorm d"
  proof cases
    case 1
    with assms e obtain r where "new_file E s1 = Done r t" by (cases "new_file E s1") auto
    from new_file_clock [OF this] 1 d1 have "renorm d = (fileTime t, fileDate t)" by simp
    then have "fileDate t = snd (renorm d)" by simp
    then show ?thesis by (simp add: renorm_idem)
  next
    case 2
    with assms e d1 show ?thesis by auto
  next
    case 3
    with assms e d1 have "fileDate t = snd (renorm d)" by (auto simp: normalise_date_def Let_def renorm_def)
    then show ?thesis by (simp add: renorm_idem)
  qed
  then show ?thesis by (simp add: d_def)
qed

lemma put_second_clock:
  assumes "put_second E wo s = Done x t"
  shows "\<exists>y u. (if falseGPS s then step_false_gps E else step_gps E wo) s = Done y u \<and> (fileTime t, fileDate t) = renorm (fileDate u)"
proof -
  define st where "st = (if falseGPS s then step_false_gps E else step_gps E wo :: ('a lago_scheme, unit) io)"
  define sec :: "'a lago_scheme \<Rightarrow> 'a lago_scheme" where "sec = (\<lambda>s. s\<lparr>mtd_seconds := w32 (mtd_seconds s + 1)\<rparr>)"
  obtain rest where e: "put_second E wo s = thn st (thn (modify sec) (thn normalise_date rest)) s"
    and sr: "stable clk (rest :: ('a lago_scheme, unit) io)"
  proof (rule that)
    let ?rest = "thn (bnd (gets (\<lambda>s. (fileDate s, fileTime s))) (\<lambda>(d, t).
       fput (''# x h   '' @ fmt_0d 2 (tm_hour d) @ '':'' @ fmt_0d 2 (tm_min d) @ '':'' @ fmt_0d 2 (tm_sec d) @ '' '' @
             fmt_0d 2 (tm_mday d) @ ''/'' @ fmt_0d 2 (tm_mon d + 1) @ ''/'' @ fmt_0d 4 (tm_year d + 1900) @ '' '' @
             fmt_d t @ '' '' @ fmt_d (sint (wo AND 0x03FFFFFF)) @ nl)))
    (thn (bnd (get_voltage E XADC_AI2) (\<lambda>v2. bnd (get_voltage E XADC_AI3) (\<lambda>v3.
       fput (''# x v '' @ fmt_f 1 (volts_to_hv v2) @ '' '' @ fmt_f 1 (volts_to_hv v3) @ nl))))
    (thn (bnd (get_temp_AD592 E XADC_AI0) (\<lambda>t0. bnd (get_temp_AD592 E XADC_AI1) (\<lambda>t1. bnd (gets hack) (\<lambda>k.
       thn (modify (\<lambda>s. s\<lparr>hack := w32 (k + 1)\<rparr>))
           (fput (''# p '' @ fmt_u (uint (of_int k :: u32)) @ '' '' @ fmt_f 1 t0 @ '' '' @ fmt_f 1 t1 @ nl))))))
    (thn (bnd (gets hack) (\<lambda>k. whn (k smod 60 = 0) (puts_out nl)))
         (bnd (gets (\<lambda>s. (r1 s, r2 s, hack s))) (\<lambda>(a, b, k).
            puts_out (''rates '' @ fmt_wd 5 a @ '' '' @ fmt_wd 5 b @ '', PPS '' @ fmt_u (uint (of_int k :: u32)) @ ''        '' @ cr))))))
        :: ('a lago_scheme, unit) io"
    show "put_second E wo s = thn st (thn (modify sec) (thn normalise_date ?rest)) s"
      by (simp only: put_second_def st_def sec_def thn_bnd bnd_gets thn_assoc)
    show "stable clk ?rest"
      by (intro clk_intros) (simp add: clk_def)
  qed
  from assms e obtain y u where u: "st s = Done y u" by (cases "st s") auto
  define v where "v = (sec u)\<lparr>fileTime := fst (renorm (fileDate u)), fileDate := snd (renorm (fileDate u))\<rparr>"
  have "rest v = Done x t"
    using assms e u by (simp add: normalise_date_def Let_def v_def sec_def renorm_def)
  with sr have "clk t = clk v" by (blast dest: stable_Done)
  then have "(fileTime t, fileDate t) = renorm (fileDate u)" by (simp add: clk_def v_def)
  with u show ?thesis unfolding st_def by auto
qed

lemma second_without_gps:
  assumes "put_second E wo s = Done x t" "falseGPS s" "fileDate s = gmtime T" "- (2 ^ 31) \<le> T" "T + 1 < 2 ^ 31"
  shows "fileTime t = T + 1 \<and> fileDate t = gmtime (T + 1)"
proof -
  from put_second_clock [OF assms(1)] assms(2) obtain y u
    where u: "step_false_gps E s = Done y u" "(fileTime t, fileDate t) = renorm (fileDate u)" by auto
  from step_false_gps_clock [OF u(1)] renorm_tick [OF assms(4,5)] u(2) assms(3) show ?thesis by simp
qed

lemma first_time_gps:
  assumes "first_time E s = Done x t" "cfg_ready E s" "\<not> bit (reg E s RESET_GRAL) 4"
  shows "fileTime t = - 1 \<and> fileDate t = gmtime (- 1) \<and>
    (\<not> fToStdout s \<longrightarrow> charCurrentFile t = data_name (charFile s) (falseGPS s) (gmtime (- 1)) ''.dat'')"
proof -
  have z: "drop_bit 4 (bus E (hist s) cfg_dev (uint (cfg_off RESET_GRAL))) AND 1 \<noteq> 1"
    using assms(3) by (simp add: and_one_bit reg_def)
  let ?d = "\<lparr>tm_sec = 55, tm_min = 55, tm_hour = 10, tm_mday = 29, tm_mon = 8, tm_year = 2018\<rparr>"
  have "timegm ?d = - 1" by code_simp
  then have d: "renorm ?d = (- 1, gmtime (- 1))" "renorm (gmtime (- 1)) = (- 1, gmtime (- 1))"
    using renorm_gmtime [of "- 1"] by (simp_all add: renorm_def)
  define u where "u = s\<lparr>hist := Rd cfg_dev (uint (cfg_off RESET_GRAL)) # hist s, clock := Suc (clock s),
     fileTime := - 1, fileDate := gmtime (- 1)\<rparr>"
  have "first_time E s = thn (new_file E) (modify (\<lambda>s. s\<lparr>fFirstTime := False\<rparr>)) u"
    using assms(2) z d(1)
    by (simp add: first_time_def cfg_read_app normalise_date_def u_def renorm_def Let_def del: cfg_off.simps)
  with assms(1) obtain r v where v: "new_file E u = Done r v" "t = v\<lparr>fFirstTime := False\<rparr>" by (cases "new_file E u") auto
  from new_file_clock [OF v(1)] d(2) v(2) show ?thesis by (cases "fToStdout s") (simp_all add: u_def)
qed

section \<open>Properties\<close>

text \<open>
  (C17) The clock without a GPS: each second record advances the time by exactly one second and leaves the matching
  calendar date, through the ends of minutes, hours, days, months and years, also when the record starts a new file.
\<close>

theorem clock_without_gps:
  assumes "put_second E wo s = Done x t" "falseGPS s" "fileDate s = gmtime T" "- (2 ^ 31) \<le> T" "T + 1 < 2 ^ 31"
  shows "fileTime t = T + 1 \<and> fileDate t = gmtime (T + 1)"
  using second_without_gps [OF assms] .

definition night0 :: lago where
  "night0 = lago0\<lparr>falseGPS := True, fToStdout := True, fhout := Stdout, fileDate := gmtime 86399\<rparr>"

lemma night0_second: "\<exists>t. put_second bench 0xD8000000 night0 = Done () t"
proof -
  have "writable bench night0" by (simp add: writable_def regs_up_def cfg_ready_def night0_def lago0_defs)
  from runsD [OF runs_second this] show ?thesis by (metis (full_types) old.unit.exhaust)
qed

theorem clock_without_gps_witness:
  "\<exists>t. put_second bench 0xD8000000 night0 = Done () t \<and> fileTime t = 86400 \<and> tm_mday (fileDate t) = 2 \<and> tm_hour (fileDate t) = 0"
proof -
  obtain t where e: "put_second bench 0xD8000000 night0 = Done () t" using night0_second by blast
  have "fileTime t = 86399 + 1 \<and> fileDate t = gmtime (86399 + 1)"
    by (rule clock_without_gps [OF e]) (simp_all add: night0_def)
  moreover have "tm_mday (gmtime 86400) = 2" "tm_hour (gmtime 86400) = 0" by code_simp+
  ultimately show ?thesis using e by simp
qed

text \<open>
  The first file with a GPS: when the false GPS bit is clear, the first call stores the year as 2018 instead of an
  offset from 1900, which no 32-bit time can represent; the acquisition starts at time -1, and the data file is named after
  the last hour of 1969.
\<close>

theorem first_file_with_gps:
  assumes "first_time E s = Done x t" "cfg_ready E s" "\<not> bit (reg E s RESET_GRAL) 4"
  shows "fileTime t = - 1 \<and> fileDate t = gmtime (- 1) \<and>
    (\<not> fToStdout s \<longrightarrow> charCurrentFile t = data_name (charFile s) (falseGPS s) (gmtime (- 1)) ''.dat'')"
  using first_time_gps [OF assms] .

theorem first_file_with_gps_witness:
  "\<exists>t. first_time bench (lago0\<lparr>charFile := ''run''\<rparr>) = Done () t \<and> charCurrentFile t = ''run_1969_12_31_23h00.dat''"
proof -
  have "regs_up bench (lago0\<lparr>charFile := ''run''\<rparr>) \<and>
    (fToStdout (lago0\<lparr>charFile := ''run''\<rparr>) \<longrightarrow> fhout (lago0\<lparr>charFile := ''run''\<rparr>) \<noteq> No_File)"
    by (simp add: regs_up_def cfg_ready_def lago0_defs)
  then obtain t where e: "first_time bench (lago0\<lparr>charFile := ''run''\<rparr>) = Done () t"
    using runsD [OF runs_first_time, of bench "lago0\<lparr>charFile := ''run''\<rparr>"] by auto
  have "data_name ''run'' False (gmtime (- 1)) ''.dat'' = ''run_1969_12_31_23h00.dat''" by code_simp
  with e first_file_with_gps [OF e] show ?thesis
    by (simp add: reg_def cfg_ready_def lago0_defs)
qed

end
