(* ===== verification/Lago_Main.thy ===== *)
theory Lago_Main
  imports Lago_Clock
begin

text \<open>
  The main program of \<^verbatim>\<open>lago.c\<close>: the wait for an interrupt, the two service threads, the acquisition loop and \<^verbatim>\<open>main\<close>.
  One wait consumes one element of \<open>irqs\<close>, which says what the kernel answers; when the list is exhausted the process
  waits for ever (\<open>Blocked\<close>).  The signal handler is an assignment to \<^verbatim>\<open>interrupted\<close> that happens during a wait.
\<close>

section \<open>Interrupts\<close>

definition signal_handler :: "('a lago_scheme, unit) io" where
  "signal_handler = modify (\<lambda>s. s\<lparr>interrupted := True\<rparr>)"

definition next_irq :: "('a lago_scheme, irq) io" where
  "next_irq =
     (\<lambda>s. case irqs s of [] \<Rightarrow> Stopped Blocked s
        | q # qs \<Rightarrow> Done q (s\<lparr>irqs := qs, cma_mem := irq_mem q, interrupted := (interrupted s \<or> irq_sig q)\<rparr>))"

definition wait_for_interrupt :: "env \<Rightarrow> int \<Rightarrow> ptr \<Rightarrow> ('a lago_scheme, int) io" where
  "wait_for_interrupt E fd_int dp =
     bnd next_irq (\<lambda>q.
     if irq_wr q \<noteq> 4 then thn (puts_err ''write'') (thn (sys_close fd_int) (halt (Exit 1)))
     else if 1 \<le> irq_poll q then
       (if irq_rd q = 4 then
          bnd (dev_read E dp (intc_off IPR)) (\<lambda>value.
          thn (whn (value AND 1 \<noteq> 0)
                (thn (dev_write E dp (intc_off IAR) 1)
                (bnd (gets sts_ptr) (\<lambda>sp. bnd (dev_read E sp STS_STATUS_OFFSET) (\<lambda>w.
                 modify (\<lambda>s. s\<lparr>position := sint w\<rparr>))))))
              (ret (irq_poll q)))
        else thn (puts_err ''poll()'') (thn (sys_close fd_int) (halt (Exit 1))))
     else ret (irq_poll q))"

definition wait_intc :: "env \<Rightarrow> ('a lago_scheme, int) io" where
  "wait_intc E = bnd (gets intc_fd) (\<lambda>fd. bnd (gets intc_ptr) (\<lambda>p. wait_for_interrupt E fd p))"

section \<open>Service threads\<close>

text \<open>One turn of \<^verbatim>\<open>thread_isr\<close>: after an interrupt, or an error of \<^verbatim>\<open>poll\<close>, the coordinates go to the registers as fixed point numbers.\<close>

definition fixed16 :: "flt \<Rightarrow> i32" where
  "fixed16 x = of_int (f_to_i32 (fmul double_prec x (f_of_int double_prec 65536)))"

definition publish_gps :: "env \<Rightarrow> loc_t \<Rightarrow> ('a lago_scheme, unit) io" where
  "publish_gps E g =
     stmts
       [cfg_write E (cfg_off TIME) (of_int (f_to_i32 (loc_times g))),
        cfg_write E (cfg_off DATE) (of_int (f_to_i32 (date g))),
        cfg_write E (cfg_off LATITUDE) (fixed16 (latitude g)),
        cfg_write E (cfg_off LONGITUDE) (fixed16 (longitude g)),
        cfg_write E (cfg_off ALTITUDE) (fixed16 (altitude g)),
        cfg_write E (cfg_off SATELLITE) (of_int (f_to_i32 (satellites g)))]"

definition thread_isr_turn :: "env \<Rightarrow> ('a lago_scheme, unit) io" where
  "thread_isr_turn E =
     bnd (wait_intc E) (\<lambda>r.
     whn (r \<noteq> 0)
       (bnd (gets g_data) (\<lambda>g. bnd (gps_location E g) (\<lambda>g'.
        thn (modify (\<lambda>s. s\<lparr>g_data := g'\<rparr>)) (publish_gps E g')))))"

definition thread_isr_not_gps_turn :: "env \<Rightarrow> ('a lago_scheme, unit) io" where
  "thread_isr_not_gps_turn E = thn (wait_intc E) (ret ())"

text \<open>The endless loops, on as many turns as there are waits to consume.\<close>

fun forever :: "('s, unit) io \<Rightarrow> nat \<Rightarrow> ('s, unit) io" where
  "forever t 0 = halt Blocked"
| "forever t (Suc n) = thn t (forever t n)"

definition thread_isr :: "env \<Rightarrow> ('a lago_scheme, unit) io" where
  "thread_isr E = thn (gps_init E) (\<lambda>s. forever (thread_isr_turn E) (Suc (length (irqs s))) s)"

definition thread_isr_not_gps :: "env \<Rightarrow> ('a lago_scheme, unit) io" where
  "thread_isr_not_gps E = (\<lambda>s. forever (thread_isr_not_gps_turn E) (Suc (length (irqs s))) s)"

section \<open>Acquisition\<close>

fun daq_loop :: "env \<Rightarrow> bmp_ptr \<Rightarrow> nat \<Rightarrow> ('a lago_scheme, unit) io" where
  "daq_loop E bmp 0 = halt Blocked"
| "daq_loop E bmp (Suc n) =
     bnd (gets interrupted) (\<lambda>i.
     if i then ret ()
     else thn (wait_intc E)
         (thn (bnd (gets position) (\<lambda>pos. read_buffer E pos bmp))
              (daq_loop E bmp n)))"

definition daq_run :: "env \<Rightarrow> bmp_ptr \<Rightarrow> ('a lago_scheme, unit) io" where
  "daq_run E bmp = (\<lambda>s. daq_loop E bmp (Suc (Suc (length (irqs s)))) s)"

definition reset_or :: "env \<Rightarrow> u32 \<Rightarrow> ('a lago_scheme, unit) io" where
  "reset_or E m =
     bnd (cfg_read E (cfg_off RESET_GRAL)) (\<lambda>v.
     thn (modify (\<lambda>s. s\<lparr>reg_val := v\<rparr>)) (cfg_write E (cfg_off RESET_GRAL) (v OR m)))"

definition reset_clear :: "env \<Rightarrow> u32 \<Rightarrow> ('a lago_scheme, unit) io" where
  "reset_clear E m =
     bnd (cfg_read E (cfg_off RESET_GRAL)) (\<lambda>v.
     thn (modify (\<lambda>s. s\<lparr>reg_val := v\<rparr>)) (cfg_write E (cfg_off RESET_GRAL) (v AND NOT m)))"

definition acquire :: "env \<Rightarrow> bmp_ptr \<Rightarrow> ('a lago_scheme, unit) io" where
  "acquire E bmp =
     stmts
       [modify (\<lambda>s. s\<lparr>limit := 1024 * 1024, current := - 2\<rparr>),
        reset_or E 2, reset_or E 1, reset_or E 4,
        daq_run E bmp,
        reset_clear E 1, reset_clear E 4, reset_clear E 2]"

section \<open>Main\<close>

definition print_pt :: "env \<Rightarrow> bmp_ptr \<Rightarrow> ('a lago_scheme, unit) io" where
  "print_pt E bmp =
     (if bmp \<noteq> None then
        bnd (bmp180_temperature E bmp) (\<lambda>t.
        bnd (bmp180_pressure E bmp) (\<lambda>p.
        bnd (bmp180_altitude E bmp) (\<lambda>alt.
        thn (puts_out (''Temperature = '' @ fmt_f 1 t @ '', Pressure = '' @
              fmt_f 2 (fdiv double_prec p (f_of_int double_prec 100)) @ '', Altitude= '' @ fmt_f 1 alt @ nl))
            (bmp180_close bmp))))
      else puts_out (''Error! NO BMP device is present!'' @ nl))"

definition print_gps :: "env \<Rightarrow> ('a lago_scheme, unit) io" where
  "print_gps E =
     bnd (cfg_read E (cfg_off RESET_GRAL)) (\<lambda>v.
     if drop_bit 4 v AND 1 = 1 then puts_out (''No GPS device is present or enabled!!!'' @ nl)
     else thn (gps_print_data E) (ret ()))"

definition degree_c :: string where
  "degree_c = '' '' @ [CHR 0xC2, CHR 0xBA] @ ''C''"

definition print_xadc :: "env \<Rightarrow> ('a lago_scheme, unit) io" where
  "print_xadc E =
     stmts
       [puts_out (''Reading XADC channels...'' @ nl),
        bnd (get_voltage E XADC_AI0) (\<lambda>v. puts_out (''Voltage CH1: '' @ fmt_f 3 v @ nl)),
        bnd (get_voltage E XADC_AI1) (\<lambda>v. puts_out (''Voltage CH2: '' @ fmt_f 3 v @ nl)),
        bnd (get_voltage E XADC_AI2) (\<lambda>v. puts_out (''Voltage CH3: '' @ fmt_f 3 v @ '' V ('' @ fmt_f 1 (volts_to_hv v) @ '' V)'' @ nl)),
        bnd (get_voltage E XADC_AI3) (\<lambda>v. puts_out (''Voltage CH4: '' @ fmt_f 3 v @ '' V ('' @ fmt_f 1 (volts_to_hv v) @ '' V)'' @ nl)),
        bnd (get_temp_AD592 E XADC_AI0) (\<lambda>t. puts_out (''Base temperature CH1: '' @ fmt_f 1 t @ degree_c @ nl)),
        bnd (get_temp_AD592 E XADC_AI1) (\<lambda>t. puts_out (''Base temperature CH2: '' @ fmt_f 1 t @ degree_c @ nl))]"

text \<open>The first access to the logic.  \<^verbatim>\<open>pthread_create\<close> is recorded in \<open>spawned\<close>: the sequential model of \<^verbatim>\<open>main\<close> does
  not run the new thread, whose turns (\<open>thread_isr_not_gps_turn\<close>) are interleaved with the calls of the acquisition loop by
  \<open>daq_step\<close> below.  The thread waits for interrupts, acknowledges them and updates \<^verbatim>\<open>position\<close>: it writes no register of the
  configuration block.  It exists in the run that finds the logic in reset and in no other.\<close>

definition first_access :: "env \<Rightarrow> ('a lago_scheme, unit) io" where
  "first_access E =
     bnd (cfg_read E (cfg_off RESET_GRAL)) (\<lambda>v.
     whn (v = 0)
       (stmts
         [puts_out (''Initializing registers...'' @ nl),
          thn (init_system E) (ret ()),
          if thread_rc E \<noteq> 0 then thn (puts_err ''pthread_create :: error '') (halt (Exit 1))
          else modify (\<lambda>s. s\<lparr>spawned := True\<rparr>),
          thn (enable_interrupt E) (ret ())]))"

definition dispatch :: "env \<Rightarrow> bmp_ptr \<Rightarrow> ('a lago_scheme, unit) io" where
  "dispatch E bmp =
     bnd (gets id) (\<lambda>s.
     if fReadReg s then thn (rd_reg_value E (n_dev s) (reg_off s) 1) (ret ())
     else if fWriteReg s then thn (wr_reg_value E (n_dev s) (reg_off s) (reg_val s) 1) (ret ())
     else if fSetCfgReg s then
       (if fRegValue s then set_voltage E (reg_off s) (of_int (atoi (charRegValue s)))
        else thn (wr_reg_value E 1 (reg_off s) (of_int (atoi (charRegValue s))) 1) (ret ()))
     else if fGetCfgStatus s then thn (rd_cfg_status E) (ret ())
     else if fGetPT s then print_pt E bmp
     else if fGetGPS s then print_gps E
     else if fInitSystem s then thn (puts_out (''Initializing registers...'' @ nl)) (thn (init_system E) (ret ()))
     else if fGetXADC s then print_xadc E
     else if fToFile s \<or> fToStdout s then acquire E bmp
     else ret ())"

definition close_devices :: "('a lago_scheme, unit) io" where
  "close_devices =
     bnd (gets id) (\<lambda>s.
     stmts
       [modify (\<lambda>s. s\<lparr>intc_ptr := Null, cfg_ptr := Null, sts_ptr := Null, xadc_ptr := Null\<rparr>),
        sys_close (intc_fd s), sys_close (cfg_fd s), sys_close (sts_fd s), sys_close (xadc_fd s)])"

definition main :: "env \<Rightarrow> string list \<Rightarrow> ('a lago_scheme, int) io" where
  "main E argv =
     bnd (bmp180_init E 0x77 ''/dev/i2c-0'') (\<lambda>bmp.
     thn (bmp180_dump_eprom bmp)
    (thn (bmp180_set_oss bmp 1)
    (bnd (parse_param argv) (\<lambda>ok.
     if ok = 0 then bnd (argv_at argv 0) (\<lambda>progname. thn (show_usage progname) (ret 1))
     else
       thn (intc_init E) (thn (cfg_init E) (thn (sts_init E) (thn (xadc_init E) (thn (cma_init E)
      (thn (rd_reg_value E 1 (cfg_off WR_ADDR) 0)
      (thn (bnd (gets dev_size) (\<lambda>n. wr_reg_value E 1 (cfg_off WR_ADDR) n 0))
      (thn (first_access E)
      (thn (dispatch E bmp)
      (thn close_devices
           (ret 0))))))))))))))"

section \<open>A wait that is served\<close>

text \<open>The answers of the kernel on which \<^verbatim>\<open>wait_for_interrupt\<close> returns.\<close>

definition served :: "irq \<Rightarrow> bool" where
  "served q \<longleftrightarrow> irq_wr q = 4 \<and> (1 \<le> irq_poll q \<longrightarrow> irq_rd q = 4)"

text \<open>The state in which the main loop waits: the devices are mapped, the read-out is ready, and the position of the writer is
  on the ring.\<close>

definition daq_ok :: "env \<Rightarrow> bmp_ptr \<Rightarrow> 'a lago_scheme \<Rightarrow> bool" where
  "daq_ok E bmp s \<longleftrightarrow> ready E bmp s \<and> uio_mapped intc_dev (intc_ptr s) \<and> uio_mapped sts_dev (sts_ptr s) \<and>
     0 \<le> position s \<and> position s < limit s"

text \<open>The writer reports positions on the ring.\<close>

definition status_in :: "env \<Rightarrow> int \<Rightarrow> bool" where
  "status_in E l \<longleftrightarrow> (\<forall>h. uint (bus E h sts_dev 0) < l)"

lemma ready_irq:
  "ready E bmp (s\<lparr>irqs := a, cma_mem := m, interrupted := i\<rparr>) = ready E bmp s"
  "ready E bmp (s\<lparr>hist := h\<rparr>) = ready E bmp s" "ready E bmp (s\<lparr>position := p\<rparr>) = ready E bmp s"
  by (simp_all add: ready_def regs_up_def cfg_ready_def sensor_up_def live_def ring_mapped_def)

lemma sint_pos: "uint (w :: u32) < 2 ^ 31 \<Longrightarrow> sint w = uint w"
  using sint_of_int_range [of "uint w"] order_trans [OF _ uint_ge_0, of "- (2 ^ 31)" w] by simp

text \<open>The three states a served wait can leave: after a time-out, after an interrupt of another source, and after an interrupt
  of the writer, which is acknowledged and whose position is read.\<close>

inductive waited :: "env \<Rightarrow> irq \<Rightarrow> irq list \<Rightarrow> 'a lago_scheme \<Rightarrow> 'a lago_scheme \<Rightarrow> bool" for E q qs s where
  timeout: "waited E q qs s (s\<lparr>irqs := qs, cma_mem := irq_mem q, interrupted := (interrupted s \<or> irq_sig q)\<rparr>)"
| other: "filter is_write h = filter is_write (hist s) \<Longrightarrow>
    waited E q qs s (s\<lparr>irqs := qs, cma_mem := irq_mem q, interrupted := (interrupted s \<or> irq_sig q), hist := h\<rparr>)"
| writer: "filter is_write h = Wr intc_dev (uint (intc_off IAR)) 1 # filter is_write (hist s) \<Longrightarrow>
    waited E q qs s (s\<lparr>irqs := qs, cma_mem := irq_mem q, interrupted := (interrupted s \<or> irq_sig q), hist := h,
      position := sint (bus E g sts_dev 0)\<rparr>)"

lemma wait_app:
  assumes "irqs s = q # qs" "served q" "daq_ok E bmp s"
  shows "\<exists>t. wait_intc E s = Done (irq_poll q) t \<and> waited E q qs s t"
proof -
  define u where "u = s\<lparr>irqs := qs, cma_mem := irq_mem q, interrupted := (interrupted s \<or> irq_sig q)\<rparr>"
  have n: "next_irq s = Done q u" using assms(1) by (simp add: next_irq_def u_def)
  have m: "uio_mapped intc_dev (intc_ptr s)" "uio_mapped sts_dev (sts_ptr s)" "4096 \<le> page_size E"
    using assms(3) by (auto simp: daq_ok_def ready_def regs_up_def cfg_ready_def)
  have o: "reg_offset STS_STATUS_OFFSET" "uint STS_STATUS_OFFSET = 0" by (simp_all add: reg_offset_def STS_STATUS_OFFSET_def)
  show ?thesis
  proof (cases "1 \<le> irq_poll q")
    case False
    then have "wait_intc E s = Done (irq_poll q) u"
      using n assms(2) by (simp add: wait_intc_def wait_for_interrupt_def served_def)
    then show ?thesis by (auto simp: u_def intro: waited.timeout)
  next
    case True
    define r where "r = u\<lparr>hist := Rd intc_dev (uint (intc_off IPR)) # hist u\<rparr>"
    define v where "v = bus E (hist u) intc_dev (uint (intc_off IPR))"
    have "sts_ptr u = sts_ptr s" by (simp add: u_def)
    then have e: "wait_intc E s = (if v AND 1 \<noteq> 0
      then Done (irq_poll q) (u\<lparr>hist := Rd sts_dev 0 # Wr intc_dev (uint (intc_off IAR)) 1 # Rd intc_dev (uint (intc_off IPR)) # hist u,
             position := sint (bus E (Wr intc_dev (uint (intc_off IAR)) 1 # Rd intc_dev (uint (intc_off IPR)) # hist u) sts_dev 0)\<rparr>)
      else Done (irq_poll q) r)"
      using n assms(2) True m o
      by (simp add: wait_intc_def wait_for_interrupt_def served_def dev_read_mapped dev_write_mapped r_def v_def del: intc_off.simps)
    show ?thesis
    proof (cases "v AND 1 = 0")
      case True
      then have "wait_intc E s = Done (irq_poll q) r" using e by simp
      moreover have "waited E q qs s r" unfolding r_def u_def by (rule waited.other) simp
      ultimately show ?thesis by blast
    next
      case False
      moreover have "waited E q qs s (u\<lparr>hist := Rd sts_dev 0 # Wr intc_dev (uint (intc_off IAR)) 1 # Rd intc_dev (uint (intc_off IPR)) # hist u,
          position := sint (bus E (Wr intc_dev (uint (intc_off IAR)) 1 # Rd intc_dev (uint (intc_off IPR)) # hist u) sts_dev 0)\<rparr>)"
        unfolding u_def by (rule waited.writer) simp
      ultimately show ?thesis using e by auto
    qed
  qed
qed

lemma wait_served:
  assumes "irqs s = q # qs" "served q" "daq_ok E bmp s" "status_in E (limit s)"
  shows "\<exists>t. wait_intc E s = Done (irq_poll q) t \<and> daq_ok E bmp t \<and> irqs t = qs \<and> limit t = limit s \<and>
     interrupted t = (interrupted s \<or> irq_sig q)"
proof -
  have l: "limit s \<le> 2 ^ 30" using assms(3) by (simp add: daq_ok_def ready_def ring_mapped_def)
  have p: "0 \<le> sint (bus E g sts_dev 0)" "sint (bus E g sts_dev 0) < limit s" for g
  proof -
    have "uint (bus E g sts_dev 0) < limit s" using assms(4) by (simp add: status_in_def)
    moreover from this l have "sint (bus E g sts_dev 0) = uint (bus E g sts_dev 0)" by (intro sint_pos) simp
    ultimately show "0 \<le> sint (bus E g sts_dev 0)" "sint (bus E g sts_dev 0) < limit s" by simp_all
  qed
  from wait_app [OF assms(1-3)] obtain t where t: "wait_intc E s = Done (irq_poll q) t" "waited E q qs s t" by blast
  from t(2) have "daq_ok E bmp t \<and> irqs t = qs \<and> limit t = limit s \<and> interrupted t = (interrupted s \<or> irq_sig q)"
    using assms(3) p by cases (simp_all add: daq_ok_def ready_irq)
  with t(1) show ?thesis by blast
qed


lemma wait_Done:
  assumes "wait_intc E s = Done x t"
  shows "\<exists>q qs. irqs s = q # qs \<and> served q"
proof (cases "irqs s")
  case Nil
  with assms show ?thesis by (simp add: wait_intc_def wait_for_interrupt_def next_irq_def)
next
  case (Cons q qs)
  then have "next_irq s = Done q (s\<lparr>irqs := qs, cma_mem := irq_mem q, interrupted := (interrupted s \<or> irq_sig q)\<rparr>)"
    by (simp add: next_irq_def)
  then have e: "wait_intc E s = (if irq_wr q \<noteq> 4 then thn (puts_err ''write'') (thn (sys_close (intc_fd s)) (halt (Exit 1)))
     else if 1 \<le> irq_poll q then
       (if irq_rd q = 4 then
          bnd (dev_read E (intc_ptr s) (intc_off IPR)) (\<lambda>value.
          thn (whn (value AND 1 \<noteq> 0)
                (thn (dev_write E (intc_ptr s) (intc_off IAR) 1)
                (bnd (gets sts_ptr) (\<lambda>sp. bnd (dev_read E sp STS_STATUS_OFFSET) (\<lambda>w.
                 modify (\<lambda>s. s\<lparr>position := sint w\<rparr>))))))
              (ret (irq_poll q)))
        else thn (puts_err ''poll()'') (thn (sys_close (intc_fd s)) (halt (Exit 1))))
     else ret (irq_poll q)) (s\<lparr>irqs := qs, cma_mem := irq_mem q, interrupted := (interrupted s \<or> irq_sig q)\<rparr>)"
    by (simp only: wait_intc_def wait_for_interrupt_def bnd_gets bnd_Done)
  have "served q"
  proof (rule ccontr)
    assume "\<not> served q"
    then have "irq_wr q \<noteq> 4 \<or> irq_wr q = 4 \<and> 1 \<le> irq_poll q \<and> irq_rd q \<noteq> 4" by (auto simp: served_def)
    then show False using assms unfolding e by (elim disjE conjE) simp_all
  qed
  with Cons show ?thesis by blast
qed

section \<open>The acquisition loop\<close>

lemma waited_cfg: "waited E q qs s t \<Longrightarrow> last_write z (hist t) cfg_dev a = last_write z (hist s) cfg_dev a \<and> cfg_ptr t = cfg_ptr s"
proof (induction rule: waited.induct)
  case (other h)
  then show ?case using last_write_writes [of z h] last_write_writes [of z "hist s"] by simp
next
  case (writer h g)
  then have "last_write z (filter is_write h) cfg_dev a = last_write z (filter is_write (hist s)) cfg_dev a" by simp
  then show ?case by (simp add: last_write_writes)
qed simp

lemma wait_keeps:
  assumes "wait_intc E s = Done x t" "daq_ok E bmp s" "status_in E (limit s)"
  shows "daq_ok E bmp t \<and> limit t = limit s \<and> last_write z (hist t) cfg_dev a = last_write z (hist s) cfg_dev a"
proof -
  from wait_Done [OF assms(1)] obtain q qs where q: "irqs s = q # qs" "served q" by blast
  from wait_served [OF q assms(2,3)] wait_app [OF q assms(2)] assms(1) show ?thesis by (auto dest: waited_cfg)
qed

lemma daq_ok_read:
  assumes "daq_ok E bmp s"
  shows "\<exists>t. read_buffer E (position s) bmp s = Done 1 t \<and> daq_ok E bmp t \<and> irqs t = irqs s \<and> limit t = limit s \<and>
    interrupted t = interrupted s \<and> last_write z (hist t) cfg_dev a = last_write z (hist s) cfg_dev a"
proof -
  from assms obtain t where t: "read_buffer E (position s) bmp s = Done 1 t" "ready E bmp t"
    using read_buffer_runs [of E bmp s "position s"] by (auto simp: daq_ok_def)
  from read_buffer_core [OF t(1)] have c: "core t = core (s\<lparr>fFirstTime := False, current := next_cursor (current s) (position s) (limit s)\<rparr>)"
    by simp
  then have "irqs t = irqs s \<and> limit t = limit s \<and> interrupted t = interrupted s \<and> writes t = writes s \<and>
      position t = position s \<and> intc_ptr t = intc_ptr s \<and> sts_ptr t = sts_ptr s"
    by (simp add: core_def writes_def)
  with t assms last_write_writes [of z "hist t"] last_write_writes [of z "hist s"] show ?thesis by (simp add: daq_ok_def writes_def)
qed

lemma daq_turn:
  assumes "daq_ok E bmp s" "status_in E (limit s)" "irqs s = x # qs" "served x"
  shows "\<exists>u t. wait_intc E s = Done (irq_poll x) u \<and> read_buffer E (position u) bmp u = Done 1 t \<and> daq_ok E bmp t \<and> irqs t = qs \<and>
    limit t = limit s \<and> interrupted t = (interrupted s \<or> irq_sig x) \<and> last_write z (hist t) cfg_dev = last_write z (hist s) cfg_dev"
proof -
  from wait_served [OF assms(3,4,1,2)] obtain u where u: "wait_intc E s = Done (irq_poll x) u" "daq_ok E bmp u" "irqs u = qs"
    "limit u = limit s" "interrupted u = (interrupted s \<or> irq_sig x)" by blast
  from daq_ok_read [OF u(2), of z] obtain t where t: "read_buffer E (position u) bmp u = Done 1 t" by blast
  with daq_ok_read [OF u(2), of z] wait_keeps [OF u(1) assms(1,2), of z] u show ?thesis by (auto simp: fun_eq_iff)
qed

lemma daq_loop_runs:
  assumes "daq_ok E bmp s" "status_in E (limit s)" "\<not> interrupted s" "irqs s = qs @ q # rest"
    "\<forall>x \<in> set qs. served x \<and> \<not> irq_sig x" "served q" "irq_sig q" "length qs + 2 \<le> n"
  shows "\<exists>t. daq_loop E bmp n s = Done () t \<and> daq_ok E bmp t \<and> irqs t = rest \<and> interrupted t \<and> limit t = limit s \<and>
    last_write z (hist t) cfg_dev = last_write z (hist s) cfg_dev"
  using assms
proof (induction qs arbitrary: s n)
  case Nil
  then obtain m where n: "n = Suc (Suc m)" by (metis add_2_eq_Suc' add_0 le_Suc_ex list.size(3) add.commute)
  from Nil daq_turn [of E bmp s q rest z] obtain u t where
    u: "wait_intc E s = Done (irq_poll q) u" "read_buffer E (position u) bmp u = Done 1 t" "daq_ok E bmp t" "irqs t = rest"
      "interrupted t" "limit t = limit s" "last_write z (hist t) cfg_dev = last_write z (hist s) cfg_dev" by auto
  with Nil.prems(3) n show ?case by simp
next
  case (Cons x qs)
  then obtain m where n: "n = Suc m" "length qs + 2 \<le> m" by (cases n) auto
  from Cons.prems daq_turn [of E bmp s x "qs @ q # rest" z] obtain u t where
    u: "wait_intc E s = Done (irq_poll x) u" "read_buffer E (position u) bmp u = Done 1 t" "daq_ok E bmp t" "irqs t = qs @ q # rest"
      "limit t = limit s" "\<not> interrupted t" "last_write z (hist t) cfg_dev = last_write z (hist s) cfg_dev" by auto
  have "daq_loop E bmp n s = daq_loop E bmp m t" using Cons.prems(3) n u by simp
  with Cons.IH [of t m] Cons.prems(2,5-7) u n show ?case by auto
qed

section \<open>Interleaving\<close>

text \<open>
  After the first access to the programmable logic two threads share the interrupt descriptor and the globals: the loop of
  \<^verbatim>\<open>main\<close>, which waits and then reads the ring, and \<^verbatim>\<open>thread_isr_not_gps\<close>, which only waits.  One step is one call.
\<close>

datatype pc = At_Wait | At_Read

inductive daq_step :: "env \<Rightarrow> bmp_ptr \<Rightarrow> pc \<times> 'a lago_scheme \<Rightarrow> pc \<times> 'a lago_scheme \<Rightarrow> bool" for E bmp where
  main_wait: "\<not> interrupted s \<Longrightarrow> wait_intc E s = Done x t \<Longrightarrow> daq_step E bmp (At_Wait, s) (At_Read, t)"
| main_read: "read_buffer E (position s) bmp s = Done r t \<Longrightarrow> daq_step E bmp (At_Read, s) (At_Wait, t)"
| isr: "thread_isr_not_gps_turn E s = Done x t \<Longrightarrow> daq_step E bmp (c, s) (c, t)"

inductive_cases daq_stepE: "daq_step E bmp (c, s) (d, t)"

lemma daq_step_keeps:
  assumes "daq_step E bmp x y" "daq_ok E bmp (snd x)" "status_in E (limit (snd x))"
  shows "daq_ok E bmp (snd y) \<and> limit (snd y) = limit (snd x) \<and>
    last_write z (hist (snd y)) cfg_dev a = last_write z (hist (snd x)) cfg_dev a"
  using assms
proof (induction rule: daq_step.induct)
  case (main_wait s x t)
  then show ?case using wait_keeps [of E s x t bmp] by simp
next
  case (main_read s r t)
  then show ?case using daq_ok_read [of E bmp s z a] by auto
next
  case (isr s x t c)
  then obtain y where "wait_intc E s = Done y t" by (cases "wait_intc E s") (auto simp: thread_isr_not_gps_turn_def)
  then show ?case using wait_keeps [of E s y t bmp] isr by simp
qed

lemma daq_steps_keep:
  assumes "(daq_step E bmp)\<^sup>*\<^sup>* x y" "daq_ok E bmp (snd x)" "status_in E (limit (snd x))"
  shows "daq_ok E bmp (snd y) \<and> limit (snd y) = limit (snd x) \<and>
    last_write z (hist (snd y)) cfg_dev a = last_write z (hist (snd x)) cfg_dev a"
  using assms
proof (induction rule: rtranclp_induct)
  case (step y w)
  then have y: "daq_ok E bmp (snd y)" "limit (snd y) = limit (snd x)"
    "last_write z (hist (snd y)) cfg_dev a = last_write z (hist (snd x)) cfg_dev a" by simp_all
  with daq_step_keeps [OF step(2), of z a] step.prems show ?case by simp
qed simp


section \<open>The reset register around the acquisition\<close>

lemma reg_last_write: "holds_writes E cfg_dev z \<Longrightarrow> reg E s r = last_write z (hist s) cfg_dev (uint (cfg_off r))"
  by (simp add: reg_def holds_writes_def)

lemma reset_rmw:
  assumes "cfg_ready E s" "holds_writes E cfg_dev z"
    and "m = bnd (cfg_read E (cfg_off RESET_GRAL)) (\<lambda>v. thn (modify (\<lambda>s. s\<lparr>reg_val := v\<rparr>)) (cfg_write E (cfg_off RESET_GRAL) (f v)))"
  shows "\<exists>h v. m s = Done () (s\<lparr>hist := h, reg_val := v\<rparr>) \<and>
    reg E (s\<lparr>hist := h, reg_val := v\<rparr>) = (reg E s)(RESET_GRAL := f (reg E s RESET_GRAL))"
proof -
  let ?a = "uint (cfg_off RESET_GRAL)" and ?v = "reg E s RESET_GRAL"
  let ?t = "s\<lparr>hist := Wr cfg_dev ?a (f ?v) # Rd cfg_dev ?a # hist s, reg_val := ?v\<rparr>"
  have r: "cfg_ready E (s\<lparr>hist := h, reg_val := v\<rparr>)" for h v using assms(1) by (simp add: cfg_ready_def)
  have "m s = Done () ?t"
    unfolding assms(3) using assms(1) r by (simp add: cfg_read_app cfg_write_app reg_def del: cfg_off.simps)
  moreover have "reg E ?t = (reg E s)(RESET_GRAL := f ?v)"
    by (rule ext) (simp add: reg_last_write [OF assms(2)] cfg_off_inj del: cfg_off.simps)
  ultimately show ?thesis by blast
qed

lemmas reset_or_reg = reset_rmw [OF _ _ reset_or_def]
lemmas reset_clear_reg = reset_rmw [OF _ _ reset_clear_def]

lemma reset_mask:
  fixes x :: u32
  shows "((((((x OR 2) OR 1) OR 4) AND NOT 1) AND NOT 4) AND NOT 2) = x AND NOT 7"
proof -
  have "((((((x OR 2) OR 1) OR 4) AND NOT 1) AND NOT 4) AND NOT 2) = (x OR (2 OR (1 OR 4))) AND (NOT 1 AND (NOT 4 AND NOT 2))"
    by (simp only: and.assoc or.assoc)
  also have "\<dots> = (x OR 7) AND NOT 7" by simp
  finally show ?thesis by (simp add: bit.conj_disj_distrib2)
qed

text \<open>The stages of \<^verbatim>\<open>main\<close>'s acquisition, with the value \<open>k\<close> of the reset register.\<close>

definition stage :: "env \<Rightarrow> bmp_ptr \<Rightarrow> (cfg_reg \<Rightarrow> u32) \<Rightarrow> (irq list \<Rightarrow> bool \<Rightarrow> bool) \<Rightarrow> u32 \<Rightarrow> 'a lago_scheme \<Rightarrow> bool" where
  "stage E bmp base J k s \<longleftrightarrow> daq_ok E bmp s \<and> limit s = 2 ^ 20 \<and> reg E s = base(RESET_GRAL := k) \<and> J (irqs s) (interrupted s)"

lemma runs_stage:
  assumes "holds_writes E cfg_dev z"
    and "m = bnd (cfg_read E (cfg_off RESET_GRAL)) (\<lambda>v. thn (modify (\<lambda>s. s\<lparr>reg_val := v\<rparr>)) (cfg_write E (cfg_off RESET_GRAL) (f v)))"
  shows "runs (stage E bmp base J k) m (stage E bmp base J (f k))"
proof (unfold runs_def, intro allI impI)
  fix s :: "'a lago_scheme" assume s: "stage E bmp base J k s"
  then have c: "cfg_ready E s" by (simp add: stage_def daq_ok_def ready_def regs_up_def)
  from reset_rmw [OF c assms] obtain h v where h: "m s = Done () (s\<lparr>hist := h, reg_val := v\<rparr>)"
    "reg E (s\<lparr>hist := h, reg_val := v\<rparr>) = (reg E s)(RESET_GRAL := f (reg E s RESET_GRAL))" by blast
  have "daq_ok E bmp (s\<lparr>hist := h, reg_val := v\<rparr>) = daq_ok E bmp s"
    by (simp add: daq_ok_def ready_def regs_up_def cfg_ready_def sensor_up_def live_def ring_mapped_def)
  with s h have "stage E bmp base J (f k) (s\<lparr>hist := h, reg_val := v\<rparr>)" by (simp add: stage_def)
  with h(1) show "\<exists>x t. m s = Done x t \<and> stage E bmp base J (f k) t" by blast
qed

lemma runs_daq:
  assumes "holds_writes E cfg_dev z" "status_in E (2 ^ 20)" "\<forall>x \<in> set qs. served x \<and> \<not> irq_sig x" "served q" "irq_sig q"
  shows "runs (stage E bmp base (\<lambda>l i. l = qs @ q # rest \<and> \<not> i) k) (daq_run E bmp) (stage E bmp base (\<lambda>l i. l = rest \<and> i) k)"
proof (unfold runs_def, intro allI impI)
  fix s :: "'a lago_scheme" assume s: "stage E bmp base (\<lambda>l i. l = qs @ q # rest \<and> \<not> i) k s"
  then obtain t where t: "daq_run E bmp s = Done () t" "daq_ok E bmp t" "irqs t = rest" "interrupted t"
    "last_write z (hist t) cfg_dev = last_write z (hist s) cfg_dev" "limit t = 2 ^ 20"
    using daq_loop_runs [of E bmp s qs q rest "Suc (Suc (length (irqs s)))" z] assms by (auto simp: stage_def daq_run_def)
  moreover have "reg E t = reg E s" using t(5) by (simp add: fun_eq_iff reg_last_write [OF assms(1)])
  ultimately show "\<exists>x t. daq_run E bmp s = Done x t \<and> stage E bmp base (\<lambda>l i. l = rest \<and> i) k t"
    using s by (auto simp: stage_def)
qed

lemma acquire_runs:
  assumes "holds_writes E cfg_dev z" "status_in E (2 ^ 20)" "\<forall>x \<in> set qs. served x \<and> \<not> irq_sig x" "served q" "irq_sig q"
  shows "runs (\<lambda>s. stage E bmp base (\<lambda>l i. l = qs @ q # rest \<and> \<not> i) k (s\<lparr>limit := 1024 * 1024, current := - 2\<rparr>)) (acquire E bmp)
    (stage E bmp base (\<lambda>l i. l = rest \<and> i) (k AND NOT 7))"
proof -
  note set = runs_stage [OF assms(1) reset_or_def, of bmp base] and clear = runs_stage [OF assms(1) reset_clear_def, of bmp base]
  let ?J = "\<lambda>l i. l = qs @ q # rest \<and> \<not> i" and ?K = "\<lambda>l i. l = rest \<and> i"
  show ?thesis
    unfolding acquire_def stmts.simps
    by (intro runs_thn [OF runs_modify [where Q = "stage E bmp base ?J k"]] runs_thn [OF set] runs_thn [OF runs_daq [OF assms]] runs_thn [OF clear])
      (simp_all only: reset_mask runs_ret)
qed

section \<open>Coordinates\<close>

lemma cfg_write_reg:
  assumes "cfg_ready E s" "holds_writes E cfg_dev z"
  shows "\<exists>h. cfg_write E (cfg_off r) v s = Done () (s\<lparr>hist := h\<rparr>) \<and> reg E (s\<lparr>hist := h\<rparr>) = (reg E s)(r := v)"
proof -
  let ?h = "Wr cfg_dev (uint (cfg_off r)) v # hist s"
  have "reg E (s\<lparr>hist := ?h\<rparr>) = (reg E s)(r := v)"
    by (rule ext) (simp add: reg_last_write [OF assms(2)] cfg_off_inj del: cfg_off.simps)
  then show ?thesis using cfg_write_app [OF assms(1) cfg_off_ok, of r v] by blast
qed

lemma cfg_writes_reg:
  assumes "cfg_ready E s" "holds_writes E cfg_dev z"
  shows "\<exists>h. stmts (map (\<lambda>(r, v). cfg_write E (cfg_off r) v) ws) s = Done () (s\<lparr>hist := h\<rparr>) \<and>
    reg E (s\<lparr>hist := h\<rparr>) = fold (\<lambda>(r, v) f. f(r := v)) ws (reg E s)"
  using assms(1)
proof (induction ws arbitrary: s)
  case Nil
  then show ?case by (intro exI [of _ "hist s"]) simp
next
  case (Cons w ws)
  obtain r v where w: "w = (r, v)" by fastforce
  from cfg_write_reg [OF Cons.prems assms(2), of r v] obtain h where
    h: "cfg_write E (cfg_off r) v s = Done () (s\<lparr>hist := h\<rparr>)" "reg E (s\<lparr>hist := h\<rparr>) = (reg E s)(r := v)" by blast
  have "cfg_ready E (s\<lparr>hist := h\<rparr>)" using Cons.prems by simp
  from Cons.IH [OF this] obtain k where "stmts (map (\<lambda>(r, v). cfg_write E (cfg_off r) v) ws) (s\<lparr>hist := h\<rparr>) = Done () (s\<lparr>hist := h\<rparr>\<lparr>hist := k\<rparr>)"
    "reg E (s\<lparr>hist := h\<rparr>\<lparr>hist := k\<rparr>) = fold (\<lambda>(r, v) f. f(r := v)) ws (reg E (s\<lparr>hist := h\<rparr>))" by blast
  with h w show ?case by (intro exI [of _ k]) (simp del: fun_upd_apply)
qed

text \<open>A bus that cannot be opened.\<close>

lemma setup_no_bus: "\<forall>h. os_open E h path < 0 \<Longrightarrow> bmp180_setup E p path s = Done r t \<Longrightarrow> r = None"
  by (auto simp: bmp180_setup_def thn_app split: outcome.splits if_splits)

lemma stop_bnd: "stop_of (bnd m f s) = (case m s of Done x t \<Rightarrow> stop_of (f x t) | Stopped e t \<Rightarrow> Some e)"
  by (simp add: bnd_def split: outcome.split)

lemma init_no_bus:
  assumes "\<forall>h. os_open E h path < 0" "bmp180_init E a path s = Done r t"
  shows "r = None"
  using assms(2) unfolding bmp180_init_def
  by (auto simp: sys_malloc_def thn_app bnd_app split: outcome.splits option.splits if_splits dest: setup_no_bus [OF assms(1)])

lemma init_stops:
  assumes "\<forall>h. os_open E h path < 0" "bmp180_init E a path s = Stopped e t"
  shows "e = Fault \<or> e = Overrun"
proof -
  have c: "stop_of (bmp180_init_error_cleanup p u) \<in> {None, Some Fault}" for p and u :: "'a bmp_st_scheme"
    by (cases "deref p u") (auto simp: bmp180_init_error_cleanup_def free_bmp_def update_bmp_def deref_def whn_def bnd_app thn_app
        split: option.splits if_splits outcome.splits)
  have "bmp180_setup E p path u = Stopped e t \<Longrightarrow> e = Fault" for p and u :: "'a bmp_st_scheme"
    using assms(1) c [of p "u\<lparr>opens := (path, os_open E (opens u) path) # opens u\<rparr>"]
    by (auto simp: bmp180_setup_def thn_app split: outcome.splits)
  moreover have "update_bmp p f u = Stopped e t \<Longrightarrow> e = Fault" for p f and u :: "'a bmp_st_scheme"
    by (auto simp: update_bmp_def deref_def bnd_app split: option.splits if_splits)
  moreover have "bmp180_init_error_cleanup p u = Stopped e t \<Longrightarrow> e = Fault" for p and u :: "'a bmp_st_scheme"
    using c [of p u] by simp
  ultimately show ?thesis
    using assms(2) unfolding bmp180_init_def
    by (auto simp: sys_malloc_def thn_app bnd_app split: outcome.splits option.splits if_splits)
qed

section \<open>Properties\<close>

definition quiet :: "bool \<Rightarrow> irq" where
  "quiet b = \<lparr>irq_wr = 4, irq_poll = 0, irq_rd = 0, irq_mem = (\<lambda>i. 0), irq_sig = b\<rparr>"

definition daq0 :: lago where
  "daq0 = lago0\<lparr>cma_ptr := Mapped ''/dev/mem'' 0 (4 * 2 ^ 20), limit := 2 ^ 20, current := - 2, fToFile := True, charFile := ''run'',
     irqs := [quiet False, quiet True]\<rparr>"

text \<open>The bench with a writer that has not moved.\<close>

definition daq_env :: env where
  "daq_env = bench\<lparr>bus := \<lambda>h p a. if p = sts_dev then 0 else last_write (\<lambda>a. 0) h p a\<rparr>"

lemma calc_bench: "calc_B5 datasheet_bmp (UT_of daq_env l) \<noteq> None" "calc_pressure datasheet_bmp (UT_of daq_env l) (UP_of daq_env l' 0) \<noteq> None"
proof -
  have u: "UT_of daq_env l = 0" by (simp add: UT_of_def daq_env_def bench_def swap16_def)
  have p: "UP_of daq_env l' 0 = 0" by (simp add: UP_of_def daq_env_def bench_def asr_def Let_def)
  show "calc_B5 datasheet_bmp (UT_of daq_env l) \<noteq> None" unfolding u by code_simp
  show "calc_pressure datasheet_bmp (UT_of daq_env l) (UP_of daq_env l' 0) \<noteq> None" unfolding u p by code_simp
qed

lemma daq0_ok: "daq_ok daq_env (Some 0) daq0"
proof -
  have "live daq0 0 datasheet_bmp" by (simp add: daq0_def live_def lago0_defs)
  then have "sensor_up daq_env (Some 0) daq0" using calc_bench unfolding sensor_up_def
    by (intro exI [of _ 0] exI [of _ datasheet_bmp]) (simp add: datasheet_bmp_def)
  moreover have "words_mapped daq_env (Mapped ''/dev/mem'' 0 (4 * 2 ^ 20)) (2 ^ 20)" by (simp add: words_mapped_def page_round_def daq_env_def)
  ultimately show ?thesis
    by (simp add: daq_ok_def ready_def regs_up_def cfg_ready_def ring_mapped_def daq0_def lago0_defs daq_env_def)
qed

lemma daq0_simps: "status_in daq_env (2 ^ 20)" "served (quiet b)" "irq_sig (quiet b) = b" "irqs daq0 = [quiet False, quiet True]"
  "limit daq0 = 2 ^ 20" "\<not> interrupted daq0" "holds_writes daq_env cfg_dev (\<lambda>a. 0)" "daq0\<lparr>limit := 2 ^ 20, current := - 2\<rparr> = daq0"
  by (simp_all add: status_in_def served_def quiet_def daq0_def lago0_defs daq_env_def holds_writes_def)

text \<open>
  An acquisition ends on the signal: with the devices answering, when SIGINT arrives during a served wait, \<^verbatim>\<open>main\<close>'s
  acquisition reads the ring once after each wait up to that one and returns; it has taken exactly these events, cleared the
  bits 0, 1 and 2 of the reset register, and changed no other configuration register.
\<close>

lemma acquire_returns:
  assumes "daq_ok E bmp (s\<lparr>limit := 2 ^ 20, current := - 2\<rparr>)" "status_in E (2 ^ 20)" "holds_writes E cfg_dev z"
    "\<not> interrupted s" "irqs s = qs @ q # rest" "\<forall>x \<in> set qs. served x \<and> \<not> irq_sig x" "served q" "irq_sig q"
  shows "\<exists>t. acquire E bmp s = Done () t \<and> irqs t = rest \<and> reg E t = (reg E s)(RESET_GRAL := reg E s RESET_GRAL AND NOT 7)"
proof -
  have "reg E (s\<lparr>limit := 1024 * 1024, current := - 2\<rparr>) = (reg E s)(RESET_GRAL := reg E s RESET_GRAL)"
    by (simp add: reg_def fun_eq_iff)
  then have "stage E bmp (reg E s) (\<lambda>l i. l = qs @ q # rest \<and> \<not> i) (reg E s RESET_GRAL) (s\<lparr>limit := 1024 * 1024, current := - 2\<rparr>)"
    using assms(1,4,5) by (simp add: stage_def)
  from runsD [OF acquire_runs [OF assms(3,2,6-8)] this] show ?thesis by (auto simp: stage_def)
qed

text \<open>
  (C4) Every interleaving of the main loop with the interrupt thread is safe: in every state the two threads can reach, the
  reader's cursor and the writer's position are on the mapped ring, the configuration registers are as they were, and the
  next \<^verbatim>\<open>read_buffer\<close> returns without an access outside the mapped memory.
\<close>

theorem daq_interleaving:
  assumes "(daq_step E bmp)\<^sup>*\<^sup>* (At_Wait, s) (c, t)" "daq_ok E bmp s" "status_in E (limit s)" "holds_writes E cfg_dev z"
  shows "daq_ok E bmp t \<and> reg E t = reg E s \<and> (\<exists>u. read_buffer E (position t) bmp t = Done 1 u)"
proof -
  have k: "daq_ok E bmp t" "last_write z (hist t) cfg_dev a = last_write z (hist s) cfg_dev a" for a
    using daq_steps_keep [OF assms(1)] assms(2,3) by auto
  then have "reg E t = reg E s" by (simp add: fun_eq_iff reg_last_write [OF assms(4)])
  with k(1) daq_ok_read [OF k(1), of z] show ?thesis by blast
qed

theorem daq_interleaving_witness:
  "\<exists>u t. (daq_step daq_env (Some 0))\<^sup>*\<^sup>* (At_Wait, daq0) (At_Read, u) \<and> read_buffer daq_env (position u) (Some 0) u = Done 1 t"
proof -
  obtain u where u: "wait_intc daq_env daq0 = Done (irq_poll (quiet False)) u"
    using wait_served [of daq0 "quiet False" "[quiet True]" daq_env "Some 0"] daq0_ok daq0_simps by auto
  have "daq_step daq_env (Some 0) (At_Wait, daq0) (At_Read, u)"
    by (rule daq_step.main_wait [OF _ u]) (simp add: daq0_simps)
  then have r: "(daq_step daq_env (Some 0))\<^sup>*\<^sup>* (At_Wait, daq0) (At_Read, u)" by blast
  from daq_interleaving [OF this daq0_ok, of "\<lambda>a. 0"] daq0_simps r show ?thesis by auto
qed

text \<open>
  A wait that is not served ends the program: when \<^verbatim>\<open>write\<close> does not accept four bytes, or \<^verbatim>\<open>read\<close> does not deliver four
  after a successful \<^verbatim>\<open>poll\<close>, the descriptor is closed, the failing call is named, and the process exits with status 1.
\<close>

theorem wait_unserved_exits:
  assumes "irqs s = q # qs" "\<not> served q"
  shows "\<exists>t. wait_intc E s = Stopped (Exit 1) t \<and> closed t = intc_fd s # closed s \<and>
    err t = err s @ (if irq_wr q \<noteq> 4 then ''write'' else ''poll()'')"
proof (cases "irq_wr q = 4")
  case True
  with assms(2) have "1 \<le> irq_poll q" "irq_rd q \<noteq> 4" by (auto simp: served_def)
  with True assms(1) show ?thesis by (simp add: wait_intc_def wait_for_interrupt_def next_irq_def)
next
  case False
  with assms(1) show ?thesis by (simp add: wait_intc_def wait_for_interrupt_def next_irq_def)
qed

theorem wait_unserved_exits_witness:
  "\<exists>t. wait_intc bench (daq0\<lparr>irqs := [(quiet False)\<lparr>irq_wr := - 1\<rparr>]\<rparr>) = Stopped (Exit 1) t \<and> closed t = [0] \<and> err t = ''write''"
  using wait_unserved_exits [of "daq0\<lparr>irqs := [(quiet False)\<lparr>irq_wr := - 1\<rparr>]\<rparr>" "(quiet False)\<lparr>irq_wr := - 1\<rparr>" "[]" bench]
  by (simp add: served_def daq0_def lago0_defs)

text \<open>
  No sensor, no program: when the I2C device cannot be opened, \<^verbatim>\<open>main\<close> dereferences the null pointer that
  \<^verbatim>\<open>bmp180_init\<close> returned (or \<^verbatim>\<open>bmp180_init\<close> itself has overrun the block of the path), before it looks at its arguments:
  for every command line, also \<^verbatim>\<open>-v\<close>, it does not return.
\<close>

theorem main_without_sensor:
  assumes "\<forall>h. os_open E h ''/dev/i2c-0'' < 0"
  shows "stop_of (main E argv s) \<in> {Some Fault, Some Overrun}"
proof (cases "bmp180_init E 0x77 ''/dev/i2c-0'' s")
  case (Done r t)
  with init_no_bus [OF assms Done] show ?thesis by (simp add: main_def bmp180_dump_eprom_def)
next
  case (Stopped e t)
  then have "e = Fault \<or> e = Overrun" using init_stops [OF assms] by blast
  with Stopped show ?thesis by (auto simp: main_def)
qed

theorem main_without_sensor_witness:
  "stop_of (main (bench\<lparr>os_open := \<lambda>h p. - 1\<rparr>) [''lago'', ''-v''] lago0) \<in> {Some Fault, Some Overrun}"
  by (rule main_without_sensor) simp

text \<open>
  The coordinates in the registers: \<^verbatim>\<open>publish_gps\<close> stores latitude, longitude and altitude multiplied by 65536 and cut to an
  integer, and time, date and number of satellites cut to an integer, each in its own register, and changes no other.
\<close>

theorem publish_gps_registers:
  assumes "cfg_ready E s" "holds_writes E cfg_dev z"
  shows "\<exists>h. publish_gps E g s = Done () (s\<lparr>hist := h\<rparr>) \<and> reg E (s\<lparr>hist := h\<rparr>) = (reg E s)
    (TIME := of_int (f_to_i32 (loc_times g)), DATE := of_int (f_to_i32 (date g)), LATITUDE := fixed16 (latitude g),
     LONGITUDE := fixed16 (longitude g), ALTITUDE := fixed16 (altitude g), SATELLITE := of_int (f_to_i32 (satellites g)))"
  using cfg_writes_reg [OF assms, of "[(TIME, of_int (f_to_i32 (loc_times g))), (DATE, of_int (f_to_i32 (date g))), (LATITUDE, fixed16 (latitude g)),
     (LONGITUDE, fixed16 (longitude g)), (ALTITUDE, fixed16 (altitude g)), (SATELLITE, of_int (f_to_i32 (satellites g)))]"]
  by (simp add: publish_gps_def del: cfg_off.simps)

theorem publish_gps_registers_witness:
  "\<exists>h. publish_gps bench (blank_loc bench) lago0 = Done () (lago0\<lparr>hist := h\<rparr>) \<and>
     reg bench (lago0\<lparr>hist := h\<rparr>) LATITUDE = fixed16 (latitude (blank_loc bench))"
proof -
  have "cfg_ready bench lago0" by (simp add: cfg_ready_def lago0_defs)
  from publish_gps_registers [OF this, of "\<lambda>a. 0" "blank_loc bench"] show ?thesis by auto
qed

end
