(* ===== verification/BMP180_App.thy ===== *)
theory BMP180_App
  imports BMP180
begin

text \<open>
  The sensor test of \<^verbatim>\<open>src/apps/rp_bmp180\<close>.  Its \<^verbatim>\<open>bmp180.c\<close> is the earlier copy of the driver: the functions of
  \<^verbatim>\<open>BMP180\<close> have the same text there, except that \<^verbatim>\<open>bmp180_pressure\<close> returns the \<^verbatim>\<open>long\<close> itself, which
  \<^verbatim>\<open>bmp180_altitude\<close> converts.  \<^verbatim>\<open>test.c\<close> uses the sensor before it looks at the pointer it got.
\<close>

definition app_pressure :: "env \<Rightarrow> bmp_ptr \<Rightarrow> ('a bmp_st_scheme, i32) io" where
  "app_pressure E p =
     bnd (bmp180_read_raw_temperature E p) (\<lambda>UT.
     bnd (deref p) (\<lambda>b.
     bnd (bmp180_read_raw_pressure E p (of_int (oss b))) (\<lambda>UP.
     (case calc_pressure b UT UP of
        None \<Rightarrow> halt Div_Zero
      | Some r \<Rightarrow> ret r))))"

definition app_altitude :: "env \<Rightarrow> bmp_ptr \<Rightarrow> ('a bmp_st_scheme, flt) io" where
  "app_altitude E p =
     bnd (app_pressure E p) (\<lambda>r. ret (calc_altitude E (f_of_int single_prec (sint r))))"

text \<open>One turn of the loop of \<^verbatim>\<open>test.c\<close>; \<^verbatim>\<open>%lu\<close> shows the \<^verbatim>\<open>long\<close> as an unsigned number.\<close>

definition test_row :: "flt \<Rightarrow> i32 \<Rightarrow> flt \<Rightarrow> string" where
  "test_row t p alt = ''Temperature = '' @ fmt_f 1 t @ '', Pressure = '' @ fmt_u (uint p) @ '', Altitude= '' @ fmt_f 1 alt @ nl"

definition test_turn :: "env \<Rightarrow> bmp_ptr \<Rightarrow> ('a bmp_st_scheme, unit) io" where
  "test_turn E bmp =
     bnd (bmp180_temperature E bmp) (\<lambda>t.
     bnd (app_pressure E bmp) (\<lambda>p.
     bnd (app_altitude E bmp) (\<lambda>alt.
     puts_out (test_row t p alt))))"

definition bmp180_test_main :: "env \<Rightarrow> ('a bmp_st_scheme, int) io" where
  "bmp180_test_main E =
     bnd (bmp180_init E 0x77 ''/dev/i2c-0'') (\<lambda>bmp.
     bnd (bmp180_dump_eprom bmp) (\<lambda>eprom.
     thn (bmp180_set_oss bmp 1)
    (thn (whn (bmp \<noteq> None) (thn (stmts (replicate 10 (test_turn E bmp))) (bmp180_close bmp)))
     (ret 0))))"

section \<open>Relation to the driver of the station\<close>

lemma app_pressure_driver:
  "bmp180_pressure E p = bnd (app_pressure E p) (\<lambda>r. ret (f_of_int single_prec (sint r)))"
  by (rule ext) (simp add: bmp180_pressure_def app_pressure_def bnd_def ret_def halt_def split: outcome.splits option.splits)

lemma app_altitude_driver: "app_altitude E p = bmp180_altitude E p"
  by (rule ext) (simp add: app_altitude_def bmp180_altitude_def app_pressure_driver bnd_def ret_def split: outcome.splits)

section \<open>A run of the test\<close>

text \<open>The sensor keeps answering the same raw values.\<close>

definition steady :: "env \<Rightarrow> int \<Rightarrow> i32 \<Rightarrow> i32 \<Rightarrow> bool" where
  "steady E m UT UP \<longleftrightarrow> (\<forall>h. UT_of E h = UT \<and> UP_of E h m = UP)"

lemma app_pressure_live:
  assumes l: "live s i b" and e: "steady E (oss b) UT UP" and d: "pressure_domain b (sint UT) (sint UP)"
  shows "\<exists>g. app_pressure E (Some i) s = Done (of_int (p_code b (sint UT) (sint UP))) (s\<lparr>i2c_log := g\<rparr>)"
proof -
  define h where "h = I2c_Read_Word 0xF6 # I2c_Write 0xF4 0x2E # i2c_log s"
  have u: "UT_of E (i2c_log s) = UT" "UP_of E h (oss b) = UP" using e by (simp_all add: steady_def)
  have "0 \<le> sint UT" "sint UT \<le> 65535" using UT_range [of E "i2c_log s"] u by simp_all
  then have c: "calc_pressure b UT UP = Some (of_int (p_code b (sint UT) (sint UP)))"
    using calc_pressure_domain(1) [OF d] by simp
  have "live (s\<lparr>i2c_log := h\<rparr>) i b" using l by simp
  from raw_pressure_live [OF this, of E] u obtain g where
    "bmp180_read_raw_pressure E (Some i) (of_int (oss b)) (s\<lparr>i2c_log := h\<rparr>) = Done UP (s\<lparr>i2c_log := g\<rparr>)" by auto
  with l c u show ?thesis by (intro exI [of _ g]) (simp add: app_pressure_def raw_temperature_live h_def)
qed

lemma app_altitude_live:
  assumes "live s i b" "steady E (oss b) UT UP" "pressure_domain b (sint UT) (sint UP)"
  shows "\<exists>g. app_altitude E (Some i) s =
    Done (calc_altitude E (f_of_int single_prec (p_code b (sint UT) (sint UP)))) (s\<lparr>i2c_log := g\<rparr>)"
proof -
  have "0 \<le> sint UT" "sint UT \<le> 65535" using UT_range [of E "i2c_log s"] assms(2) by (simp_all add: steady_def)
  then have "sint (of_int (p_code b (sint UT) (sint UP)) :: i32) = p_code b (sint UT) (sint UP)"
    using calc_pressure_domain(2) [OF assms(3)] by (intro sint_exact) simp
  with app_pressure_live [OF assms] show ?thesis by (auto simp: app_altitude_def)
qed

definition steady_row :: "env \<Rightarrow> bmp180_t \<Rightarrow> i32 \<Rightarrow> i32 \<Rightarrow> string" where
  "steady_row E b UT UP =
     (let p = p_code b (sint UT) (sint UP)
      in test_row (calc_T (of_int (B5_spec b (sint UT)))) (of_int p) (calc_altitude E (f_of_int single_prec p)))"

lemma test_turn_live:
  assumes "live s i b" "steady E (oss b) UT UP" "pressure_domain b (sint UT) (sint UP)"
  shows "\<exists>g. test_turn E (Some i) s = Done () (s\<lparr>i2c_log := g, out := out s @ steady_row E b UT UP\<rparr>)"
proof -
  have "temp_domain b (sint (UT_of E (i2c_log s)))" "UT_of E (i2c_log s) = UT"
    using assms(2,3) by (simp_all add: steady_def pressure_domain_def)
  with temperature_live [OF assms(1)] obtain g1 where t:
    "bmp180_temperature E (Some i) s = Done (calc_T (of_int (B5_spec b (sint UT)))) (s\<lparr>i2c_log := g1\<rparr>)" by auto
  have "live (s\<lparr>i2c_log := g1\<rparr>) i b" using assms(1) by simp
  from app_pressure_live [OF this assms(2,3)] obtain g2 where p:
    "app_pressure E (Some i) (s\<lparr>i2c_log := g1\<rparr>) = Done (of_int (p_code b (sint UT) (sint UP))) (s\<lparr>i2c_log := g2\<rparr>)" by auto
  have "live (s\<lparr>i2c_log := g2\<rparr>) i b" using assms(1) by simp
  from app_altitude_live [OF this assms(2,3)] obtain g3 where a: "app_altitude E (Some i) (s\<lparr>i2c_log := g2\<rparr>) =
    Done (calc_altitude E (f_of_int single_prec (p_code b (sint UT) (sint UP)))) (s\<lparr>i2c_log := g3\<rparr>)" by auto
  from t p a show ?thesis
    by (intro exI [of _ g3]) (simp add: test_turn_def steady_row_def Let_def puts_out_def)
qed

lemma test_turns_live:
  assumes "steady E (oss b) UT UP" "pressure_domain b (sint UT) (sint UP)"
  shows "live s i b \<Longrightarrow> \<exists>g. stmts (replicate n (test_turn E (Some i))) s =
    Done () (s\<lparr>i2c_log := g, out := out s @ concat (replicate n (steady_row E b UT UP))\<rparr>)"
proof (induction n arbitrary: s)
  case 0
  show ?case by (intro exI [of _ "i2c_log s"]) simp
next
  case (Suc n)
  obtain g where g: "test_turn E (Some i) s = Done () (s\<lparr>i2c_log := g, out := out s @ steady_row E b UT UP\<rparr>)"
    using test_turn_live [OF Suc.prems assms] by blast
  have "live (s\<lparr>i2c_log := g, out := out s @ steady_row E b UT UP\<rparr>) i b" using Suc.prems by simp
  from Suc.IH [OF this] g show ?case by auto
qed

section \<open>Properties\<close>

text \<open>
  The sensor test: when the sensor was found, and as long as its raw values stay inside the range of the
  compensation formula in mode 1, the program prints exactly ten lines with the temperature, the exact
  pressure and the altitude of those values, closes the bus, frees the object and returns 0; when
  \<^verbatim>\<open>bmp180_init\<close> returned \<^verbatim>\<open>NULL\<close> it faults, because the test of the pointer comes after its first use.
\<close>

theorem bmp180_test_outcome:
  fixes s t :: "'a bmp_st_scheme"
  assumes "bmp180_init E 0x77 ''/dev/i2c-0'' s = Done p t"
    and "\<And>i. p = Some i \<Longrightarrow> live t i b \<and> steady E 1 UT UP \<and> pressure_domain (b\<lparr>oss := 1\<rparr>) (sint UT) (sint UP)"
  shows "(p = None \<longrightarrow> bmp180_test_main E s = Stopped Fault t) \<and>
    (\<forall>i. p = Some i \<longrightarrow> (\<exists>u. bmp180_test_main E s = Done 0 u \<and>
      out u = out t @ concat (replicate 10 (steady_row E (b\<lparr>oss := 1\<rparr>) UT UP)) \<and>
      bmps u = (bmps t)[i := None] \<and> closed u = bmp_file b # closed t))"
proof (cases p)
  case None
  with assms(1) show ?thesis by (simp add: bmp180_test_main_def bmp180_dump_eprom_def deref_def)
next
  case (Some i)
  let ?b = "b\<lparr>oss := 1\<rparr>"
  let ?t = "t\<lparr>bmps := (bmps t)[i := Some ?b]\<rparr>"
  have l: "live t i b" and d: "steady E (oss ?b) UT UP" "pressure_domain ?b (sint UT) (sint UP)"
    using assms(2) [OF Some] by simp_all
  have l': "live ?t i ?b" using l by simp
  from test_turns_live [OF d l', of 10] obtain g where g: "stmts (replicate 10 (test_turn E (Some i))) ?t =
    Done () (?t\<lparr>i2c_log := g, out := out t @ concat (replicate 10 (steady_row E ?b UT UP))\<rparr>)" by auto
  let ?u = "?t\<lparr>i2c_log := g, out := out t @ concat (replicate 10 (steady_row E ?b UT UP))\<rparr>"
  have "live ?u i ?b" using l' by simp
  then have "bmp180_close (Some i) ?u = Done () (?u\<lparr>closed := bmp_file b # closed t, bmps := (bmps t)[i := None]\<rparr>)"
    by (simp add: bmp180_close_def sys_close_def live_def)
  with Some assms(1) l g show ?thesis
    by (simp add: bmp180_test_main_def bmp180_dump_eprom_def bmp180_set_oss_def)
qed

text \<open>The sensor of the data sheet on the bus, with its coefficients in the PROM.\<close>

definition prom_env :: env where
  "prom_env = datasheet_env\<lparr>i2c_word := \<lambda>h r.
     if r = 0xF6 then 0xFA6C
     else case map_of (zip [0xAA, 0xAC, 0xAE, 0xB0, 0xB2, 0xB4, 0xB6, 0xB8, 0xBA, 0xBC, 0xBE]
            [408, - 72, - 14383, 32741, 32757, 23153, 6190, 4, - 32768, - 8711, 2868]) r of
       None \<Rightarrow> 0 | Some v \<Rightarrow> v mod 256 * 256 + v div 256 mod 256\<rparr>"

lemma prom_init:
  "case bmp180_init prom_env 0x77 ''/dev/i2c-0'' bmp_st0 of
     Done p t \<Rightarrow> p = Some 1 \<and> bmps t = [Some datasheet_bmp, Some datasheet_bmp] | Stopped e t \<Rightarrow> False"
  by code_simp

lemma prom_steady: "steady prom_env 1 27898 47686"
  by (simp add: steady_def UT_of_def UP_of_def prom_env_def datasheet_env_def Let_def swap16_def asr_def)

lemma prom_domain: "pressure_domain (datasheet_bmp\<lparr>oss := 1\<rparr>) 27898 47686"
  by code_simp

theorem bmp180_test_outcome_witness:
  "\<exists>u. bmp180_test_main prom_env bmp_st0 = Done 0 u \<and> bmps u = [Some datasheet_bmp, None] \<and>
     (\<exists>x. out u = x @ concat (replicate 10 (steady_row prom_env (datasheet_bmp\<lparr>oss := 1\<rparr>) 27898 47686)))"
proof -
  obtain t where t: "bmp180_init prom_env 0x77 ''/dev/i2c-0'' bmp_st0 = Done (Some 1) t"
    "bmps t = [Some datasheet_bmp, Some datasheet_bmp]"
    using prom_init by (auto split: outcome.splits)
  have "live t 1 datasheet_bmp" using t(2) by (simp add: live_def)
  then have "\<exists>u. bmp180_test_main prom_env bmp_st0 = Done 0 u \<and>
      out u = out t @ concat (replicate 10 (steady_row prom_env (datasheet_bmp\<lparr>oss := 1\<rparr>) 27898 47686)) \<and>
      bmps u = (bmps t)[1 := None] \<and> closed u = bmp_file datasheet_bmp # closed t"
    using bmp180_test_outcome [OF t(1), of datasheet_bmp 27898 47686] prom_steady prom_domain by auto
  then show ?thesis using t(2) by auto
qed

end
