(* ===== verification/Lago_Run.thy ===== *)
theory Lago_Run
  imports Lago_Main BMP180_App
begin

text \<open>
  Whole runs of \<^verbatim>\<open>lago\<close>: from the call of \<^verbatim>\<open>main\<close> with a command line, through the initialisation of the sensor, the mapping of
  the devices, the first access to the logic and the selected action, to the closed devices.  A board on which every part
  answers is a predicate on the platform; what the statements before the action leave in the registers is \<open>session_regs\<close>.
  The registers outlive the process, so a sequence of runs is a function of the history of accesses.
\<close>

section \<open>A board that answers\<close>

text \<open>The allocator gives the two blocks of the sensor's object, with a byte to spare in the second; the bus opens and the sensor
  takes its address.\<close>

definition sensor_answers :: "env \<Rightarrow> bool" where
  "sensor_answers E \<longleftrightarrow> (\<forall>n. os_malloc E n 60 \<noteq> None) \<and> (\<forall>n. \<exists>u. os_malloc E n 10 = Some u \<and> 11 \<le> u) \<and>
     (\<forall>h. 0 \<le> os_open E h ''/dev/i2c-0'') \<and> 0 \<le> i2c_slave E 0x77"

text \<open>A device of UIO opens, its size file holds a positive number, and that many bytes can be mapped.\<close>

definition uio_answers :: "env \<Rightarrow> string \<Rightarrow> string \<Rightarrow> bool" where
  "uio_answers E path size_file \<longleftrightarrow> (\<forall>h. 1 \<le> os_open E h path) \<and>
     (\<exists>t n. sysfs_file E size_file = Some t \<and> scan_size t = Scan_Ok n \<and> n \<noteq> 0 \<and> os_mmap E path 0 (uint n))"

text \<open>The whole board; \<open>ring\<close> is the physical address of the buffer.\<close>

definition board :: "env \<Rightarrow> u32 \<Rightarrow> bool" where
  "board E ring \<longleftrightarrow> sensor_answers E \<and>
     uio_answers E intc_dev ''/sys/class/uio/uio0/maps/map0/size'' \<and> uio_answers E cfg_dev ''/sys/class/uio/uio1/maps/map0/size'' \<and>
     uio_answers E sts_dev ''/sys/class/uio/uio4/maps/map0/size'' \<and> uio_answers E xadc_dev ''/sys/class/uio/uio5/maps/map0/size'' \<and>
     (\<forall>h. 1 \<le> os_open E h ''/dev/cma'') \<and> cma_alloc E 4194304 = Some ring \<and> os_mmap E ''/dev/cma'' 0 4194304 \<and>
     page_size E = 4096 \<and> thread_rc E = 0"

text \<open>What the statements of \<^verbatim>\<open>main\<close> before the action leave in the registers: the address of the buffer, and the power-up values
  if the reset register was zero.\<close>

definition session_regs :: "u32 \<Rightarrow> (cfg_reg \<Rightarrow> u32) \<Rightarrow> cfg_reg \<Rightarrow> u32" where
  "session_regs ring f = (if f RESET_GRAL = 0 then power_up (f(WR_ADDR := ring)) else f(WR_ADDR := ring))"

text \<open>What they print.\<close>

definition greeting :: "(cfg_reg \<Rightarrow> u32) \<Rightarrow> string" where
  "greeting f = (if f RESET_GRAL = 0 then ''Initializing registers...'' @ nl else [])"

section \<open>Initialisation\<close>

lemma sensor_starts:
  assumes "sensor_answers E"
  shows "\<exists>op l m b. coef_ranges b \<and> coefs b = eprom_words E (i2c_log s) bmp180_register_table \<and> oss b = 0 \<and>
    bmp180_init E 0x77 ''/dev/i2c-0'' s = Done (Some (length (bmps s)))
      (s\<lparr>mallocs := m, opens := op, i2c_log := l, bmps := bmps s @ [Some b]\<rparr>)"
proof -
  let ?i = "length (bmps s)" and ?path = "''/dev/i2c-0''"
  let ?fd = "os_open E (opens s) ?path"
  let ?b = "(blank_bmp E)\<lparr>address := 0x77, i2c_device := Some ?path, bmp_file := ?fd\<rparr>"
  let ?s = "s\<lparr>mallocs := Suc (Suc (mallocs s)), opens := (?path, ?fd) # opens s, bmps := bmps s @ [Some ?b]\<rparr>"
  obtain k u where m: "os_malloc E (mallocs s) 60 = Some k" "os_malloc E (Suc (mallocs s)) 10 = Some u" "11 \<le> u"
    "0 \<le> ?fd" "0 \<le> i2c_slave E 0x77" using assms unfolding sensor_answers_def by blast
  have l: "live ?s ?i ?b" by (simp add: live_def)
  from read_eprom_live [OF l, of E] obtain g b where e:
    "bmp180_read_eprom E (Some ?i) ?s = Done () (?s\<lparr>i2c_log := g, bmps := bmps s @ [Some b]\<rparr>)"
    "coefs b = eprom_words E (i2c_log s) bmp180_register_table" by auto
  have "bmp180_init E 0x77 ?path s = Done (Some ?i) (?s\<lparr>i2c_log := g, bmps := bmps s @ [Some (b\<lparr>oss := 0\<rparr>)]\<rparr>)"
    using m e(1) by (simp add: bmp180_init_def sys_malloc_def bmp180_setup_def bmp180_set_addr_def update_bmp_def deref_def)
  moreover have "coefs (b\<lparr>oss := 0\<rparr>) = coefs b" by (simp add: coefs_def)
  ultimately show ?thesis using e(2) eprom_words_ranges [of "b\<lparr>oss := 0\<rparr>" E "i2c_log s"]
    by (intro exI [of _ "b\<lparr>oss := 0\<rparr>"] exI [of _ g] exI) simp
qed

lemma uio_starts:
  assumes "uio_answers E path size_file"
  shows "\<exists>op n p. uio_init E name path size_file set_fd set_ptr s =
      Done 0 (set_ptr p ((set_fd (os_open E (opens s) path) (s\<lparr>opens := op\<rparr>))\<lparr>dev_size := n\<rparr>)) \<and> uio_mapped path p"
proof -
  from assms obtain t n where n: "sysfs_file E size_file = Some t" "scan_size t = Scan_Ok n" "n \<noteq> 0" "os_mmap E path 0 (uint n)"
    "1 \<le> os_open E (opens s) path" unfolding uio_answers_def by blast
  then have "0 < uint n" using uint_ge_0 [of n] by (metis less_le uint_0_iff)
  with n have "uio_init E name path size_file set_fd set_ptr s =
      Done 0 (set_ptr (Mapped path 0 (uint n)) ((set_fd (os_open E (opens s) path)
        (s\<lparr>opens := (path, os_open E (opens s) path) # opens s\<rparr>))\<lparr>dev_size := n\<rparr>))"
    by (simp add: uio_init_def get_memory_size_def sys_mmap_def Let_def)
  with \<open>0 < uint n\<close> show ?thesis by (intro exI [of _ "Mapped path 0 (uint n)"] exI) simp
qed

text \<open>The devices of a running program.\<close>

definition mapped :: "'a zynq_scheme \<Rightarrow> bool" where
  "mapped s \<longleftrightarrow> uio_mapped intc_dev (intc_ptr s) \<and> uio_mapped cfg_dev (cfg_ptr s) \<and> uio_mapped sts_dev (sts_ptr s) \<and>
     uio_mapped xadc_dev (xadc_ptr s) \<and> cma_ptr s = Mapped ''/dev/cma'' 0 4194304"

lemma devices_start:
  assumes "board E ring"
  shows "\<exists>s1 s2 s3 s4 t. intc_init E s = Done 0 s1 \<and> cfg_init E s1 = Done 0 s2 \<and> sts_init E s2 = Done 0 s3 \<and> xadc_init E s3 = Done 0 s4 \<and>
    cma_init E s4 = Done 0 t \<and> mapped t \<and> dev_size t = ring \<and> hist t = hist s \<and> out t = out s \<and> zynq.more t = zynq.more s"
proof -
  have b: "uio_answers E intc_dev ''/sys/class/uio/uio0/maps/map0/size''" "uio_answers E cfg_dev ''/sys/class/uio/uio1/maps/map0/size''"
    "uio_answers E sts_dev ''/sys/class/uio/uio4/maps/map0/size''" "uio_answers E xadc_dev ''/sys/class/uio/uio5/maps/map0/size''"
    and c: "cma_alloc E 4194304 = Some ring" "os_mmap E ''/dev/cma'' 0 4194304" "page_size E = 4096"
    using assms by (simp_all add: board_def)
  have o: "1 \<le> os_open E h ''/dev/cma''" for h using assms by (simp add: board_def)
  obtain s1 where 1: "intc_init E s = Done 0 s1" "uio_mapped intc_dev (intc_ptr s1)" "hist s1 = hist s" "out s1 = out s" "zynq.more s1 = zynq.more s"
    unfolding intc_init_def using uio_starts [OF b(1), of _ _ _ s] by fastforce
  obtain s2 where 2: "cfg_init E s1 = Done 0 s2" "uio_mapped cfg_dev (cfg_ptr s2)" "intc_ptr s2 = intc_ptr s1" "hist s2 = hist s"
    "out s2 = out s" "zynq.more s2 = zynq.more s"
    unfolding cfg_init_def using uio_starts [OF b(2), of _ _ _ s1] 1 by fastforce
  obtain s3 where 3: "sts_init E s2 = Done 0 s3" "uio_mapped sts_dev (sts_ptr s3)" "intc_ptr s3 = intc_ptr s1" "cfg_ptr s3 = cfg_ptr s2"
    "hist s3 = hist s" "out s3 = out s" "zynq.more s3 = zynq.more s"
    unfolding sts_init_def using uio_starts [OF b(3), of _ _ _ s2] 2 by fastforce
  obtain s4 where 4: "xadc_init E s3 = Done 0 s4" "uio_mapped xadc_dev (xadc_ptr s4)" "intc_ptr s4 = intc_ptr s1" "cfg_ptr s4 = cfg_ptr s2"
    "sts_ptr s4 = sts_ptr s3" "hist s4 = hist s" "out s4 = out s" "zynq.more s4 = zynq.more s"
    unfolding xadc_init_def using uio_starts [OF b(4), of _ _ _ s3] 3 by fastforce
  obtain t where "cma_init E s4 = Done 0 t" "mapped t" "dev_size t = ring" "hist t = hist s" "out t = out s" "zynq.more t = zynq.more s"
    using 1 2 3 4 c o [of "opens s4"] by (simp add: mapped_def cma_init_def sys_mmap_def Let_def)
  with 1(1) 2(1) 3(1) 4(1) show ?thesis by blast
qed

section \<open>Up to the action\<close>

lemma mappedD:
  "mapped s \<Longrightarrow> uio_mapped intc_dev (intc_ptr s)" "mapped s \<Longrightarrow> uio_mapped cfg_dev (cfg_ptr s)"
  "mapped s \<Longrightarrow> uio_mapped sts_dev (sts_ptr s)" "mapped s \<Longrightarrow> uio_mapped xadc_dev (xadc_ptr s)"
  "mapped s \<Longrightarrow> cma_ptr s = Mapped ''/dev/cma'' 0 4194304"
  by (simp_all add: mapped_def)

lemma cfg_ready_mapped: "mapped s \<Longrightarrow> page_size E = 4096 \<Longrightarrow> cfg_ready E s"
  by (simp add: cfg_ready_def mapped_def)

text \<open>The frame of the statements between the mapping and the action: the history, the text printed, and the flag of the thread.\<close>

definition moved :: "'a lago_scheme \<Rightarrow> 'a lago_scheme \<Rightarrow> bool" where
  "moved s t \<longleftrightarrow> (\<exists>h x b. t = s\<lparr>out := x, spawned := b, hist := h\<rparr>)"

lemma reg_cong: "hist s = hist t \<Longrightarrow> reg E s = reg E t"
  by (simp add: reg_def fun_eq_iff)

lemma enable_interrupt_app:
  assumes "mapped s" "page_size E = 4096" "holds_writes E cfg_dev z"
  shows "\<exists>h. enable_interrupt E s = Done 0 (s\<lparr>hist := h\<rparr>) \<and> reg E (s\<lparr>hist := h\<rparr>) = reg E s"
proof -
  have "enable_interrupt E s = Done 0 (s\<lparr>hist := Wr intc_dev (uint (intc_off MER)) 3 # Wr intc_dev (uint (intc_off IER)) 1 # hist s\<rparr>)"
    using assms(2) mappedD(1) [OF assms(1)] by (simp add: enable_interrupt_def intc_write_def dev_write_mapped MER_ME_MASK_def MER_HIE_MASK_def del: intc_off.simps)
  then show ?thesis by (intro exI conjI) (auto simp: reg_last_write [OF assms(3)] fun_eq_iff)
qed

lemma first_access_app:
  assumes "mapped s" "page_size E = 4096" "thread_rc E = 0" "holds_writes E cfg_dev z"
  shows "\<exists>t. first_access E s = Done () t \<and> moved s t \<and> out t = out s @ greeting (reg E s) \<and> reg E t = (if reg E s RESET_GRAL = 0 then power_up (reg E s) else reg E s)"
proof -
  define s1 where "s1 = s\<lparr>hist := Rd cfg_dev (uint (cfg_off RESET_GRAL)) # hist s\<rparr>"
  have c: "cfg_ready E s" by (rule cfg_ready_mapped [OF assms(1,2)])
  have r: "cfg_read E (cfg_off RESET_GRAL) s = Done (reg E s RESET_GRAL) s1"
    using cfg_read_app [OF c cfg_off_ok, of RESET_GRAL] by (simp add: s1_def reg_def del: cfg_off.simps)
  have r2: "reg E s1 = reg E s" by (simp add: s1_def reg_last_write [OF assms(4)] fun_eq_iff)
  show ?thesis
  proof (cases "reg E s RESET_GRAL = 0")
    case False
    with r r2 show ?thesis by (auto simp: first_access_def moved_def s1_def greeting_def intro!: exI [of _ "out s"] exI [of _ "spawned s"])
  next
    case True
    define s2 where "s2 = s1\<lparr>out := out s1 @ ''Initializing registers...'' @ nl\<rparr>"
    have "cfg_ready E s2" using c by (simp add: s2_def s1_def cfg_ready_def)
    from init_system_reg [OF this assms(4)] obtain h where
      h: "init_system E s2 = Done 0 (s2\<lparr>hist := h\<rparr>)" "reg E (s2\<lparr>hist := h\<rparr>) = power_up (reg E s2)" by blast
    define s3 where "s3 = s2\<lparr>hist := h, spawned := True\<rparr>"
    have "mapped s3" using assms(1) by (simp add: s3_def s2_def s1_def mapped_def)
    from enable_interrupt_app [OF this assms(2,4)] obtain k where
      k: "enable_interrupt E s3 = Done 0 (s3\<lparr>hist := k\<rparr>)" "reg E (s3\<lparr>hist := k\<rparr>) = reg E s3" by blast
    have "reg E s3 = power_up (reg E s)"
      using h(2) r2 reg_cong [of s2 s1 E] reg_cong [of s3 "s2\<lparr>hist := h\<rparr>" E] by (simp add: s3_def s2_def)
    moreover have "moved s (s3\<lparr>hist := k\<rparr>)" unfolding moved_def s3_def s2_def s1_def by (intro exI) simp
    moreover have "first_access E s = Done () (s3\<lparr>hist := k\<rparr>)"
      using r h(1) k(1) True assms(3) by (simp add: first_access_def s3_def s2_def)
    moreover have "out (s3\<lparr>hist := k\<rparr>) = out s @ greeting (reg E s)" using True by (simp add: s3_def s2_def s1_def greeting_def)
    ultimately show ?thesis using True k(2) by auto
  qed
qed

lemma before_action:
  assumes "mapped s" "page_size E = 4096" "thread_rc E = 0" "holds_writes E cfg_dev z"
  shows "\<exists>v s1 s2 t. rd_reg_value E 1 (cfg_off WR_ADDR) 0 s = Done v s1 \<and> wr_reg_value E 1 (cfg_off WR_ADDR) (dev_size s1) 0 s1 = Done 0 s2 \<and>
    first_access E s2 = Done () t \<and> moved s t \<and>
    out t = out s @ greeting (reg E s) \<and> reg E t = session_regs (dev_size s) (reg E s)"
proof -
  define s1 where "s1 = s\<lparr>hist := Rd cfg_dev (uint (cfg_off WR_ADDR)) # hist s\<rparr>"
  define s2 where "s2 = s1\<lparr>hist := Wr cfg_dev (uint (cfg_off WR_ADDR)) (dev_size s) # hist s1\<rparr>"
  have a: "rd_reg_value E 1 (cfg_off WR_ADDR) 0 s = Done (bus E (hist s) cfg_dev (uint (cfg_off WR_ADDR))) s1"
    "wr_reg_value E 1 (cfg_off WR_ADDR) (dev_size s1) 0 s1 = Done 0 s2"
    using assms(2) mappedD(2) [OF assms(1)] by (simp_all add: rd_reg_value_def wr_reg_value_def dev_ptr_def dev_read_mapped dev_write_mapped s1_def s2_def del: cfg_off.simps)
  have "reg E s2 = (reg E s)(WR_ADDR := dev_size s)"
    by (rule ext) (simp add: s2_def s1_def reg_last_write [OF assms(4)] cfg_off_inj del: cfg_off.simps)
  moreover have "mapped s2" using assms(1) by (simp add: s2_def s1_def mapped_def)
  ultimately obtain t where t: "first_access E s2 = Done () t" "moved s2 t" "out t = out s @ greeting (reg E s)"
    "reg E t = session_regs (dev_size s) (reg E s)"
    using first_access_app [of s2 E z] assms(2-4) by (auto simp: session_regs_def greeting_def s2_def s1_def)
  moreover have "moved s t" using t(2) by (auto simp: moved_def s2_def s1_def)
  ultimately show ?thesis using a by blast
qed

text \<open>The state in which the action starts: \<open>u\<close> is what the parser has left, with the sensor's object at the end of the heap.\<close>

definition at_action :: "'a lago_scheme \<Rightarrow> 'a lago_scheme \<Rightarrow> bool" where
  "at_action u t \<longleftrightarrow> mapped t \<and> (\<exists>b. zynq.more t = zynq.more (u\<lparr>spawned := b\<rparr>))"

lemma at_action_moved:
  assumes "mapped s" "zynq.more s = zynq.more u" "moved s t"
  shows "at_action u t"
proof -
  from assms(3) obtain h x b where t: "t = s\<lparr>out := x, spawned := b, hist := h\<rparr>" by (auto simp: moved_def)
  have "zynq.more t = zynq.more (s\<lparr>spawned := b\<rparr>)" unfolding t by (cases s) simp
  also have "\<dots> = zynq.more (u\<lparr>spawned := b\<rparr>)" using assms(2) by (cases s; cases u) simp
  finally show ?thesis using assms(1) by (auto simp: at_action_def t mapped_def)
qed

lemma at_action_fields:
  assumes "at_action u t"
  shows "actions t = actions u" "reg_off t = reg_off u" "fRegValue t = fRegValue u" "charRegValue t = charRegValue u" "irqs t = irqs u"
    "interrupted t = interrupted u" "bmps t = bmps u" "position t = position u" "fhout t = fhout u" "fFirstTime t = fFirstTime u"
proof -
  from assms obtain b where b: "zynq.more t = zynq.more (u\<lparr>spawned := b\<rparr>)" by (auto simp: at_action_def)
  from b show "actions t = actions u" "reg_off t = reg_off u" "fRegValue t = fRegValue u" "charRegValue t = charRegValue u" "irqs t = irqs u"
    "interrupted t = interrupted u" "bmps t = bmps u" "position t = position u" "fhout t = fhout u" "fFirstTime t = fFirstTime u"
    by (cases t; cases u; simp add: actions_def)+
qed

lemma main_reaches_action:
  assumes "board E ring" "holds_writes E cfg_dev z" "\<And>u. parse_param argv u = Done 1 (g u)" "\<And>u. hist (g u) = hist u \<and> out (g u) = out u"
  shows "\<exists>op l m b t. coef_ranges b \<and> coefs b = eprom_words E (i2c_log s) bmp180_register_table \<and> oss b = 1 \<and>
    main E argv s = thn (dispatch E (Some (length (bmps s)))) (thn close_devices (ret 0)) t \<and>
    at_action (g (s\<lparr>mallocs := m, opens := op, i2c_log := l, bmps := bmps s @ [Some b]\<rparr>)) t \<and>
    out t = out s @ greeting (reg E s) \<and> reg E t = session_regs ring (reg E s)"
proof -
  have e: "sensor_answers E" "page_size E = 4096" "thread_rc E = 0" using assms(1) by (simp_all add: board_def)
  from sensor_starts [OF e(1), of s] obtain op l m b where b: "coef_ranges b" "coefs b = eprom_words E (i2c_log s) bmp180_register_table"
    "bmp180_init E 0x77 ''/dev/i2c-0'' s = Done (Some (length (bmps s))) (s\<lparr>mallocs := m, opens := op, i2c_log := l, bmps := bmps s @ [Some b]\<rparr>)"
    by blast
  define s0 where "s0 = s\<lparr>mallocs := m, opens := op, i2c_log := l, bmps := bmps s @ [Some b]\<rparr>"
  define c where "c = b\<lparr>oss := 1\<rparr>"
  define u where "u = g (s\<lparr>mallocs := m, opens := op, i2c_log := l, bmps := bmps s @ [Some c]\<rparr>)"
  have c: "coef_ranges c" "coefs c = coefs b" "oss c = 1" using b(1) by (simp_all add: c_def coef_ranges_def coefs_def)
  have l: "live s0 (length (bmps s)) b" by (simp add: s0_def live_def)
  have p: "bmp180_dump_eprom (Some (length (bmps s))) s0 = Done (coefs b) s0"
    "bmp180_set_oss (Some (length (bmps s))) 1 s0 = Done () (s\<lparr>mallocs := m, opens := op, i2c_log := l, bmps := bmps s @ [Some c]\<rparr>)"
    using l by (simp_all add: bmp180_dump_eprom_def bmp180_set_oss_def c_def) (simp add: s0_def)
  obtain s1 s2 s3 s4 s5 where d: "intc_init E u = Done 0 s1" "cfg_init E s1 = Done 0 s2" "sts_init E s2 = Done 0 s3" "xadc_init E s3 = Done 0 s4"
    "cma_init E s4 = Done 0 s5" "mapped s5" "dev_size s5 = ring" "hist s5 = hist u" "zynq.more s5 = zynq.more u" "out s5 = out u"
    using devices_start [OF assms(1), of u] by blast
  obtain v s6 s7 t where f: "rd_reg_value E 1 (cfg_off WR_ADDR) 0 s5 = Done v s6" "wr_reg_value E 1 (cfg_off WR_ADDR) (dev_size s6) 0 s6 = Done 0 s7"
    "first_access E s7 = Done () t" "moved s5 t" "reg E t = session_regs ring (reg E s5)"
    "out t = out s5 @ greeting (reg E s5)"
    using before_action [OF d(6) e(2,3) assms(2)] d(7) by blast
  have "main E argv s = thn (dispatch E (Some (length (bmps s)))) (thn close_devices (ret 0)) t"
    using b(3) p assms(3) d(1-5) f(1-3) by (simp add: main_def flip: s0_def u_def)
  moreover have "at_action u t" by (rule at_action_moved [OF d(6,9) f(4)])
  moreover have "reg E s5 = reg E s" using d(8) assms(4) by (intro reg_cong) (simp add: u_def)
  ultimately show ?thesis using b(2) c f(5,6) d(10) assms(4) unfolding u_def by (intro exI [of _ op] exI [of _ l] exI [of _ m] exI [of _ c] exI [of _ t]) simp
qed

section \<open>Settings\<close>

text \<open>The value \<^verbatim>\<open>lago -s <register> <value>\<close> stores, and the command lines the parser accepts: a known name, a voltage of at most
  2500 mV.\<close>

definition setting :: "string \<Rightarrow> string \<Rightarrow> u32" where
  "setting r v = (if is_voltage r then dac_val (of_int (atoi (take 15 v))) else of_int (atoi (take 15 v)))"

definition setting_ok :: "string \<times> string \<times> cfg_reg \<Rightarrow> bool" where
  "setting_ok = (\<lambda>(r, v, c). set_register r = Some (cfg_off c) \<and> \<not> (is_voltage r \<and> 2500 < atoi (take 15 v)))"

lemma set_register_short: "set_register r \<noteq> None \<Longrightarrow> length r \<le> 3"
  by (auto simp: set_register_def split: if_splits)

lemma set_register_target: "set_register r = Some (cfg_off c) \<Longrightarrow> c \<noteq> RESET_GRAL \<and> c \<noteq> WR_ADDR"
  by (auto simp: set_register_def split: if_splits)

lemma close_app: "\<exists>t. thn close_devices (ret 0) s = Done (0 :: int) t \<and> hist t = hist s \<and> irqs t = irqs s \<and> out t = out s"
  by (simp add: close_devices_def)

lemma dispatch_set:
  assumes "fSetCfgReg s" "\<not> fReadReg s" "\<not> fWriteReg s" "reg_off s = cfg_off c" "cfg_ready E s" "holds_writes E cfg_dev z"
  shows "\<exists>t. dispatch E bmp s = Done () t \<and>
    reg E t = (reg E s)(c := (if fRegValue s then dac_val (of_int (atoi (charRegValue s))) else of_int (atoi (charRegValue s))))"
proof -
  let ?v = "if fRegValue s then dac_val (of_int (atoi (charRegValue s))) else of_int (atoi (charRegValue s))"
  from cfg_write_reg [OF assms(5,6), of c ?v] obtain h where
    h: "cfg_write E (cfg_off c) ?v s = Done () (s\<lparr>hist := h\<rparr>)" "reg E (s\<lparr>hist := h\<rparr>) = (reg E s)(c := ?v)" by blast
  have r: "reg E (u\<lparr>out := x\<rparr>) = reg E u" for u :: "'a lago_scheme" and x by (rule reg_cong) simp
  have "dev_write E (cfg_ptr s) (cfg_off c) ?v s = Done () (s\<lparr>hist := h\<rparr>)" using h(1) by (simp add: cfg_write_def)
  then have "\<exists>x. dispatch E bmp s = Done () (s\<lparr>hist := h\<rparr>\<lparr>out := x\<rparr>)"
    using assms(1-4) h(1)
    by (cases "fRegValue s") (simp_all add: dispatch_def set_voltage_def wr_reg_value_def dev_ptr_def, (rule exI, rule refl)+)
  with h(2) r show ?thesis by auto
qed

text \<open>What the parser leaves after an accepted \<^verbatim>\<open>-s\<close>.\<close>

definition set_parsed :: "string list \<Rightarrow> cfg_reg \<Rightarrow> 'a lago_scheme \<Rightarrow> 'a lago_scheme" where
  "set_parsed argv c s = (with_action argv s)
     \<lparr>fSetCfgReg := True, charReg := argv ! 2, reg_off := cfg_off c, charRegValue := take 15 (argv ! 3), fRegValue := is_voltage (argv ! 2)\<rparr>"

lemma parse_set_ok:
  assumes "setting_ok (r, v, c)"
  shows "parse_param [p, ''-s'', r, v] s = Done 1 (set_parsed [p, ''-s'', r, v] c s)"
proof -
  have a: "set_register r = Some (cfg_off c)" "\<not> (is_voltage r \<and> 2500 < atoi (take 15 v))" using assms by (simp_all add: setting_ok_def)
  have "length r \<le> 3" using set_register_short a(1) by simp
  then have k: "strcpys MAXCHRLEN r = r" "strcpys MAXCHRLEN ''-s'' = ''-s''" "strcpys 16 v = take 15 v"
    by (simp_all add: strcpys_def MAXCHRLEN_def)
  have f: "\<not> fRegValue (with_action [p, ''-s'', r, v] s)" by (simp add: with_action_def reset_flags_def)
  show ?thesis
    using a f by (cases "is_voltage r") (simp_all add: parse_param_app parse_set_app k set_parsed_def Let_def numeral_2_eq_2 numeral_3_eq_3)
qed

lemma main_set:
  assumes "board E ring" "holds_writes E cfg_dev z" "setting_ok (r, v, c)"
  shows "\<exists>t. main E [p, ''-s'', r, v] s = Done 0 t \<and> reg E t = (session_regs ring (reg E s))(c := setting r v)"
proof -
  let ?argv = "[p, ''-s'', r, v]"
  obtain u t where t: "main E ?argv s = thn (dispatch E (Some (length (bmps s)))) (thn close_devices (ret 0)) t"
    "at_action (set_parsed ?argv c u) t" "reg E t = session_regs ring (reg E s)"
    using main_reaches_action [OF assms(1,2), of ?argv "set_parsed ?argv c" s] parse_set_ok [OF assms(3)]
    by (fastforce simp: set_parsed_def with_action_def reset_flags_def)
  have "fSetCfgReg t" "\<not> fReadReg t" "\<not> fWriteReg t" "reg_off t = cfg_off c" "fRegValue t = is_voltage r" "charRegValue t = take 15 v"
    using at_action_fields [OF t(2)] by (simp_all add: actions_def set_parsed_def with_action_def reset_flags_def)
  moreover have "cfg_ready E t" using t(2) assms(1) by (intro cfg_ready_mapped) (simp_all add: at_action_def board_def)
  ultimately obtain w where w: "dispatch E (Some (length (bmps s))) t = Done () w" "reg E w = (reg E t)(c := setting r v)"
    using dispatch_set [of t c E z "Some (length (bmps s))"] assms(2) by (auto simp: setting_def)
  obtain x where "thn close_devices (ret 0) w = Done (0 :: int) x" "hist x = hist w" using close_app [of w] by blast
  with t w reg_cong [of x w E] show ?thesis by (intro exI [of _ x]) (simp add: thn_app)
qed

text \<open>The report of \<^verbatim>\<open>lago -a\<close>.\<close>

lemma main_status:
  assumes "board E ring" "holds_writes E cfg_dev z"
  shows "\<exists>t. main E [p, ''-a''] s = Done 0 t \<and> out t = out s @ greeting (reg E s) @ status_text (session_regs ring (reg E s))"
proof -
  let ?argv = "[p, ''-a'']" and ?g = "\<lambda>u. (with_action [p, ''-a''] u)\<lparr>fGetCfgStatus := True\<rparr>"
  have g: "parse_param ?argv u = Done 1 (?g u)" for u :: "'a lago_scheme" by (simp add: parse_param_app Let_def strcpys_def MAXCHRLEN_def)
  obtain u t where t: "main E ?argv s = thn (dispatch E (Some (length (bmps s)))) (thn close_devices (ret 0)) t"
    "at_action (?g u) t" "out t = out s @ greeting (reg E s)" "reg E t = session_regs ring (reg E s)"
    using main_reaches_action [OF assms g, of s] by (fastforce simp: with_action_def reset_flags_def)
  have c: "cfg_ready E t" using t(2) assms(1) by (intro cfg_ready_mapped) (simp_all add: at_action_def board_def)
  have "\<not> fReadReg t" "\<not> fWriteReg t" "\<not> fSetCfgReg t" "fGetCfgStatus t"
    using at_action_fields(1) [OF t(2)] by (simp_all add: actions_def with_action_def reset_flags_def)
  then obtain w where w: "dispatch E (Some (length (bmps s))) t = Done () w" "out w = out t @ status_text (reg E t)"
    using rd_cfg_status_text [OF c assms(2)] by (auto simp: dispatch_def)
  obtain x where "thn close_devices (ret 0) w = Done (0 :: int) x" "out x = out w" using close_app [of w] by blast
  with t w show ?thesis by (intro exI [of _ x]) (simp add: thn_app)
qed

text \<open>Processes one after the other: each starts with its variables in the state \<open>s\<close>, on the board as the previous one left it.\<close>

fun lago_runs :: "env \<Rightarrow> 'a lago_scheme \<Rightarrow> string list list \<Rightarrow> bus_ev list \<Rightarrow> bus_ev list option" where
  "lago_runs E s [] h = Some h"
| "lago_runs E s (argv # cmds) h = (case main E argv (s\<lparr>hist := h\<rparr>) of Done rc t \<Rightarrow> lago_runs E s cmds (hist t) | Stopped e t \<Rightarrow> None)"

definition set_cmd :: "string \<times> string \<times> cfg_reg \<Rightarrow> string list" where
  "set_cmd = (\<lambda>(r, v, c). [''lago'', ''-s'', r, v])"

definition settle :: "string \<times> string \<times> cfg_reg \<Rightarrow> (cfg_reg \<Rightarrow> u32) \<Rightarrow> cfg_reg \<Rightarrow> u32" where
  "settle = (\<lambda>(r, v, c) f. f(c := setting r v))"

text \<open>Later runs find the logic initialised.\<close>

lemma session_regs_settled: "setting_ok x \<Longrightarrow> session_regs ring (settle x (session_regs ring f)) = settle x (session_regs ring f)"
  using set_register_target [of "fst x" "snd (snd x)"]
  by (auto simp: session_regs_def settle_def setting_ok_def power_up_def fun_eq_iff)

lemma settings_run:
  assumes "board E ring" "holds_writes E cfg_dev z" "\<forall>x \<in> set cs. setting_ok x" "session_regs ring (reg E (s\<lparr>hist := h\<rparr>)) = f"
  shows "\<exists>k. lago_runs E s (map set_cmd cs) h = Some k \<and> session_regs ring (reg E (s\<lparr>hist := k\<rparr>)) = fold settle cs f \<and>
    (cs \<noteq> [] \<longrightarrow> reg E (s\<lparr>hist := k\<rparr>) = fold settle cs f)"
  using assms(3,4)
proof (induction cs arbitrary: h f)
  case Nil
  then show ?case by simp
next
  case (Cons x cs)
  obtain r v c where x: "x = (r, v, c)" by (metis prod.exhaust)
  have ok: "setting_ok x" using Cons.prems(1) by simp
  with main_set [OF assms(1,2), of r v c "''lago''" "s\<lparr>hist := h\<rparr>"] Cons.prems(2) obtain t where
    t: "main E (set_cmd x) (s\<lparr>hist := h\<rparr>) = Done 0 t" "reg E t = settle x f"
    by (auto simp: x set_cmd_def settle_def)
  have e: "reg E (s\<lparr>hist := hist t\<rparr>) = settle x f" using t(2) reg_cong [of "s\<lparr>hist := hist t\<rparr>" t E] by simp
  then have "session_regs ring (reg E (s\<lparr>hist := hist t\<rparr>)) = settle x f"
    using session_regs_settled [OF ok] Cons.prems(2) by (metis)
  from Cons.IH [OF _ this] Cons.prems(1) obtain k where "lago_runs E s (map set_cmd cs) (hist t) = Some k"
    "session_regs ring (reg E (s\<lparr>hist := k\<rparr>)) = fold settle cs (settle x f)" "cs \<noteq> [] \<longrightarrow> reg E (s\<lparr>hist := k\<rparr>) = fold settle cs (settle x f)"
    by auto
  with t(1) e show ?case by (cases cs) auto
qed

section \<open>Acquisition\<close>

text \<open>The calibration data the sensor delivers make no division by zero, for every reading.\<close>

definition sensor_computes :: "env \<Rightarrow> i2c_op list \<Rightarrow> bool" where
  "sensor_computes E g \<longleftrightarrow> (\<forall>b. coefs b = eprom_words E g bmp180_register_table \<and> oss b = 1 \<longrightarrow>
     (\<forall>l. calc_B5 b (UT_of E l) \<noteq> None) \<and> (\<forall>l l'. calc_pressure b (UT_of E l) (UP_of E l' 1) \<noteq> None))"

text \<open>What the parser leaves after \<^verbatim>\<open>-o\<close> or \<^verbatim>\<open>-f <file>\<close>.\<close>

definition daq_parsed :: "string list \<Rightarrow> 'a lago_scheme \<Rightarrow> 'a lago_scheme" where
  "daq_parsed argv s =
     (if length argv = 2 then (with_action argv s)\<lparr>fToStdout := True\<rparr>
      else (with_action argv s)\<lparr>fToFile := True, charFile := strcpys MAXFILENAMELEN (argv ! 2), fFile := True\<rparr>)"

lemma parse_daq:
  assumes "argv = [p, ''-o''] \<or> argv = [p, ''-f'', f]"
  shows "parse_param argv s = Done 1 (daq_parsed argv s)"
proof -
  have "strcpys MAXCHRLEN ''-o'' = ''-o''" "strcpys MAXCHRLEN ''-f'' = ''-f''" by (simp_all add: strcpys_def MAXCHRLEN_def)
  then have "parse_param [p, ''-o''] s = Done 1 (daq_parsed [p, ''-o''] s)" "parse_param [p, ''-f'', f] s = Done 1 (daq_parsed [p, ''-f'', f] s)"
    by (simp_all add: parse_param_app daq_parsed_def Let_def numeral_2_eq_2)
  with assms show ?thesis by blast
qed

lemma daq_parsed_fields:
  "hist (daq_parsed argv s) = hist s \<and> out (daq_parsed argv s) = out s" "irqs (daq_parsed argv s) = irqs s" "interrupted (daq_parsed argv s) = interrupted s"
  "position (daq_parsed argv s) = position s" "fFirstTime (daq_parsed argv s) = fFirstTime s" "bmps (daq_parsed argv s) = bmps s"
  by (simp_all add: daq_parsed_def with_action_def reset_flags_def)

lemma dispatch_acquires:
  assumes "actions t = actions (daq_parsed argv u)" "\<not> fInitSystem u"
  shows "dispatch E bmp t = acquire E bmp t"
  using assms by (cases "length argv = 2") (simp_all add: actions_def daq_parsed_def with_action_def reset_flags_def dispatch_def)

lemma daq_ok_starts:
  assumes "mapped t" "page_size E = 4096" "\<forall>f. os_fopen E f" "live t i b" "oss b = 1"
    and "\<forall>l. calc_B5 b (UT_of E l) \<noteq> None" "\<forall>l l'. calc_pressure b (UT_of E l) (UP_of E l' 1) \<noteq> None"
    and "fFirstTime t" "0 \<le> position t" "position t < 2 ^ 20"
  shows "daq_ok E (Some i) (t\<lparr>limit := 2 ^ 20, current := - 2\<rparr>)"
proof -
  let ?t = "t\<lparr>limit := 2 ^ 20, current := - 2\<rparr>"
  have "live ?t i b" using assms(4) by (simp add: live_def)
  then have "sensor_up E (Some i) ?t" unfolding sensor_up_def using assms(5-7) by (intro exI [of _ i] exI [of _ b]) simp
  moreover have "words_mapped E (Mapped ''/dev/cma'' 0 4194304) (2 ^ 20)" using assms(2) by (simp add: words_mapped_def page_round_def)
  ultimately show ?thesis using assms(2,3,8-) mappedD [OF assms(1)]
    by (simp add: daq_ok_def ready_def regs_up_def cfg_ready_def ring_mapped_def)
qed

section \<open>Properties\<close>

lemma session_regs_up: "session_regs ring f RESET_GRAL \<noteq> 0"
  by (simp add: session_regs_def power_up_def)

lemma bench_size: "scan_size (''0x00001000'' @ nl) = Scan_Ok 4096"
  by code_simp

lemma bench_board: "board bench 0x1E000000"
proof -
  have "uio_answers bench p f" for p f using bench_size by (auto simp: uio_answers_def bench_def)
  moreover have "sensor_answers bench" by (simp add: sensor_answers_def bench_def)
  ultimately show ?thesis by (simp add: board_def) (simp add: bench_def)
qed

text \<open>
  (C6) Settings outlive the process: on a board that answers, any sequence of runs \<^verbatim>\<open>lago -s <register> <value>\<close> with accepted values ends
  with the power-up values (if the logic was in reset before) and the address of the ring, overridden by the settings in their order;
  no later run initialises the registers again, and a following \<^verbatim>\<open>lago -a\<close> prints the report of exactly these registers.
\<close>

theorem settings_persist:
  assumes "board E ring" "holds_writes E cfg_dev z" "cs \<noteq> []" "\<forall>x \<in> set cs. setting_ok x"
  shows "\<exists>k t. lago_runs E s (map set_cmd cs) h = Some k \<and>
    reg E (s\<lparr>hist := k\<rparr>) = fold settle cs (session_regs ring (reg E (s\<lparr>hist := h\<rparr>))) \<and>
    main E [''lago'', ''-a''] (s\<lparr>hist := k\<rparr>) = Done 0 t \<and>
    out t = out s @ status_text (fold settle cs (session_regs ring (reg E (s\<lparr>hist := h\<rparr>))))"
proof -
  let ?f = "fold settle cs (session_regs ring (reg E (s\<lparr>hist := h\<rparr>)))"
  obtain k where k: "lago_runs E s (map set_cmd cs) h = Some k" "session_regs ring (reg E (s\<lparr>hist := k\<rparr>)) = ?f" "reg E (s\<lparr>hist := k\<rparr>) = ?f"
    using settings_run [OF assms(1,2,4) refl, of s h] assms(3) by blast
  then have "greeting ?f = []" using session_regs_up [of ring "reg E (s\<lparr>hist := k\<rparr>)"] by (simp add: greeting_def)
  then show ?thesis using main_status [OF assms(1,2), of "''lago''" "s\<lparr>hist := k\<rparr>"] k by auto
qed

theorem settings_persist_witness:
  "\<exists>k. lago_runs bench lago0 [[''lago'', ''-s'', ''hv2'', ''1200''], [''lago'', ''-s'', ''t1'', ''200''], [''lago'', ''-s'', ''hv2'', ''900'']] [] = Some k \<and>
     reg bench (lago0\<lparr>hist := k\<rparr>) HV2 = dac_val 900 \<and> reg bench (lago0\<lparr>hist := k\<rparr>) TRLVL_1 = 200 \<and>
     reg bench (lago0\<lparr>hist := k\<rparr>) TRLVL_2 = 8190"
proof -
  let ?cs = "[(''hv2'', ''1200'', HV2), (''t1'', ''200'', TRLVL_1), (''hv2'', ''900'', HV2)]"
  have a: "atoi (take 15 ''1200'') = 1200" "atoi (take 15 ''200'') = 200" "atoi (take 15 ''900'') = 900" by code_simp+
  have s: "set_register ''hv2'' = Some (cfg_off HV2)" "set_register ''t1'' = Some (cfg_off TRLVL_1)" "is_voltage ''hv2''" "\<not> is_voltage ''t1''"
    by code_simp+
  have ok: "\<forall>x \<in> set ?cs. setting_ok x" using a s by (simp add: setting_ok_def del: cfg_off.simps)
  have "reg bench (lago0\<lparr>hist := []\<rparr>) = (\<lambda>r. 0)" by (simp add: reg_def fun_eq_iff)
  with settings_persist [OF bench_board bench_simps(9) _ ok, of lago0 "[]"] show ?thesis
    using a s by (auto simp: set_cmd_def settle_def setting_def session_regs_def power_up_def)
qed

text \<open>
  (C2) A whole acquisition with the logic already initialised (its reset register is not zero, so that this run creates no second
  thread): on a board that answers, \<^verbatim>\<open>lago -o\<close> and \<^verbatim>\<open>lago -f <file>\<close> reach the acquisition with the writer programmed to
  the ring; they read the ring after each wait until SIGINT arrives during a served wait, take exactly these events, clear the bits 0, 1
  and 2 of the reset register, change no other register, and return 0.  The run that finds the logic in reset also starts the thread of
  \<^verbatim>\<open>thread_isr_not_gps\<close>, which takes events from the same descriptor; its interleavings with the loop are those of \<open>daq_step\<close>.
\<close>

theorem main_acquires:
  assumes "board E ring" "holds_writes E cfg_dev z" "\<forall>f. os_fopen E f" "sensor_computes E (i2c_log s)" "status_in E (2 ^ 20)"
    and "argv = [p, ''-o''] \<or> argv = [p, ''-f'', f]" "\<not> fInitSystem s" "fFirstTime s" "\<not> interrupted s" "0 \<le> position s" "position s < 2 ^ 20"
    and "irqs s = qs @ q # rest" "\<forall>x \<in> set qs. served x \<and> \<not> irq_sig x" "served q" "irq_sig q"
    and "reg E s RESET_GRAL \<noteq> 0"
  shows "\<exists>t. main E argv s = Done 0 t \<and> irqs t = rest \<and>
    reg E t = (reg E s)(WR_ADDR := ring, RESET_GRAL := reg E s RESET_GRAL AND NOT 7)"
proof -
  let ?i = "length (bmps s)"
  obtain op l m b t where t: "coefs b = eprom_words E (i2c_log s) bmp180_register_table" "oss b = 1"
    "main E argv s = thn (dispatch E (Some ?i)) (thn close_devices (ret 0)) t"
    "at_action (daq_parsed argv (s\<lparr>mallocs := m, opens := op, i2c_log := l, bmps := bmps s @ [Some b]\<rparr>)) t"
    "reg E t = session_regs ring (reg E s)"
    using main_reaches_action [OF assms(1,2) parse_daq [OF assms(6)] daq_parsed_fields(1), of s] by blast
  note f = at_action_fields [OF t(4), unfolded daq_parsed_fields]
  have m: "mapped t" using t(4) by (simp add: at_action_def)
  have "live t ?i b" using f(7) by (simp add: live_def)
  with t(1,2) m assms(1,3,4,8,10,11) f(8,10) have ok: "daq_ok E (Some ?i) (t\<lparr>limit := 2 ^ 20, current := - 2\<rparr>)"
    by (intro daq_ok_starts [where b = b]) (auto simp: sensor_computes_def board_def)
  have "irqs t = qs @ q # rest" "\<not> interrupted t" using f(5,6) assms(9,12) by simp_all
  from acquire_returns [OF ok assms(5,2) this(2,1) assms(13-15)] obtain w where
    w: "acquire E (Some ?i) t = Done () w" "irqs w = rest" "reg E w = (reg E t)(RESET_GRAL := reg E t RESET_GRAL AND NOT 7)" by blast
  have "dispatch E (Some ?i) t = acquire E (Some ?i) t" by (rule dispatch_acquires [OF f(1)]) (simp add: assms(7))
  moreover obtain x where "thn close_devices (ret 0) w = Done (0 :: int) x" "hist x = hist w" "irqs x = irqs w" using close_app [of w] by blast
  moreover have "session_regs ring (reg E s) = (reg E s)(WR_ADDR := ring)" using assms(16) by (simp add: session_regs_def)
  ultimately show ?thesis using t(3,5) w reg_cong [of x w E] by (intro exI [of _ x]) (simp add: thn_app)
qed

text \<open>The bench with the sensor of the data sheet and a writer that has not moved.\<close>

definition station_env :: env where
  "station_env = prom_env\<lparr>bus := \<lambda>h p a. if p = sts_dev then 0 else last_write (\<lambda>a. 0) h p a\<rparr>"

lemma station_board: "board station_env 0x1E000000"
  using bench_board by (simp add: board_def uio_answers_def sensor_answers_def station_env_def prom_env_def datasheet_env_def)

lemma station_raw: "UT_of station_env l = 27898" "UP_of station_env l 1 = 47686"
  using prom_steady by (simp_all add: steady_def UT_of_def UP_of_def station_env_def)

lemma station_coefs: "eprom_words station_env [] bmp180_register_table = coefs (datasheet_bmp\<lparr>oss := 1\<rparr>)"
  by code_simp

lemma calc_coefs:
  assumes "coefs b = coefs c" "oss b = oss c"
  shows "calc_B5 b = calc_B5 c" "calc_pressure b = calc_pressure c"
proof -
  have e: "ac1 b = ac1 c" "ac2 b = ac2 c" "ac3 b = ac3 c" "ac4 b = ac4 c" "ac5 b = ac5 c" "ac6 b = ac6 c" "b1 b = b1 c" "b2 b = b2 c"
    "mc b = mc c" "md b = md c" using assms(1) by (simp_all add: coefs_def)
  show "calc_B5 b = calc_B5 c" by (intro ext) (simp only: calc_B5_def e)
  then show "calc_pressure b = calc_pressure c" by (intro ext) (simp only: calc_pressure_def calc_B3_def calc_B4_def e assms(2))
qed

lemma station_computes: "sensor_computes station_env []"
proof -
  have "calc_B5 (datasheet_bmp\<lparr>oss := 1\<rparr>) 27898 \<noteq> None" "calc_pressure (datasheet_bmp\<lparr>oss := 1\<rparr>) 27898 47686 \<noteq> None" by code_simp+
  moreover have "oss (datasheet_bmp\<lparr>oss := 1\<rparr>) = 1" by simp
  ultimately show ?thesis unfolding sensor_computes_def station_raw station_coefs by (metis calc_coefs)
qed

text \<open>A program started on logic that an earlier run has initialised.\<close>

definition station0 :: lago where
  "station0 = lago0\<lparr>irqs := [quiet False, quiet True], hist := [Wr cfg_dev (uint (cfg_off RESET_GRAL)) 0x3F]\<rparr>"

theorem main_acquires_witness:
  "\<exists>t. main station_env [''lago'', ''-f'', ''run7''] station0 = Done 0 t \<and> irqs t = [] \<and>
     reg station_env t RESET_GRAL = 0x38 \<and> reg station_env t WR_ADDR = 0x1E000000"
proof -
  have h: "holds_writes station_env cfg_dev (\<lambda>a. 0)" "\<forall>f. os_fopen station_env f" "status_in station_env (2 ^ 20)"
    by (simp_all add: station_env_def prom_env_def datasheet_env_def holds_writes_def status_in_def)
  have s: "i2c_log station0 = []" "\<not> fInitSystem station0" "fFirstTime station0" "\<not> interrupted station0" "position station0 = 0"
    "irqs station0 = [quiet False] @ quiet True # []"
    by (simp_all add: station0_def lago0_defs)
  have r: "reg station_env station0 RESET_GRAL = 0x3F"
    by (simp add: reg_last_write [OF h(1)] station0_def cfg_off_inj del: cfg_off.simps)
  show ?thesis
    using main_acquires [OF station_board h(1,2) _ h(3) disjI2 [OF refl] s(2-4) _ _ s(6), of "''lago''" "''run7''"] station_computes
    by (auto simp: s r daq0_simps)
qed

end
