(* ===== verification/TinyGPS.thy ===== *)
theory TinyGPS
  imports NMEA_RP
begin

text \<open>
  The character-driven GPS parser \<^verbatim>\<open>src/apps/rp_tinygps/tinygps.c\<close> and its program \<^verbatim>\<open>rp_gps.c\<close>.  \<^verbatim>\<open>gps_encode\<close> consumes one character
  of the NMEA stream; the terms of a sentence are collected in the array \<^verbatim>\<open>_term\<close> of 15 bytes, decoded into the \<^verbatim>\<open>_new_\<close>
  variables, and committed when the checksum of the sentence matches.  The globals are the record \<open>tinygps\<close> (the leading
  underscore of the C names is dropped), all zero at the start as the C language prescribes; \<^verbatim>\<open>char\<close> is unsigned on the target,
  \<^verbatim>\<open>long\<close> has 32 bits and wraps.  The processor clock and the mathematical library are the parameter \<open>libm\<close>.
\<close>

section \<open>State\<close>

record libm =
  m_clock :: "nat \<Rightarrow> int"
  m_sin :: "flt \<Rightarrow> flt"
  m_cos :: "flt \<Rightarrow> flt"
  m_sqrt :: "flt \<Rightarrow> flt"
  m_atan2 :: "flt \<Rightarrow> flt \<Rightarrow> flt"

datatype sentence = GPS_SENTENCE_GPGGA | GPS_SENTENCE_GPRMC | GPS_SENTENCE_OTHER

record fix_data =
  g_time :: u32
  g_date :: u32
  g_latitude :: i32
  g_longitude :: i32
  g_altitude :: i32
  g_speed :: u32
  g_course :: u32
  g_hdop :: u32
  g_numsats :: u16
  last_time_fix :: u32
  last_position_fix :: u32

record tinygps = fix_data +
  new_time :: u32
  new_date :: u32
  new_latitude :: i32
  new_longitude :: i32
  new_altitude :: i32
  new_speed :: u32
  new_course :: u32
  new_hdop :: u32
  new_numsats :: u16
  new_time_fix :: u32
  new_position_fix :: u32
  parity :: u8
  is_checksum_term :: bool
  gterm :: string
  sentence_type :: sentence
  term_number :: u8
  term_offset :: u8
  is_gps_data_good :: bool
  encoded_characters :: u32
  good_sentences :: u16
  failed_checksum :: u16
  clock_calls :: nat

definition tiny0 :: tinygps where
  "tiny0 =
     \<lparr>g_time = 0, g_date = 0, g_latitude = 0, g_longitude = 0, g_altitude = 0, g_speed = 0, g_course = 0, g_hdop = 0, g_numsats = 0,
      last_time_fix = 0, last_position_fix = 0,
      new_time = 0, new_date = 0, new_latitude = 0, new_longitude = 0, new_altitude = 0, new_speed = 0, new_course = 0, new_hdop = 0,
      new_numsats = 0, new_time_fix = 0, new_position_fix = 0,
      parity = 0, is_checksum_term = False, gterm = replicate 15 NUL, sentence_type = GPS_SENTENCE_GPGGA, term_number = 0, term_offset = 0,
      is_gps_data_good = False, encoded_characters = 0, good_sentences = 0, failed_checksum = 0, clock_calls = 0\<rparr>"

definition GPS_INVALID_AGE :: u32 where "GPS_INVALID_AGE = 0xFFFFFFFF"
definition GPS_INVALID_FIX_TIME :: u32 where "GPS_INVALID_FIX_TIME = 0xFFFFFFFF"
definition GPS_INVALID_ANGLE :: u32 where "GPS_INVALID_ANGLE = 999999999"
definition GPS_INVALID_ALTITUDE :: u32 where "GPS_INVALID_ALTITUDE = 999999999"
definition GPS_INVALID_SPEED :: u32 where "GPS_INVALID_SPEED = 999999999"
definition GPS_INVALID_F_ANGLE :: flt where "GPS_INVALID_F_ANGLE = f_of_int double_prec 1000"
definition GPS_INVALID_F_ALTITUDE :: flt where "GPS_INVALID_F_ALTITUDE = f_of_int double_prec 1000000"
definition GPS_INVALID_F_SPEED :: flt where "GPS_INVALID_F_SPEED = f_of_int double_prec (- 1)"

section \<open>Terms\<close>

definition gpsisdigit :: "char \<Rightarrow> bool" where
  "gpsisdigit c \<longleftrightarrow> code (CHR ''0'') \<le> code c \<and> code c \<le> code (CHR ''9'')"

definition from_hex :: "char \<Rightarrow> int" where
  "from_hex a =
     (if code (CHR ''A'') \<le> code a \<and> code a \<le> code (CHR ''F'') then code a - code (CHR ''A'') + 10
      else if code (CHR ''a'') \<le> code a \<and> code a \<le> code (CHR ''f'') then code a - code (CHR ''a'') + 10
      else code a - code (CHR ''0''))"

definition gpsatol :: "string \<Rightarrow> u32" where
  "gpsatol str = foldl (\<lambda>r c. 10 * r + of_int (code c) - of_int (code (CHR ''0''))) 0 (takeWhile gpsisdigit str)"

text \<open>\<^verbatim>\<open>while (*str1 && *str1 == *str2) ++str1, ++str2; return *str1;\<close>\<close>

fun gpsstrcmp :: "string \<Rightarrow> string \<Rightarrow> int" where
  "gpsstrcmp [] str2 = 0"
| "gpsstrcmp (c # s) [] = code c"
| "gpsstrcmp (c # s) (d # t) = (if c = d then gpsstrcmp s t else code c)"

definition digit_at :: "string \<Rightarrow> nat \<Rightarrow> bool" where
  "digit_at p i \<longleftrightarrow> i < length p \<and> gpsisdigit (p ! i)"

definition gps_parse_decimal :: "string \<Rightarrow> u32" where
  "gps_parse_decimal trm =
     (let isneg = (case trm of [] \<Rightarrow> False | c # _ \<Rightarrow> c = CHR ''-'');
          p = (if isneg then tl trm else trm);
          r0 = 100 * gpsatol p;
          q = dropWhile gpsisdigit p;
          r1 = (if q \<noteq> [] \<and> hd q = CHR ''.'' \<and> digit_at q 1
                then r0 + 10 * (of_int (code (q ! 1)) - of_int (code (CHR ''0''))) +
                     (if digit_at q 2 then of_int (code (q ! 2)) - of_int (code (CHR ''0'')) else 0)
                else r0)
      in if isneg then - r1 else r1)"

text \<open>The digits after the point, with weights 1000, 100, 10, 1, 0.\<close>

fun add_minutes :: "u32 \<Rightarrow> u32 \<Rightarrow> string \<Rightarrow> u32" where
  "add_minutes m mult [] = m"
| "add_minutes m mult (c # s) =
     (if gpsisdigit c then add_minutes (m + mult * (of_int (code c) - of_int (code (CHR ''0'')))) (mult div 10) s else m)"

definition gps_parse_degrees :: "string \<Rightarrow> u32" where
  "gps_parse_degrees trm =
     (let left = gpsatol trm;
          m0 = (left mod 100) * 10000;
          q = dropWhile gpsisdigit trm;
          m1 = (if q \<noteq> [] \<and> hd q = CHR ''.'' then add_minutes m0 1000 (tl q) else m0)
      in (left div 100) * 100000 + m1 div 6)"

text \<open>\<^verbatim>\<open>clock() / (CLOCKS_PER_SEC / 1000)\<close>; POSIX fixes \<^verbatim>\<open>CLOCKS_PER_SEC\<close> to 1000000.\<close>

definition uptime :: "libm \<Rightarrow> tinygps \<Rightarrow> u32 \<times> tinygps" where
  "uptime L g = (of_int (m_clock L (clock_calls g) sdiv 1000), g\<lparr>clock_calls := Suc (clock_calls g)\<rparr>)"

fun st_code :: "sentence \<Rightarrow> nat" where
  "st_code GPS_SENTENCE_GPGGA = 0"
| "st_code GPS_SENTENCE_GPRMC = 1"
| "st_code GPS_SENTENCE_OTHER = 2"

text \<open>\<^verbatim>\<open>((unsigned)(sentence_type) << 5) | term_number\<close>\<close>

definition COMBINE :: "sentence \<Rightarrow> nat \<Rightarrow> nat" where
  "COMBINE st n = push_bit 5 (st_code st) OR n"

section \<open>A completed term\<close>

definition commit :: "tinygps \<Rightarrow> tinygps" where
  "commit g0 =
     (let g = g0\<lparr>good_sentences := good_sentences g0 + 1, last_time_fix := new_time_fix g0, last_position_fix := new_position_fix g0\<rparr>
      in case sentence_type g of
           GPS_SENTENCE_GPRMC \<Rightarrow>
             g\<lparr>g_time := new_time g, g_date := new_date g, g_latitude := new_latitude g, g_longitude := new_longitude g,
               g_speed := new_speed g, g_course := new_course g\<rparr>
         | GPS_SENTENCE_GPGGA \<Rightarrow>
             g\<lparr>g_altitude := new_altitude g, g_time := new_time g, g_latitude := new_latitude g, g_longitude := new_longitude g,
               g_numsats := new_numsats g, g_hdop := new_hdop g\<rparr>
         | GPS_SENTENCE_OTHER \<Rightarrow> g)"

definition term_checksum :: "tinygps \<Rightarrow> u8" where
  "term_checksum g = of_int (16 * from_hex (gterm g ! 0) + from_hex (gterm g ! 1))"

definition set_type :: "string \<Rightarrow> sentence" where
  "set_type trm =
     (if gpsstrcmp trm ''GPRMC'' = 0 then GPS_SENTENCE_GPRMC
      else if gpsstrcmp trm ''GPGGA'' = 0 then GPS_SENTENCE_GPGGA else GPS_SENTENCE_OTHER)"

definition decode_term :: "libm \<Rightarrow> nat \<Rightarrow> string \<Rightarrow> tinygps \<Rightarrow> tinygps" where
  "decode_term L k trm g =
     (if k = COMBINE GPS_SENTENCE_GPRMC 1 \<or> k = COMBINE GPS_SENTENCE_GPGGA 1 then
        (let (u, g1) = uptime L (g\<lparr>new_time := gps_parse_decimal trm\<rparr>) in g1\<lparr>new_time_fix := u\<rparr>)
      else if k = COMBINE GPS_SENTENCE_GPRMC 2 then g\<lparr>is_gps_data_good := (hd trm = CHR ''A'')\<rparr>
      else if k = COMBINE GPS_SENTENCE_GPRMC 3 \<or> k = COMBINE GPS_SENTENCE_GPGGA 2 then
        (let (u, g1) = uptime L (g\<lparr>new_latitude := gps_parse_degrees trm\<rparr>) in g1\<lparr>new_position_fix := u\<rparr>)
      else if k = COMBINE GPS_SENTENCE_GPRMC 4 \<or> k = COMBINE GPS_SENTENCE_GPGGA 3 then
        (if hd trm = CHR ''S'' then g\<lparr>new_latitude := - new_latitude g\<rparr> else g)
      else if k = COMBINE GPS_SENTENCE_GPRMC 5 \<or> k = COMBINE GPS_SENTENCE_GPGGA 4 then g\<lparr>new_longitude := gps_parse_degrees trm\<rparr>
      else if k = COMBINE GPS_SENTENCE_GPRMC 6 \<or> k = COMBINE GPS_SENTENCE_GPGGA 5 then
        (if hd trm = CHR ''W'' then g\<lparr>new_longitude := - new_longitude g\<rparr> else g)
      else if k = COMBINE GPS_SENTENCE_GPRMC 7 then g\<lparr>new_speed := gps_parse_decimal trm\<rparr>
      else if k = COMBINE GPS_SENTENCE_GPRMC 8 then g\<lparr>new_course := gps_parse_decimal trm\<rparr>
      else if k = COMBINE GPS_SENTENCE_GPRMC 9 then g\<lparr>new_date := gpsatol trm\<rparr>
      else if k = COMBINE GPS_SENTENCE_GPGGA 6 then g\<lparr>is_gps_data_good := (code (CHR ''0'') < code (hd trm))\<rparr>
      else if k = COMBINE GPS_SENTENCE_GPGGA 7 then g\<lparr>new_numsats := ucast (of_int (atoi trm) :: u8)\<rparr>
      else if k = COMBINE GPS_SENTENCE_GPGGA 8 then g\<lparr>new_hdop := gps_parse_decimal trm\<rparr>
      else if k = COMBINE GPS_SENTENCE_GPGGA 9 then g\<lparr>new_altitude := gps_parse_decimal trm\<rparr>
      else g)"

definition gps_term_complete :: "libm \<Rightarrow> tinygps \<Rightarrow> bool \<times> tinygps" where
  "gps_term_complete L g =
     (if is_checksum_term g then
        (if term_checksum g = parity g then (if is_gps_data_good g then (True, commit g) else (False, g))
         else (False, g\<lparr>failed_checksum := failed_checksum g + 1\<rparr>))
      else let trm = cstr (gterm g) in
      if term_number g = 0 then (False, g\<lparr>sentence_type := set_type trm\<rparr>)
      else if sentence_type g \<noteq> GPS_SENTENCE_OTHER \<and> trm \<noteq> [] then
        (False, decode_term L (COMBINE (sentence_type g) (unat (term_number g))) trm g)
      else (False, g))"

section \<open>One character\<close>

definition end_of_term :: "libm \<Rightarrow> char \<Rightarrow> tinygps \<Rightarrow> bool \<times> tinygps" where
  "end_of_term L c g =
     (let (v, g1) = (if unat (term_offset g) < 15
                     then gps_term_complete L (g\<lparr>gterm := (gterm g)[unat (term_offset g) := NUL]\<rparr>) else (False, g))
      in (v, g1\<lparr>term_number := term_number g1 + 1, term_offset := 0, is_checksum_term := (c = CHR ''*'')\<rparr>))"

definition ordinary :: "char \<Rightarrow> tinygps \<Rightarrow> tinygps" where
  "ordinary c g =
     (let g1 = (if unat (term_offset g) < 15 - 1
                then g\<lparr>gterm := (gterm g)[unat (term_offset g) := c], term_offset := term_offset g + 1\<rparr> else g)
      in if \<not> is_checksum_term g1 then g1\<lparr>parity := parity g1 XOR chr8 c\<rparr> else g1)"

definition gps_encode :: "libm \<Rightarrow> char \<Rightarrow> tinygps \<Rightarrow> bool \<times> tinygps" where
  "gps_encode L c g0 =
     (let g = g0\<lparr>encoded_characters := encoded_characters g0 + 1\<rparr> in
      if c = CHR '','' then end_of_term L c (g\<lparr>parity := parity g XOR chr8 c\<rparr>)
      else if c = CHR 0x0D \<or> c = CHR 0x0A \<or> c = CHR ''*'' then end_of_term L c g
      else if c = CHR ''$'' then
        (False, g\<lparr>term_number := 0, term_offset := 0, parity := 0, sentence_type := GPS_SENTENCE_OTHER, is_checksum_term := False,
                  is_gps_data_good := False\<rparr>)
      else (False, ordinary c g))"

text \<open>A buffer of characters, as \<^verbatim>\<open>rp_gps.c\<close> feeds it: was there a valid sentence?\<close>

fun encode_all :: "libm \<Rightarrow> string \<Rightarrow> tinygps \<Rightarrow> bool \<times> tinygps" where
  "encode_all L [] g = (False, g)"
| "encode_all L (c # s) g =
     (let (v, g1) = gps_encode L c g; (w, g2) = encode_all L s g1 in (v \<or> w, g2))"

section \<open>Reading the fix\<close>

definition gps_stats :: "tinygps \<Rightarrow> u32 \<times> u16 \<times> u16" where
  "gps_stats g = (encoded_characters g, good_sentences g, failed_checksum g)"

definition fix_age :: "libm \<Rightarrow> u32 \<Rightarrow> tinygps \<Rightarrow> u32 \<times> tinygps" where
  "fix_age L t g = (if t = GPS_INVALID_FIX_TIME then (GPS_INVALID_AGE, g) else let (u, g1) = uptime L g in (u - t, g1))"

definition gps_get_position :: "libm \<Rightarrow> tinygps \<Rightarrow> (i32 \<times> i32 \<times> u32) \<times> tinygps" where
  "gps_get_position L g = (let (a, g1) = fix_age L (last_position_fix g) g in ((g_latitude g, g_longitude g, a), g1))"

definition gps_get_datetime :: "libm \<Rightarrow> tinygps \<Rightarrow> (u32 \<times> u32 \<times> u32) \<times> tinygps" where
  "gps_get_datetime L g = (let (a, g1) = fix_age L (last_time_fix g) g in ((g_date g, g_time g, a), g1))"

definition hundred_thousandths :: "i32 \<Rightarrow> flt" where
  "hundred_thousandths x = fdiv double_prec (f_of_int double_prec (sint x)) (f_of_int double_prec 100000)"

definition gps_f_get_position :: "libm \<Rightarrow> tinygps \<Rightarrow> (flt \<times> flt \<times> u32) \<times> tinygps" where
  "gps_f_get_position L g =
     (let ((lat, lon, a), g1) = gps_get_position L g
      in ((fconv single_prec (if lat = GPS_INVALID_ANGLE then GPS_INVALID_F_ANGLE else hundred_thousandths lat),
           fconv single_prec (if lat = GPS_INVALID_ANGLE then GPS_INVALID_F_ANGLE else hundred_thousandths lon), a), g1))"

record cracked =
  c_year :: int
  c_month :: u8
  c_day :: u8
  c_hour :: u8
  c_minute :: u8
  c_second :: u8
  c_hundredths :: u8

definition crack :: "u32 \<Rightarrow> u32 \<Rightarrow> cracked" where
  "crack d t =
     (let y = uint (d mod 100)
      in \<lparr>c_year = y + (if 80 < y then 1900 else 2000), c_month = ucast ((d div 100) mod 100), c_day = ucast (d div 10000),
          c_hour = ucast (t div 1000000), c_minute = ucast ((t div 10000) mod 100), c_second = ucast ((t div 100) mod 100),
          c_hundredths = ucast (t mod 100)\<rparr>)"

definition gps_crack_datetime :: "libm \<Rightarrow> tinygps \<Rightarrow> (cracked \<times> u32) \<times> tinygps" where
  "gps_crack_datetime L g = (let ((d, t, a), g1) = gps_get_datetime L g in ((crack d t, a), g1))"

definition hundredths :: "int \<Rightarrow> flt" where
  "hundredths x = fdiv double_prec (f_of_int double_prec x) (f_of_int double_prec 100)"

definition gps_f_altitude :: "tinygps \<Rightarrow> flt" where
  "gps_f_altitude g = fconv single_prec
     (if g_altitude g = GPS_INVALID_ALTITUDE then GPS_INVALID_F_ALTITUDE else hundredths (sint (g_altitude g)))"

definition gps_f_course :: "tinygps \<Rightarrow> flt" where
  "gps_f_course g = fconv single_prec
     (if g_course g = GPS_INVALID_ANGLE then GPS_INVALID_F_ANGLE else hundredths (uint (g_course g)))"

definition gps_f_speed_knots :: "tinygps \<Rightarrow> flt" where
  "gps_f_speed_knots g = fconv single_prec
     (if g_speed g = GPS_INVALID_SPEED then GPS_INVALID_F_SPEED else hundredths (uint (g_speed g)))"

definition speed_in :: "flt \<Rightarrow> tinygps \<Rightarrow> flt" where
  "speed_in k g =
     (let sk = gps_f_speed_knots g
      in fconv single_prec (if f_eq sk GPS_INVALID_F_SPEED then GPS_INVALID_F_SPEED else fmul double_prec k sk))"

definition gps_f_speed_mph :: "tinygps \<Rightarrow> flt" where "gps_f_speed_mph = speed_in (dlit 115077945 (10 ^ 8))"
definition gps_f_speed_mps :: "tinygps \<Rightarrow> flt" where "gps_f_speed_mps = speed_in (dlit 51444444 (10 ^ 8))"
definition gps_f_speed_kmph :: "tinygps \<Rightarrow> flt" where "gps_f_speed_kmph = speed_in (dlit 1852 1000)"

section \<open>Geometry\<close>

definition PI_lit :: flt where "PI_lit = dlit 314159265 (10 ^ 8)"

definition radians :: "flt \<Rightarrow> flt" where
  "radians deg = fconv single_prec (fmul double_prec deg (fdiv double_prec PI_lit (f_of_int double_prec 180)))"

definition degrees :: "flt \<Rightarrow> flt" where
  "degrees rad = fconv single_prec (fmul double_prec rad (fdiv double_prec (f_of_int double_prec 180) PI_lit))"

abbreviation fm :: "flt \<Rightarrow> flt \<Rightarrow> flt" where "fm \<equiv> fmul single_prec"
abbreviation fp :: "flt \<Rightarrow> flt \<Rightarrow> flt" where "fp \<equiv> fadd single_prec"
abbreviation fs :: "flt \<Rightarrow> flt \<Rightarrow> flt" where "fs \<equiv> fsub single_prec"
abbreviation toF :: "flt \<Rightarrow> flt" where "toF \<equiv> fconv single_prec"

definition gps_distance_between :: "libm \<Rightarrow> flt \<Rightarrow> flt \<Rightarrow> flt \<Rightarrow> flt \<Rightarrow> flt" where
  "gps_distance_between L lat1 long1 lat2 long2 =
     (let delta = radians (fs long1 long2);
          sdlong = toF (m_sin L delta);
          cdlong = toF (m_cos L delta);
          la1 = radians lat1;
          la2 = radians lat2;
          slat1 = toF (m_sin L la1);
          clat1 = toF (m_cos L la1);
          slat2 = toF (m_sin L la2);
          clat2 = toF (m_cos L la2);
          d1 = fs (fm clat1 slat2) (fm (fm slat1 clat2) cdlong);
          d2 = fm d1 d1;
          d3 = fp d2 (fm (fm clat2 sdlong) (fm clat2 sdlong));
          d4 = toF (m_sqrt L d3);
          denom = fp (fm slat1 slat2) (fm (fm clat1 clat2) cdlong);
          d5 = toF (m_atan2 L d4 denom)
      in fm d5 (f_of_int single_prec 6372795))"

definition gps_course_to :: "libm \<Rightarrow> flt \<Rightarrow> flt \<Rightarrow> flt \<Rightarrow> flt \<Rightarrow> flt" where
  "gps_course_to L lat1 long1 lat2 long2 =
     (let dlon = radians (fs long2 long1);
          la1 = radians lat1;
          la2 = radians lat2;
          a1 = toF (fmul double_prec (m_sin L dlon) (m_cos L la2));
          a2 = toF (fmul double_prec (fmul double_prec (m_sin L la1) (m_cos L la2)) (m_cos L dlon));
          a3 = toF (fsub double_prec (fmul double_prec (m_cos L la1) (m_sin L la2)) a2);
          a4 = toF (m_atan2 L a1 a3);
          a5 = (if f_less a4 (f_of_int double_prec 0) then toF (fadd double_prec a4 (fmul double_prec (f_of_int double_prec 2) PI_lit)) else a4)
      in degrees a5)"

definition directions :: "string list" where
  "directions = [''N'', ''NNE'', ''NE'', ''ENE'', ''E'', ''ESE'', ''SE'', ''SSE'', ''S'', ''SSW'', ''SW'', ''WSW'', ''W'', ''WNW'', ''NW'', ''NNW'']"

definition gps_cardinal :: "flt \<Rightarrow> stop + string" where
  "gps_cardinal course =
     (let d = f_to_i32 (fdiv single_prec (fp course (flit 1125 100)) (flit 225 10)) smod 16
      in if d < 0 then Inl Fault else Inr (directions ! nat d))"

section \<open>The program\<close>

text \<open>
  \<^verbatim>\<open>rp_gps.c\<close>: at most ten reads of the serial line, at most two fixes.  What one \<^verbatim>\<open>read\<close> of up to 255 bytes delivers is the next
  element of \<open>chunks\<close>, empty for an error or no data; when the list is exhausted the program waits for ever.  The serial line
  settings have no effect on the state.
\<close>

record rp_gps = os +
  chunks :: "string list"
  tiny :: tinygps
  p_alt :: i32
  p_satellites :: i32
  flat :: flt
  flon :: flt
  p_age :: u32
  fage :: u32
  fdate :: cracked
  newdata :: bool
  p_count :: int
  p_aux :: int

definition sys_read :: "(('a rp_gps_scheme), string) io" where
  "sys_read = (\<lambda>s. case chunks s of [] \<Rightarrow> Stopped Blocked s | c # cs \<Rightarrow> Done (take 255 c) (s\<lparr>chunks := cs\<rparr>))"

definition local_hour :: "cracked \<Rightarrow> cracked" where
  "local_hour d = (if c_hour d < 5 then d\<lparr>c_hour := 24 + c_hour d, c_day := c_day d - 1\<rparr> else d)"

definition take_fix :: "libm \<Rightarrow> 'a rp_gps_scheme \<Rightarrow> 'a rp_gps_scheme" where
  "take_fix L s =
     (let g = tiny s;
          ((d, fa), g1) = gps_crack_datetime L g;
          ((la, lo, a), g2) = gps_f_get_position L g1
      in s\<lparr>p_alt := of_int (f_to_i32 (gps_f_altitude g)), p_satellites := ucast (g_numsats g), fdate := local_hour d, fage := fa,
           flat := la, flon := lo, p_age := a, newdata := False, p_count := p_count s + 1, tiny := g2\<rparr>)"

definition e_acute :: string where
  "e_acute = [CHR 0xC3, CHR 0xA9]"

definition report :: "'a rp_gps_scheme \<Rightarrow> string" where
  "report s =
     (let d = fdate s in
      ''# ------------------------------'' @ nl @
      ''# Fecha:'' @ fmt_d (c_year d) @ ''/'' @ fmt_d (uint (c_month d)) @ ''/'' @ fmt_d (uint (c_day d)) @ '' '' @ nl @
      ''# Hora:'' @ fmt_d (uint (c_hour d) - 5) @ '':'' @ fmt_d (uint (c_minute d)) @ '':'' @ fmt_d (uint (c_second d)) @ '':'' @
        fmt_d (uint (c_hundredths d)) @ '' '' @ nl @
      ''# Latitud= '' @ fmt_f 6 (flat s) @ '' '' @ nl @
      ''# Longitud= '' @ fmt_f 6 (flon s) @ '' '' @ nl @
      ''# Altitud: '' @ fmt_u (uint (p_alt s)) @ ''m'' @ nl @
      ''# Sat'' @ e_acute @ ''lites: '' @ fmt_u (uint (p_satellites s)) @ nl @
      ''# -------------------------------'' @ nl)"

definition gps_turn :: "libm \<Rightarrow> ('a rp_gps_scheme, unit) io" where
  "gps_turn L =
     thn (modify (\<lambda>s. s\<lparr>p_aux := p_aux s + 1\<rparr>))
    (bnd sys_read (\<lambda>buf.
     thn (whn (buf \<noteq> [])
           (thn (modify (\<lambda>s. let (v, g) = encode_all L buf (tiny s) in s\<lparr>tiny := g, newdata := (newdata s \<or> v)\<rparr>))
                (bnd (gets newdata) (\<lambda>n. whn n (modify (take_fix L))))))
         (bnd (gets report) puts_out)))"

fun gps_loop :: "libm \<Rightarrow> nat \<Rightarrow> ('a rp_gps_scheme, unit) io" where
  "gps_loop L 0 = halt Blocked"
| "gps_loop L (Suc n) =
     bnd (gets (\<lambda>s. p_count s \<noteq> 2 \<and> p_aux s < 10)) (\<lambda>go. if go then thn (gps_turn L) (gps_loop L n) else ret ())"

definition gps_main :: "env \<Rightarrow> libm \<Rightarrow> ('a rp_gps_scheme, unit) io" where
  "gps_main E L =
     bnd (sys_open E ''/dev/ttyPS1'') (\<lambda>fd.
     if fd < 0 then thn (puts_err ''/dev/ttyPS1'') (halt (Exit 1))
     else thn (modify (\<lambda>s. s\<lparr>p_count := 0, p_aux := 0\<rparr>))
         (thn (gps_loop L 11)
              (sys_close fd)))"

section \<open>Array bounds\<close>

text \<open>The state of the parser proper; decoding and committing leave it alone.\<close>

definition parser_of :: "tinygps \<Rightarrow> u8 \<times> bool \<times> string \<times> u8 \<times> u8 \<times> u32" where
  "parser_of g = (parity g, is_checksum_term g, gterm g, term_number g, term_offset g, encoded_characters g)"

lemma parser_of_commit: "parser_of (commit g) = parser_of g"
  by (simp add: commit_def Let_def parser_of_def split: sentence.split)

lemma parser_of_decode: "parser_of (decode_term L k trm g) = parser_of g"
  by (simp add: decode_term_def uptime_def parser_of_def)

lemma parser_of_term_complete: "parser_of (snd (gps_term_complete L g)) = parser_of g"
  by (simp add: gps_term_complete_def Let_def parser_of_commit parser_of_decode) (simp add: parser_of_def)

text \<open>A complete sentence changes the fix; nothing else does.\<close>

lemma fix_of_decode: "fix_data.truncate (decode_term L k trm g) = fix_data.truncate g"
  by (simp add: decode_term_def uptime_def fix_data.truncate_def)

lemma fix_of_term_complete:
  "\<not> fst (gps_term_complete L g) \<Longrightarrow> fix_data.truncate (snd (gps_term_complete L g)) = fix_data.truncate g"
  by (simp add: gps_term_complete_def Let_def fix_of_decode split: if_splits) (simp_all add: fix_data.truncate_def)

lemma fix_of_end_of_term:
  "\<not> fst (end_of_term L c g) \<Longrightarrow> fix_data.truncate (snd (end_of_term L c g)) = fix_data.truncate g"
  using fix_of_term_complete [of L "g\<lparr>gterm := (gterm g)[unat (term_offset g) := NUL]\<rparr>"]
  by (simp add: end_of_term_def split_beta fix_data.truncate_def split: if_splits)

lemma fix_of_encode:
  "\<not> fst (gps_encode L c g) \<Longrightarrow> fix_data.truncate (snd (gps_encode L c g)) = fix_data.truncate g"
  by (auto simp: gps_encode_def Let_def ordinary_def fix_of_end_of_term split: if_splits)
    (simp_all add: fix_data.truncate_def)

definition tiny_inv :: "tinygps \<Rightarrow> bool" where
  "tiny_inv g \<longleftrightarrow> length (gterm g) = 15 \<and> unat (term_offset g) \<le> 14"

lemma gterm_term_complete [simp]:
  "gterm (snd (gps_term_complete L g)) = gterm g" "parity (snd (gps_term_complete L g)) = parity g"
  "encoded_characters (snd (gps_term_complete L g)) = encoded_characters g"
  using parser_of_term_complete [of L g] by (simp_all add: parser_of_def)

lemma end_of_term_parser:
  "tiny_inv (snd (end_of_term L c g)) = (length (gterm g) = 15)"
  "parity (snd (end_of_term L c g)) = parity g"
  "encoded_characters (snd (end_of_term L c g)) = encoded_characters g"
  "is_checksum_term (snd (end_of_term L c g)) = (c = CHR ''*'')"
  "term_offset (snd (end_of_term L c g)) = 0"
  by (simp_all add: end_of_term_def split_beta tiny_inv_def)

lemma tiny_inv_cong: "gterm g = gterm h \<Longrightarrow> term_offset g = term_offset h \<Longrightarrow> tiny_inv g = tiny_inv h"
  by (simp add: tiny_inv_def)

lemma ordinary_inv: "tiny_inv g \<Longrightarrow> tiny_inv (ordinary c g)"
proof -
  assume "tiny_inv g"
  moreover have "unat (term_offset g) < 14 \<Longrightarrow> unat (term_offset g + 1) = unat (term_offset g) + 1"
    by (simp add: unat_word_ariths)
  ultimately show ?thesis by (simp add: ordinary_def Let_def tiny_inv_def)
qed

lemma encode_inv:
  assumes "tiny_inv g" shows "tiny_inv (snd (gps_encode L c g))"
proof -
  have "length (gterm g) = 15" and "tiny_inv (g\<lparr>encoded_characters := e\<rparr>)" for e
    using assms by (simp_all add: tiny_inv_def)
  then show ?thesis
    by (simp add: gps_encode_def Let_def end_of_term_parser(1) ordinary_inv) (simp add: tiny_inv_def)
qed

lemma encode_counts: "encoded_characters (snd (gps_encode L c g)) = encoded_characters g + 1"
  by (simp add: gps_encode_def Let_def end_of_term_parser ordinary_def)

lemma encode_all_inv:
  "tiny_inv g \<Longrightarrow> tiny_inv (snd (encode_all L s g)) \<and>
     encoded_characters (snd (encode_all L s g)) = encoded_characters g + of_nat (length s)"
  by (induction s arbitrary: g) (simp_all add: split_beta encode_inv encode_counts)

lemma encode_all_fix:
  "\<not> fst (encode_all L s g) \<Longrightarrow> fix_data.truncate (snd (encode_all L s g)) = fix_data.truncate g"
  by (induction s arbitrary: g) (simp_all add: split_beta fix_of_encode)

section \<open>The checksum of a sentence\<close>

lemma term_complete_no: "\<not> is_checksum_term g \<Longrightarrow> \<not> fst (gps_term_complete L g)"
  by (simp add: gps_term_complete_def Let_def)

definition plain :: "char \<Rightarrow> bool" where
  "plain c \<longleftrightarrow> c \<notin> {CHR ''$'', CHR ''*'', CHR 0x0D, CHR 0x0A}"

lemma encode_plain:
  assumes "plain c" "\<not> is_checksum_term g"
  shows "\<not> fst (gps_encode L c g)" "parity (snd (gps_encode L c g)) = parity g XOR chr8 c"
    "\<not> is_checksum_term (snd (gps_encode L c g))"
  using assms by (simp_all add: gps_encode_def Let_def plain_def end_of_term_parser ordinary_def)
    (simp add: end_of_term_def split_beta term_complete_no)

lemma encode_body:
  "list_all plain body \<Longrightarrow> \<not> is_checksum_term g \<Longrightarrow>
     \<not> fst (encode_all L body g) \<and> parity (snd (encode_all L body g)) = foldl (XOR) (parity g) (map chr8 body) \<and>
     \<not> is_checksum_term (snd (encode_all L body g))"
  by (induction body arbitrary: g) (simp_all add: split_beta encode_plain)

lemma encode_all_append:
  "encode_all L (s @ t) g =
     (fst (encode_all L s g) \<or> fst (encode_all L t (snd (encode_all L s g))), snd (encode_all L t (snd (encode_all L s g))))"
  by (induction s arbitrary: g) (simp_all add: split_beta)

lemma encode_all_Cons:
  "encode_all L (c # s) g =
     (fst (gps_encode L c g) \<or> fst (encode_all L s (snd (gps_encode L c g))), snd (encode_all L s (snd (gps_encode L c g))))"
  by (simp add: split_beta)

lemma encode_dollar:
  "\<not> fst (gps_encode L (CHR ''$'') g)" "parity (snd (gps_encode L (CHR ''$'') g)) = 0"
  "\<not> is_checksum_term (snd (gps_encode L (CHR ''$'') g))"
  by (simp_all add: gps_encode_def Let_def)

lemma encode_star:
  assumes "\<not> is_checksum_term g"
  shows "\<not> fst (gps_encode L (CHR ''*'') g)" "parity (snd (gps_encode L (CHR ''*'') g)) = parity g"
    "is_checksum_term (snd (gps_encode L (CHR ''*'') g))" "term_offset (snd (gps_encode L (CHR ''*'') g)) = 0"
  using assms by (simp_all add: gps_encode_def Let_def end_of_term_parser)
    (simp add: end_of_term_def split_beta term_complete_no)

lemma encode_hex2:
  assumes "tiny_inv g" "is_checksum_term g" "term_offset g = 0" "is_digit 16 h1" "is_digit 16 h2"
  shows "fst (encode_all L [h1, h2, CHR 0x0D] g) \<longleftrightarrow>
    is_gps_data_good g \<and> parity g = of_int (16 * from_hex h1 + from_hex h2)"
proof -
  have n: "h \<notin> {CHR '','', CHR ''$'', CHR ''*'', CHR 0x0D, CHR 0x0A}" if "is_digit 16 h" for h
    using that by (auto simp: is_digit_def digit_val_def)
  have o: "fst (gps_encode L h k) = False" "snd (gps_encode L h k) = ordinary h (k\<lparr>encoded_characters := encoded_characters k + 1\<rparr>)"
    if "is_digit 16 h" for h k
    using n [OF that] by (simp_all add: gps_encode_def Let_def)
  have l: "length (gterm g) = 15" using assms(1) by (simp add: tiny_inv_def)
  show ?thesis
    using assms l o [OF assms(4)] o [OF assms(5)]
    by (simp add: split_beta ordinary_def) 
      (auto simp: gps_encode_def Let_def end_of_term_def split_beta gps_term_complete_def term_checksum_def)
qed

lemma from_hex_digit: "is_digit 16 h \<Longrightarrow> the (digit_val 16 h) = from_hex h \<and> 0 \<le> from_hex h \<and> from_hex h < 16"
  by (auto simp: is_digit_def digit_val_def from_hex_def Let_def split: if_splits)

lemma strtol_two_digits:
  assumes "is_digit 16 h1" "is_digit 16 h2"
  shows "strtol 16 (h1 # h2 # cr) = 16 * from_hex h1 + from_hex h2"
proof -
  note d = from_hex_digit [OF assms(1)] from_hex_digit [OF assms(2)]
  have "\<not> is_digit 16 (CHR 0x0D)" by (simp add: is_digit_def digit_val_def)
  then have "takeWhile (is_digit 16) (h1 # h2 # cr) = [h1, h2]" using assms by simp
  moreover have "skip_0x 16 (h1 # h2 # cr) = h1 # h2 # cr"
    using is_digit_not_x [OF assms(2)] by (simp add: skip_0x_def)
  moreover have "skip_sign (dropWhile isspace (h1 # h2 # cr)) = (False, h1 # h2 # cr)"
    using isspace_not_digit [OF assms(1)] skip_sign_digit [OF assms(1)] by simp
  moreover have "horner 16 [h1, h2] = 16 * from_hex h1 + from_hex h2"
    using d by (simp add: horner_def)
  ultimately have "strto_parts 16 (h1 # h2 # cr) = (False, 16 * from_hex h1 + from_hex h2)"
    by (simp only: strto_parts_def Let_def split)
  moreover have "max (- 2147483648) (min 2147483647 n) = n" if "0 \<le> n" "n < 256" for n :: int
    using that by linarith
  moreover have "0 \<le> 16 * from_hex h1 + from_hex h2" "16 * from_hex h1 + from_hex h2 < 256"
    using d by linarith+
  ultimately show ?thesis by (simp add: strtol_def)
qed

lemma checksums_agree:
  assumes "tiny_inv g" "list_all plain body" "is_digit 16 h1" "is_digit 16 h2"
  shows "fst (encode_all L (CHR ''$'' # body @ CHR ''*'' # h1 # h2 # cr) g) \<longleftrightarrow>
    is_gps_data_good (snd (encode_all L (CHR ''$'' # body @ ''*'') g)) \<and>
    rp_NmeaValidChecksum (CHR ''$'' # body @ CHR ''*'' # h1 # h2 # cr) = Inr NMEA_EMPTY"
proof -
  define g1 where "g1 = snd (gps_encode L (CHR ''$'') g)"
  define g2 where "g2 = snd (encode_all L body g1)"
  define g3 where "g3 = snd (gps_encode L (CHR ''*'') g2)"
  have b: "\<not> fst (encode_all L body g1)" "parity g2 = nmea_xor body" "\<not> is_checksum_term g2"
    using encode_body [OF assms(2), of g1 L] encode_dollar [of L g] by (simp_all add: g1_def g2_def nmea_xor_def)
  have star: "CHR ''*'' \<notin> set (CHR ''$'' # body)"
    using assms(2) by (auto simp: plain_def list_all_iff)
  have i: "tiny_inv g3"
    using assms(1) encode_inv encode_all_inv by (simp add: g1_def g2_def g3_def)
  have "fst (encode_all L (CHR ''$'' # body @ CHR ''*'' # h1 # h2 # cr) g) \<longleftrightarrow>
      fst (gps_encode L (CHR ''$'') g) \<or> fst (encode_all L body g1) \<or> fst (gps_encode L (CHR ''*'') g2) \<or>
      fst (encode_all L [h1, h2, CHR 0x0D] g3)"
    by (simp only: encode_all_Cons encode_all_append fst_conv snd_conv flip: g1_def g2_def g3_def)
  then have "fst (encode_all L (CHR ''$'' # body @ CHR ''*'' # h1 # h2 # cr) g) \<longleftrightarrow> fst (encode_all L [h1, h2, CHR 0x0D] g3)"
    using b(1) encode_dollar(1) encode_star(1) [OF b(3)] by blast
  also have "\<dots> \<longleftrightarrow> is_gps_data_good g3 \<and> nmea_xor body = of_int (16 * from_hex h1 + from_hex h2)"
    using encode_hex2 [OF i _ _ assms(3,4)] encode_star(2-4) [OF b(3), of L] b(2) unfolding g3_def [symmetric] by metis
  also have "g3 = snd (encode_all L (CHR ''$'' # body @ ''*'') g)"
    by (simp only: encode_all_Cons encode_all_append encode_all.simps(1) snd_conv g1_def g2_def g3_def)
  also have "nmea_xor body = of_int (16 * from_hex h1 + from_hex h2) \<longleftrightarrow>
      rp_NmeaValidChecksum (CHR ''$'' # body @ CHR ''*'' # h1 # h2 # cr) = Inr NMEA_EMPTY"
    using valid_checksum_iff [OF star, of "h1 # h2 # cr"] strtol_two_digits [OF assms(3,4)]
    by (simp add: NMEA_EMPTY_def NMEA_CHECKSUM_ERR_def)
  finally show ?thesis .
qed

section \<open>Degrees\<close>

text \<open>The value of the digits after a decimal point, and the angle of a field \<open>dddmm.mmmm\<close> in degrees.\<close>

primrec fraction :: "string \<Rightarrow> real" where
  "fraction [] = 0"
| "fraction (c # f) = (of_int (the (digit_val 10 c)) + fraction f) / 10"

definition angle :: "string \<Rightarrow> string \<Rightarrow> real" where
  "angle l f = of_int (horner 10 l div 100) + (of_int (horner 10 l mod 100) + fraction f) / 60"

lemma gpsisdigit_iff: "gpsisdigit c \<longleftrightarrow> is_digit 10 c"
  by (simp add: gpsisdigit_def is_digit_def digit_val_def Let_def)

lemma digit_val_10:
  "is_digit 10 c \<Longrightarrow> code c - 48 = the (digit_val 10 c) \<and> 0 \<le> the (digit_val 10 c) \<and> the (digit_val 10 c) < 10"
  by (auto simp: is_digit_def digit_val_def Let_def split: if_splits)

lemma digit_word:
  "is_digit 10 c \<Longrightarrow> (of_int (code c) - of_int (code (CHR ''0'')) :: u32) = of_int (the (digit_val 10 c))"
proof -
  assume "is_digit 10 c"
  then have "code c = the (digit_val 10 c) + 48" using digit_val_10 [of c] by simp
  then show ?thesis by simp
qed

lemma fraction_bounds: "list_all (is_digit 10) f \<Longrightarrow> 0 \<le> fraction f \<and> fraction f < 1"
proof (induction f)
  case (Cons c f)
  then have "0 \<le> the (digit_val 10 c)" "the (digit_val 10 c) \<le> 9"
    using digit_val_10 [of c] by simp_all
  then have "0 \<le> (of_int (the (digit_val 10 c)) :: real)" "(of_int (the (digit_val 10 c)) :: real) \<le> 9"
    by linarith+
  with Cons show ?case by simp
qed simp

lemma add_minutes_0: "list_all (is_digit 10) f \<Longrightarrow> add_minutes m 0 f = m"
  by (induction f) (simp_all add: gpsisdigit_iff)

lemma add_minutes_fraction:
  assumes "list_all (is_digit 10) f" "k \<le> 3"
  shows "add_minutes m (10 ^ k) f = m + of_int \<lfloor>10 ^ Suc k * fraction f\<rfloor>"
  using assms
proof (induction f arbitrary: m k)
  case (Cons c f)
  let ?d = "the (digit_val 10 c)"
  have s: "add_minutes m (10 ^ k) (c # f) = add_minutes (m + of_int (10 ^ k * ?d)) (10 ^ k div 10) f"
    using Cons.prems digit_word [of c] by (simp add: gpsisdigit_iff)
  have "10 ^ Suc k * fraction (c # f) = of_int (10 ^ k * ?d) + 10 ^ k * fraction f" by (simp add: field_simps)
  then have fl: "\<lfloor>10 ^ Suc k * fraction (c # f)\<rfloor> = 10 ^ k * ?d + \<lfloor>10 ^ k * fraction f\<rfloor>"
    by (simp only: floor_add_int [symmetric] add.commute)
  show ?case
  proof (cases k)
    case 0
    then have "\<lfloor>10 ^ k * fraction f\<rfloor> = 0" using fraction_bounds [of f] Cons.prems by (simp add: floor_eq_iff)
    then show ?thesis using 0 Cons.prems s fl by (simp add: add_minutes_0)
  next
    case (Suc j)
    then have "j = 0 \<or> j = 1 \<or> j = 2" using Cons.prems(2) by linarith
    then have "(10 ^ k div 10 :: u32) = 10 ^ j" using Suc by auto
    then show ?thesis using Cons.IH [of j] Cons.prems Suc s fl by (simp add: algebra_simps)
  qed
qed simp

lemma gpsatol_horner:
  assumes "list_all (is_digit 10) l" "r = [] \<or> \<not> is_digit 10 (hd r)"
  shows "gpsatol (l @ r) = of_int (horner 10 l)"
proof -
  have "takeWhile gpsisdigit (l @ r) = l"
    using assms by (cases r) (auto simp: gpsisdigit_iff list_all_iff takeWhile_append2 takeWhile_tail)
  moreover have "foldl (\<lambda>r c. 10 * r + of_int (code c) - of_int (code (CHR ''0''))) (of_int a :: u32) l =
      of_int (foldl (\<lambda>a c. a * 10 + the (digit_val 10 c)) a l)" for a
    using assms(1)
  proof (induction l arbitrary: a)
    case (Cons c l)
    then have "(10 * of_int a + of_int (code c) - of_int (code (CHR ''0'')) :: u32) = of_int (a * 10 + the (digit_val 10 c))"
      using digit_word [of c] by (simp add: algebra_simps)
    with Cons show ?case by (simp only: foldl_Cons list.pred_inject)
  qed simp
  from this [of 0] have "foldl (\<lambda>r c. 10 * r + of_int (code c) - of_int (code (CHR ''0''))) (0 :: u32) l = of_int (horner 10 l)"
    by (simp add: horner_def)
  ultimately show ?thesis by (simp add: gpsatol_def)
qed

lemma horner_bounds: "list_all (is_digit 10) l \<Longrightarrow> 0 \<le> horner 10 l \<and> horner 10 l < 10 ^ length l"
proof (induction l rule: rev_induct)
  case (snoc c l)
  then show ?case using digit_val_10 [of c] by (simp add: horner_snoc)
qed (simp add: horner_def)

lemma uint_of_int_u32: "0 \<le> n \<Longrightarrow> n < 2 ^ 32 \<Longrightarrow> uint (of_int n :: u32) = n"
  by (simp add: uint_word_of_int)

lemma div_le_self: "0 \<le> m \<Longrightarrow> 0 < k \<Longrightarrow> m div k \<le> m" for m k :: int
  by (metis div_by_1 zdiv_mono2 zero_less_one zless_imp_add1_zle add_0)

lemma floor_div_6: "\<lfloor>x / 6\<rfloor> = \<lfloor>x\<rfloor> div 6" for x :: real
  using floor_divide_real_eq_div [of 6 x] by simp

lemma parse_degrees_floor:
  assumes "list_all (is_digit 10) l" "length l \<le> 5" "list_all (is_digit 10) f"
  shows "uint (gps_parse_degrees (l @ CHR ''.'' # f)) = \<lfloor>100000 * angle l f\<rfloor>"
proof -
  let ?n = "horner 10 l"
  have n: "0 \<le> ?n" "?n < 100000"
    using horner_bounds [OF assms(1)] power_increasing [OF assms(2), of "10::int"] by auto
  have F: "0 \<le> \<lfloor>10000 * fraction f\<rfloor>" "\<lfloor>10000 * fraction f\<rfloor> < 10000"
    using fraction_bounds [OF assms(3)] by (auto simp: floor_less_iff)
  have dot: "\<not> is_digit 10 (CHR ''.'')" by (simp add: is_digit_def digit_val_def)
  have left: "gpsatol (l @ CHR ''.'' # f) = of_int ?n" using gpsatol_horner [OF assms(1), of "CHR ''.'' # f"] dot by simp
  have q: "dropWhile gpsisdigit (l @ CHR ''.'' # f) = CHR ''.'' # f"
    using assms(1) dot by (simp add: gpsisdigit_iff list_all_iff dropWhile_append2)
  have m: "add_minutes a 1000 f = a + of_int \<lfloor>10000 * fraction f\<rfloor>" for a
    using add_minutes_fraction [OF assms(3), of 3 a] by simp
  have un: "uint (of_int ?n :: u32) = ?n" using n by (simp add: uint_word_of_int)
  let ?m = "?n mod 100 * 10000 + \<lfloor>10000 * fraction f\<rfloor>"
  have "?n mod 100 < 100" "0 \<le> ?n mod 100" "?n div 100 < 1000" "0 \<le> ?n div 100" using n by simp_all
  with F have b: "0 \<le> ?m" "?m < 1000000" "?n div 100 * 100000 < 100000000" "0 \<le> ?n div 100 * 100000" by linarith+
  moreover from b have "0 \<le> ?m div 6" "?m div 6 \<le> ?m" by (simp_all add: div_le_self)
  ultimately have r: "0 \<le> ?n div 100 * 100000 + ?m div 6" "?n div 100 * 100000 + ?m div 6 < 200000000" by linarith+
  have mm: "((of_int ?n :: u32) mod 100) * 10000 + of_int \<lfloor>10000 * fraction f\<rfloor> = of_int ?m"
    using un by (simp add: word_mod_def)
  have d: "(of_int ?n :: u32) div 100 = of_int (?n div 100)" "(of_int ?m :: u32) div 6 = of_int (?m div 6)"
    using un uint_of_int_u32 [OF b(1)] b(2) by (simp_all only: word_div_def uint_numeral) simp_all
  have "gps_parse_degrees (l @ CHR ''.'' # f) = of_int ?n div 100 * 100000 + of_int ?m div 6"
    by (simp only: gps_parse_degrees_def left q Let_def list.sel list.distinct not_False_eq_True simp_thms if_True m mm)
  also have "\<dots> = of_int (?n div 100 * 100000 + ?m div 6)" by (simp only: d) simp
  finally have "uint (gps_parse_degrees (l @ CHR ''.'' # f)) = ?n div 100 * 100000 + ?m div 6"
    using uint_of_int_u32 [OF r(1)] r(2) by simp
  moreover have "\<lfloor>100000 * angle l f\<rfloor> = ?n div 100 * 100000 + (?n mod 100 * 10000 + \<lfloor>10000 * fraction f\<rfloor>) div 6"
  proof -
    have "100000 * angle l f = of_int (?n div 100 * 100000) + (of_int (?n mod 100 * 10000) + 10000 * fraction f) / 6"
      by (simp add: angle_def field_simps)
    then show ?thesis by (simp add: floor_div_6 del: of_int_mult)
  qed
  ultimately show ?thesis by simp
qed

section \<open>Termination of the program\<close>

lemma gps_turn_step:
  assumes "chunks s = c # cs"
  shows "\<exists>t. gps_turn L s = Done () t \<and> chunks t = cs \<and> p_aux t = p_aux s + 1"
  using assms
  by (simp add: gps_turn_def io_eval sys_read_def bnd_def thn_def modify_def gets_def whn_def split_beta take_fix_def Let_def ret_def)

lemma gps_loop_ends:
  assumes "p_aux s \<le> 10" "nat (10 - p_aux s) < n" "nat (10 - p_aux s) \<le> length (chunks s)"
  shows "\<exists>t. gps_loop L n s = Done () t \<and> (p_count t = 2 \<or> p_aux t = 10) \<and> p_aux s \<le> p_aux t \<and> p_aux t \<le> 10 \<and>
    int (length (chunks t)) + p_aux t = int (length (chunks s)) + p_aux s"
  using assms
proof (induction n arbitrary: s)
  case (Suc n)
  show ?case
  proof (cases "p_count s \<noteq> 2 \<and> p_aux s < 10")
    case True
    with Suc.prems obtain c cs where c: "chunks s = c # cs" by (cases "chunks s") auto
    from gps_turn_step [OF c] obtain u where u: "gps_turn L s = Done () u" "chunks u = cs" "p_aux u = p_aux s + 1" by blast
    have b: "p_aux u \<le> 10" "nat (10 - p_aux u) < n" "nat (10 - p_aux u) \<le> length (chunks u)"
      using Suc.prems True u c by (simp_all, arith+)
    obtain t where "gps_loop L n u = Done () t \<and> (p_count t = 2 \<or> p_aux t = 10) \<and> p_aux u \<le> p_aux t \<and> p_aux t \<le> 10 \<and>
        int (length (chunks t)) + p_aux t = int (length (chunks u)) + p_aux u"
      using Suc.IH [of u] b by blast
    then show ?thesis using True u c by (simp add: bnd_gets thn_def bnd_def)
  next
    case False
    then show ?thesis using Suc.prems by (auto simp: bnd_gets ret_def)
  qed
qed simp

section \<open>Properties\<close>

text \<open>Instances for the examples: a still clock and a receiver that stays silent.\<close>

definition still :: libm where
  "still = \<lparr>m_clock = (\<lambda>n. 0), m_sin = (\<lambda>x. x), m_cos = (\<lambda>x. x), m_sqrt = (\<lambda>x. x), m_atan2 = (\<lambda>x y. x)\<rparr>"

definition rp_gps0 :: rp_gps where
  "rp_gps0 = os.extend os0
     \<lparr>chunks = replicate 10 [], tiny = tiny0, p_alt = 0, p_satellites = 0, flat = Fl False 0 0, flon = Fl False 0 0, p_age = 0, fage = 0,
      fdate = crack 0 0, newdata = False, p_count = 0, p_aux = 0\<rparr>"

lemma tiny_inv_tiny0 [simp]: "tiny_inv tiny0"
  by (simp add: tiny_inv_def tiny0_def)

text \<open>
  (C35) The parser never leaves its 15-byte term array, whatever the receiver sends and however it is cut into
  sentences: the array keeps its size, the offset stays at most 14 (so the terminating NUL always fits), and the character
  counter is the length of the stream modulo \<open>2 ^ 32\<close>.
\<close>

theorem term_in_bounds:
  "let g = snd (encode_all L s tiny0)
   in length (gterm g) = 15 \<and> unat (term_offset g) \<le> 14 \<and> encoded_characters g = of_nat (length s)"
  using encode_all_inv [of tiny0 L s] by (simp add: tiny_inv_def Let_def) (simp add: tiny0_def)

text \<open>
  (C10) The two GPS parsers of the repository agree on the checksum: a sentence with two hexadecimal checksum digits makes
  the character-driven parser report a valid sentence exactly when its own data flag is set and the message passes
  \<open>rp_NmeaValidChecksum\<close> of the line-driven parser.
\<close>

theorem checksum_parsers_agree:
  assumes "tiny_inv g" "list_all plain body" "is_digit 16 h1" "is_digit 16 h2"
  shows "fst (encode_all L (CHR ''$'' # body @ CHR ''*'' # h1 # h2 # cr) g) \<longleftrightarrow>
    is_gps_data_good (snd (encode_all L (CHR ''$'' # body @ ''*'') g)) \<and>
    rp_NmeaValidChecksum (CHR ''$'' # body @ CHR ''*'' # h1 # h2 # cr) = Inr NMEA_EMPTY"
  by (rule checksums_agree [OF assms])

theorem checksum_parsers_agree_witness:
  "fst (encode_all still (CHR ''$'' # ''GPRMC,1,A'' @ CHR ''*'' # CHR ''3'' # CHR ''B'' # cr) tiny0) \<longleftrightarrow>
    is_gps_data_good (snd (encode_all still (CHR ''$'' # ''GPRMC,1,A'' @ ''*'') tiny0)) \<and>
    rp_NmeaValidChecksum (CHR ''$'' # ''GPRMC,1,A'' @ CHR ''*'' # CHR ''3'' # CHR ''B'' # cr) = Inr NMEA_EMPTY"
  by (rule checksum_parsers_agree) (simp_all add: plain_def is_digit_def digit_val_def)

text \<open>
  (C18) A corrupted sentence does not touch the fix: when the message does not pass the checksum test, position, date, time,
  altitude, speed, course, satellites and the times of the fixes are what they were before it, and no valid sentence is reported.
\<close>

theorem corrupt_sentence_keeps_fix:
  assumes "tiny_inv g" "list_all plain body" "is_digit 16 h1" "is_digit 16 h2"
    and "rp_NmeaValidChecksum (CHR ''$'' # body @ CHR ''*'' # h1 # h2 # cr) \<noteq> Inr NMEA_EMPTY"
  shows "\<not> fst (encode_all L (CHR ''$'' # body @ CHR ''*'' # h1 # h2 # cr) g) \<and>
    fix_data.truncate (snd (encode_all L (CHR ''$'' # body @ CHR ''*'' # h1 # h2 # cr) g)) = fix_data.truncate g"
  using checksums_agree [OF assms(1-4)] assms(5) encode_all_fix by blast

theorem corrupt_sentence_keeps_fix_witness:
  "fix_data.truncate (snd (encode_all still (CHR ''$'' # ''GPRMC,1,A'' @ CHR ''*'' # CHR ''0'' # CHR ''0'' # cr) tiny0)) =
     fix_data.truncate tiny0"
proof -
  have "rp_NmeaValidChecksum (CHR ''$'' # ''GPRMC,1,A'' @ CHR ''*'' # CHR ''0'' # CHR ''0'' # cr) \<noteq> Inr NMEA_EMPTY"
    by code_simp
  from corrupt_sentence_keeps_fix [OF tiny_inv_tiny0 _ _ _ this]
  show ?thesis by (simp add: plain_def is_digit_def digit_val_def)
qed

text \<open>
  A position field \<open>dddmm.mmmm\<close> is converted exactly: for at most five digits before the point and any
  number after it the result is the angle in degrees in units of \<open>10 ^ -5\<close>, rounded down, without overflow.
\<close>

theorem gps_parse_degrees_exact:
  assumes "list_all (is_digit 10) l" "length l \<le> 5" "list_all (is_digit 10) f"
  shows "uint (gps_parse_degrees (l @ CHR ''.'' # f)) = \<lfloor>100000 * angle l f\<rfloor>"
  by (rule parse_degrees_floor [OF assms])

theorem gps_parse_degrees_exact_witness:
  "uint (gps_parse_degrees (''4807'' @ CHR ''.'' # ''038'')) = \<lfloor>100000 * angle ''4807'' ''038''\<rfloor>"
  by (rule gps_parse_degrees_exact) (simp_all add: is_digit_def digit_val_def)

text \<open>
  (C31) The GPS program terminates: once the serial device is open and ten reads are served it returns,
  after at most ten reads, with two fixes or its tenth attempt behind it: the condition of
  its loop is then false, so the fuel of the model is never what ends it.
\<close>

theorem gps_main_terminates:
  assumes "0 \<le> os_open E (opens s) ''/dev/ttyPS1''" "10 \<le> length (chunks s)"
  shows "\<exists>t. gps_main E L s = Done () t \<and> (p_count t = 2 \<or> p_aux t = 10) \<and>
    p_aux t \<le> 10 \<and> int (length (chunks s)) - int (length (chunks t)) = p_aux t"
proof -
  let ?s = "s\<lparr>opens := (''/dev/ttyPS1'', os_open E (opens s) ''/dev/ttyPS1'') # opens s, p_count := 0, p_aux := 0\<rparr>"
  obtain t where "gps_loop L 11 ?s = Done () t" "p_count t = 2 \<or> p_aux t = 10" "p_aux t \<le> 10"
    "int (length (chunks t)) + p_aux t = int (length (chunks s))"
    using gps_loop_ends [of ?s 11 L] assms(2) by auto
  then show ?thesis using assms(1)
    by (simp add: gps_main_def io_eval)
qed

theorem gps_main_terminates_witness:
  "\<exists>t. gps_main bench still rp_gps0 = Done () t \<and> (p_count t = 2 \<or> p_aux t = 10) \<and>
    p_aux t \<le> 10 \<and> int (length (chunks rp_gps0)) - int (length (chunks t)) = p_aux t"
  by (rule gps_main_terminates) (simp_all add: bench_def rp_gps0_def os.extend_def os0_def)

end
