(* ===== verification/Kernel.thy ===== *)
theory Kernel
  imports C_Lib
begin

text \<open>
  What the three kernel drivers of \<^verbatim>\<open>src/patches\<close> use of the Linux kernel.  The kernel is not under \<^verbatim>\<open>src/\<close>: what a call
  returns is a parameter (the record \<open>kern\<close>), a function of the call and of the log of everything done before it.  The state
  records the log and what the driver holds: how often each clock is enabled and prepared, the mutex, the spinlock, and the
  coherent buffers.  Taking a spinlock that is held already is a deadlock, \<open>Stopped Blocked\<close>.  Messages to the kernel log
  are not recorded.  Clock 0 is the reference clock of the configuration port, clock \<open>Suc i\<close> is \<^verbatim>\<open>fclk[i]\<close>.
\<close>

section \<open>Calls\<close>

datatype kev =
    Read_Reg u32
  | Write_Reg u32 u32
  | Slcr_Write u32 u32
  | Clk_Enable nat
  | Clk_Disable nat
  | Clk_Prepare nat
  | Clk_Unprepare nat
  | Clk_Get nat
  | Clk_Get_Rate nat
  | Clk_Round_Rate nat u32
  | Clk_Set_Rate nat u32
  | Mutex_Lock
  | Mutex_Unlock
  | Spin_Lock
  | Spin_Unlock
  | Dma_Alloc nat
  | Dma_Free nat u32
  | Dma_Buf u32 "u8 list"   \<comment> \<open>the processor has filled a coherent buffer\<close>
  | Dma_Mmap nat u32
  | Copy_From_User nat
  | Copy_To_User nat
  | Read_Jiffies
  | Usleep
  | Kzalloc string
  | Kfree string
  | Ioremap u32 u32
  | Get_Irq
  | Request_Irq int
  | Device_Create string
  | Device_Destroy string
  | Class_Create string
  | Class_Destroy string
  | Sysfs_Create string
  | Sysfs_Remove string
  | Chrdev_Alloc
  | Chrdev_Free
  | Cdev_Add
  | Cdev_Del
  | Misc_Register
  | Misc_Deregister
  | Regmap_Lookup string
  | Pool_Create
  | Pool_Add u32 u32 u32
  | Ocm_Config

text \<open>A pointer a kernel function returns: valid, \<^verbatim>\<open>NULL\<close>, or an error code (\<^verbatim>\<open>ERR_PTR\<close>).\<close>

datatype kptr = Good u32 | Null_Ptr | Err_Ptr int

text \<open>What \<^verbatim>\<open>kstrtoul\<close> finds in a string: a number, no number (\<^verbatim>\<open>-EINVAL\<close>), or one that does not fit (\<^verbatim>\<open>-ERANGE\<close>).\<close>

datatype kstr = Parsed u32 | Invalid | Out_Of_Range

record kern =
  k_rc :: "kev list \<Rightarrow> kev \<Rightarrow> int"
  k_val :: "kev list \<Rightarrow> kev \<Rightarrow> u32"
  k_ptr :: "kev list \<Rightarrow> kev \<Rightarrow> kptr"
  k_irq :: "kev list \<Rightarrow> bool"
  k_strtoul :: "nat \<Rightarrow> string \<Rightarrow> kstr"
  k_compatible :: "string option"
  k_hz :: nat

definition EINTR :: int where "EINTR = 4"
definition ENOMEM :: int where "ENOMEM = 12"
definition EFAULT :: int where "EFAULT = 14"
definition EBUSY :: int where "EBUSY = 16"
definition ENODEV :: int where "ENODEV = 19"
definition EINVAL :: int where "EINVAL = 22"
definition ERANGE :: int where "ERANGE = 34"
definition ENOTTY :: int where "ENOTTY = 25"
definition ETIMEDOUT :: int where "ETIMEDOUT = 110"

lemmas errno_defs = EINTR_def ENOMEM_def EFAULT_def EBUSY_def ENODEV_def EINVAL_def ERANGE_def ENOTTY_def ETIMEDOUT_def

section \<open>State\<close>

record kst =
  klog :: "kev list"
  clk_on :: "nat \<Rightarrow> int"
  clk_prep :: "nat \<Rightarrow> int"
  sem_held :: bool
  lock_held :: bool
  dma_live :: "u32 list"

definition log_ev :: "kev \<Rightarrow> 'a kst_scheme \<Rightarrow> 'a kst_scheme" where
  "log_ev e s = s\<lparr>klog := e # klog s\<rparr>"

definition act :: "kev \<Rightarrow> ('a kst_scheme, unit) io" where
  "act e = modify (log_ev e)"

definition call :: "kern \<Rightarrow> kev \<Rightarrow> ('a kst_scheme, int) io" where
  "call K e = (\<lambda>s. Done (k_rc K (klog s) e) (log_ev e s))"

definition fetch :: "kern \<Rightarrow> kev \<Rightarrow> ('a kst_scheme, u32) io" where
  "fetch K e = (\<lambda>s. Done (k_val K (klog s) e) (log_ev e s))"

definition acquire :: "kern \<Rightarrow> kev \<Rightarrow> ('a kst_scheme, kptr) io" where
  "acquire K e = (\<lambda>s. Done (k_ptr K (klog s) e) (log_ev e s))"

section \<open>Clocks, locks and buffers\<close>

definition bump :: "nat \<Rightarrow> int \<Rightarrow> (nat \<Rightarrow> int) \<Rightarrow> nat \<Rightarrow> int" where
  "bump i d f = f(i := f i + d)"

definition clk_enable :: "kern \<Rightarrow> nat \<Rightarrow> ('a kst_scheme, int) io" where
  "clk_enable K i =
     bnd (call K (Clk_Enable i)) (\<lambda>r.
     thn (whn (r = 0) (modify (\<lambda>s. s\<lparr>clk_on := bump i 1 (clk_on s)\<rparr>))) (ret r))"

definition clk_disable :: "nat \<Rightarrow> ('a kst_scheme, unit) io" where
  "clk_disable i = thn (act (Clk_Disable i)) (modify (\<lambda>s. s\<lparr>clk_on := bump i (- 1) (clk_on s)\<rparr>))"

definition clk_prepare :: "kern \<Rightarrow> nat \<Rightarrow> ('a kst_scheme, int) io" where
  "clk_prepare K i =
     bnd (call K (Clk_Prepare i)) (\<lambda>r.
     thn (whn (r = 0) (modify (\<lambda>s. s\<lparr>clk_prep := bump i 1 (clk_prep s)\<rparr>))) (ret r))"

definition clk_unprepare :: "nat \<Rightarrow> ('a kst_scheme, unit) io" where
  "clk_unprepare i = thn (act (Clk_Unprepare i)) (modify (\<lambda>s. s\<lparr>clk_prep := bump i (- 1) (clk_prep s)\<rparr>))"

text \<open>\<^verbatim>\<open>clk_prepare_enable\<close> undoes the preparation when the clock cannot be enabled.\<close>

definition clk_prepare_enable :: "kern \<Rightarrow> nat \<Rightarrow> ('a kst_scheme, int) io" where
  "clk_prepare_enable K i =
     bnd (clk_prepare K i) (\<lambda>r. if r \<noteq> 0 then ret r else
     bnd (clk_enable K i) (\<lambda>q. thn (whn (q \<noteq> 0) (clk_unprepare i)) (ret q)))"

definition clk_disable_unprepare :: "nat \<Rightarrow> ('a kst_scheme, unit) io" where
  "clk_disable_unprepare i = thn (clk_disable i) (clk_unprepare i)"

definition mutex_lock_interruptible :: "kern \<Rightarrow> ('a kst_scheme, int) io" where
  "mutex_lock_interruptible K =
     bnd (gets sem_held) (\<lambda>h. if h then halt Blocked else
     bnd (call K Mutex_Lock) (\<lambda>r. thn (whn (r = 0) (modify (\<lambda>s. s\<lparr>sem_held := True\<rparr>))) (ret r)))"

definition mutex_unlock :: "('a kst_scheme, unit) io" where
  "mutex_unlock = thn (act Mutex_Unlock) (modify (\<lambda>s. s\<lparr>sem_held := False\<rparr>))"

definition spin_lock :: "('a kst_scheme, unit) io" where
  "spin_lock = bnd (gets lock_held) (\<lambda>h. if h then halt Blocked else
     thn (act Spin_Lock) (modify (\<lambda>s. s\<lparr>lock_held := True\<rparr>)))"

definition spin_unlock :: "('a kst_scheme, unit) io" where
  "spin_unlock = thn (act Spin_Unlock) (modify (\<lambda>s. s\<lparr>lock_held := False\<rparr>))"

definition dma_alloc_coherent :: "kern \<Rightarrow> nat \<Rightarrow> ('a kst_scheme, kptr) io" where
  "dma_alloc_coherent K n =
     bnd (acquire K (Dma_Alloc n)) (\<lambda>p.
     thn (case p of Good a \<Rightarrow> modify (\<lambda>s. s\<lparr>dma_live := a # dma_live s\<rparr>) | _ \<Rightarrow> ret ()) (ret p))"

definition dma_free_coherent :: "nat \<Rightarrow> u32 \<Rightarrow> ('a kst_scheme, unit) io" where
  "dma_free_coherent n a = thn (act (Dma_Free n a)) (modify (\<lambda>s. s\<lparr>dma_live := remove1 a (dma_live s)\<rparr>))"

text \<open>\<^verbatim>\<open>time_after(a, b)\<close> is \<^verbatim>\<open>(long)(b - a) < 0\<close>.\<close>

definition time_after :: "u32 \<Rightarrow> u32 \<Rightarrow> bool" where
  "time_after a b \<longleftrightarrow> sint (b - a) < 0"

section \<open>What a driver holds\<close>

text \<open>The reference clock, the two locks and the buffers.\<close>

definition held :: "'a kst_scheme \<Rightarrow> int \<times> bool \<times> bool \<times> u32 list" where
  "held s = (clk_on s 0, sem_held s, lock_held s, dma_live s)"

lemma bump_inverse [simp]: "bump i (- 1) (bump i 1 f) = f" "bump i 1 (bump i (- 1) f) = f"
  by (simp_all add: bump_def)

lemma log_ev_sel [simp]:
  "klog (log_ev e s) = e # klog s" "clk_on (log_ev e s) = clk_on s" "clk_prep (log_ev e s) = clk_prep s"
  "sem_held (log_ev e s) = sem_held s" "lock_held (log_ev e s) = lock_held s" "dma_live (log_ev e s) = dma_live s"
  "kst.more (log_ev e s) = kst.more s"
  by (simp_all add: log_ev_def)

text \<open>Evaluation of the calls, and the rules that let the sequencing combinators take a result apart.\<close>

lemma bnd_call [io_eval]: "bnd (call K e) f s = f (k_rc K (klog s) e) (log_ev e s)"
  by (simp add: call_def bnd_def)

lemma bnd_fetch [io_eval]: "bnd (fetch K e) f s = f (k_val K (klog s) e) (log_ev e s)"
  by (simp add: fetch_def bnd_def)

lemma bnd_acquire [io_eval]: "bnd (acquire K e) f s = f (k_ptr K (klog s) e) (log_ev e s)"
  by (simp add: acquire_def bnd_def)

lemma call_app [io_eval]: "call K e s = Done (k_rc K (klog s) e) (log_ev e s)"
  by (simp add: call_def)

lemma fetch_app [io_eval]: "fetch K e s = Done (k_val K (klog s) e) (log_ev e s)"
  by (simp add: fetch_def)

lemma acquire_app [io_eval]: "acquire K e s = Done (k_ptr K (klog s) e) (log_ev e s)"
  by (simp add: acquire_def)

lemmas kernel_ops = clk_enable_def clk_disable_def clk_prepare_def clk_unprepare_def clk_prepare_enable_def clk_disable_unprepare_def
  mutex_lock_interruptible_def mutex_unlock_def spin_lock_def spin_unlock_def dma_alloc_coherent_def dma_free_coherent_def act_def

section \<open>Registers\<close>

fun last_reg :: "u32 \<Rightarrow> kev list \<Rightarrow> u32 option" where
  "last_reg offset [] = None"
| "last_reg offset (Write_Reg p v # l) = (if p = offset then Some v else last_reg offset l)"
| "last_reg offset (_ # l) = last_reg offset l"

definition clock_ok :: "kern \<Rightarrow> bool" where
  "clock_ok K \<longleftrightarrow> (\<forall>l. k_rc K l (Clk_Enable 0) = 0)"

text \<open>The clock is enabled by the first call of every function, so the register is read after one more event.\<close>

definition reg_next :: "kern \<Rightarrow> u32 \<Rightarrow> 'a kst_scheme \<Rightarrow> u32" where
  "reg_next K offset s = k_val K (Clk_Enable 0 # klog s) (Read_Reg offset)"

section \<open>Clocks that tick\<close>

definition idle :: "'a kst_scheme \<Rightarrow> bool" where
  "idle s \<longleftrightarrow> \<not> sem_held s \<and> \<not> lock_held s"

definition ticks :: "kev list \<Rightarrow> nat" where
  "ticks l = length (filter (\<lambda>e. e = Read_Jiffies) l)"

text \<open>The kernel's clock: \<open>T\<close> counts the ticks since boot, \<^verbatim>\<open>jiffies\<close> is its low word.  It never goes back, no single event lasts
  \<open>2 ^ 20\<close> ticks, and at most \<open>P\<close> looks at it fit into one tick: a loop that looks \<open>P\<close> times sees it move.  The timeout of a second
  fits the signed comparison.\<close>

definition jiffies_run :: "kern \<Rightarrow> nat \<Rightarrow> (kev list \<Rightarrow> nat) \<Rightarrow> bool" where
  "jiffies_run K P T \<longleftrightarrow>
     (\<forall>l. k_val K l Read_Jiffies = of_nat (T l)) \<and> (\<forall>l e. T l \<le> T (e # l) \<and> T (e # l) \<le> T l + 2 ^ 20) \<and>
     (\<forall>l m. P \<le> ticks m \<longrightarrow> T l < T (m @ l)) \<and> k_hz K < 2 ^ 30"

definition clock_runs :: "kern \<Rightarrow> nat \<Rightarrow> bool" where
  "clock_runs K P \<longleftrightarrow> (\<exists>T. jiffies_run K P T)"

lemma ticks_simps [simp]:
  "ticks [] = 0" "ticks (e # l) = (if e = Read_Jiffies then Suc (ticks l) else ticks l)" "ticks (l @ m) = ticks l + ticks m"
  by (simp_all add: ticks_def)

lemma ticks_split: "k \<le> ticks m \<Longrightarrow> \<exists>a b. m = a @ b \<and> ticks b = k"
proof (induction m)
  case (Cons e m)
  show ?case
  proof (cases "k \<le> ticks m")
    case True
    with Cons.IH show ?thesis by (metis append_Cons)
  next
    case False
    then have "ticks (e # m) = k" using Cons.prems by (simp split: if_splits)
    then show ?thesis by (metis append_Nil)
  qed
qed simp

lemma jiffies_le:
  assumes "jiffies_run K P T"
  shows "T l \<le> T (m @ l) \<and> T (m @ l) \<le> T l + length m * 2 ^ 20"
proof (induction m)
  case (Cons e m)
  have "T (m @ l) \<le> T (e # m @ l) \<and> T (e # m @ l) \<le> T (m @ l) + 2 ^ 20" using assms by (simp add: jiffies_run_def)
  with Cons.IH show ?case by simp
qed simp

lemma jiffies_advance:
  assumes "jiffies_run K P T" "P * d \<le> ticks m"
  shows "T l + d \<le> T (m @ l)"
  using assms(2)
proof (induction d arbitrary: m)
  case 0
  then show ?case using jiffies_le [OF assms(1)] by simp
next
  case (Suc d)
  then have "P * d \<le> ticks m" by simp
  from ticks_split [OF this] obtain a b where m: "m = a @ b" "ticks b = P * d" by blast
  then have "P \<le> ticks a" using Suc.prems by simp
  then have "T (b @ l) < T (a @ b @ l)" using assms(1) by (simp add: jiffies_run_def)
  moreover have "T l + d \<le> T (b @ l)" using Suc.IH [of b] m(2) by simp
  ultimately show ?case by (simp add: m)
qed

lemma jiffies_period: "jiffies_run K P T \<Longrightarrow> 0 < P"
  unfolding jiffies_run_def by (metis append_Nil bot_nat_0.extremum bot_nat_0.not_eq_extremum less_irrefl)

lemma time_after_ticks:
  assumes "m < 2 ^ 31" "k < 2 ^ 31"
  shows "time_after (j + of_nat k) (j + of_nat m) \<longleftrightarrow> m < k"
proof -
  have e: "j + of_nat m - (j + of_nat k) = (of_int (int m - int k) :: u32)" by simp
  have "sint (of_int (int m - int k) :: u32) = int m - int k"
    using assms by (intro sint_of_int_range) simp_all
  then show ?thesis by (simp only: time_after_def e) auto
qed

section \<open>An instance for the examples\<close>

text \<open>A kernel that grants every request.\<close>

definition yes_kernel :: kern where
  "yes_kernel = \<lparr>k_rc = (\<lambda>l e. 0), k_val = (\<lambda>l e. 0), k_ptr = (\<lambda>l e. Good 0x1E000000), k_irq = (\<lambda>l. False),
     k_strtoul = (\<lambda>b t. Invalid), k_compatible = None, k_hz = 100\<rparr>"

end
