(* ===== verification/Devcfg.thy ===== *)
theory Devcfg
  imports Kernel
begin

text \<open>
  The driver of the Zynq configuration port, \<^verbatim>\<open>src/patches/xilinx_devcfg.c\<close>: the character device that takes a bitstream
  (\<^verbatim>\<open>open\<close>, \<^verbatim>\<open>write\<close>, \<^verbatim>\<open>read\<close>, \<^verbatim>\<open>release\<close>) and its interrupt handler.  The state is \<^verbatim>\<open>struct xdevcfg_drvdata\<close> on top of what the
  driver holds of the kernel; \<^verbatim>\<open>residue_buf\<close> with \<^verbatim>\<open>residue_len\<close> is the list \<open>residue\<close>.  The driver busy-waits for the interrupt
  handler and for status bits: an interrupt may arrive before every poll (the parameter \<open>k_irq\<close> says when), and the number
  of polls is bounded by a fuel argument whose exhaustion is \<open>Stopped Blocked\<close>; the theorems show how much fuel is enough.
\<close>

section \<open>Registers\<close>

definition XDCFG_CTRL_OFFSET :: u32 where "XDCFG_CTRL_OFFSET = 0x00"
definition XDCFG_LOCK_OFFSET :: u32 where "XDCFG_LOCK_OFFSET = 0x04"
definition XDCFG_INT_STS_OFFSET :: u32 where "XDCFG_INT_STS_OFFSET = 0x0C"
definition XDCFG_INT_MASK_OFFSET :: u32 where "XDCFG_INT_MASK_OFFSET = 0x10"
definition XDCFG_STATUS_OFFSET :: u32 where "XDCFG_STATUS_OFFSET = 0x14"
definition XDCFG_DMA_SRC_ADDR_OFFSET :: u32 where "XDCFG_DMA_SRC_ADDR_OFFSET = 0x18"
definition XDCFG_DMA_DEST_ADDR_OFFSET :: u32 where "XDCFG_DMA_DEST_ADDR_OFFSET = 0x1C"
definition XDCFG_DMA_SRC_LEN_OFFSET :: u32 where "XDCFG_DMA_SRC_LEN_OFFSET = 0x20"
definition XDCFG_DMA_DEST_LEN_OFFSET :: u32 where "XDCFG_DMA_DEST_LEN_OFFSET = 0x24"
definition XDCFG_UNLOCK_OFFSET :: u32 where "XDCFG_UNLOCK_OFFSET = 0x34"
definition XDCFG_MCTRL_OFFSET :: u32 where "XDCFG_MCTRL_OFFSET = 0x80"

definition XDCFG_CTRL_PCFG_PROG_B_MASK :: u32 where "XDCFG_CTRL_PCFG_PROG_B_MASK = 0x40000000"
definition XDCFG_CTRL_PCAP_PR_MASK :: u32 where "XDCFG_CTRL_PCAP_PR_MASK = 0x08000000"
definition XDCFG_CTRL_PCAP_MODE_MASK :: u32 where "XDCFG_CTRL_PCAP_MODE_MASK = 0x04000000"
definition XDCFG_CTRL_PCAP_RATE_EN_MASK :: u32 where "XDCFG_CTRL_PCAP_RATE_EN_MASK = 0x02000000"
definition XDCFG_CTRL_PCFG_AES_EN_MASK :: u32 where "XDCFG_CTRL_PCFG_AES_EN_MASK = 0x00000E00"
definition XDCFG_CTRL_SEU_EN_MASK :: u32 where "XDCFG_CTRL_SEU_EN_MASK = 0x00000100"
definition XDCFG_CTRL_SPNIDEN_MASK :: u32 where "XDCFG_CTRL_SPNIDEN_MASK = 0x00000040"
definition XDCFG_CTRL_SPIDEN_MASK :: u32 where "XDCFG_CTRL_SPIDEN_MASK = 0x00000020"
definition XDCFG_CTRL_NIDEN_MASK :: u32 where "XDCFG_CTRL_NIDEN_MASK = 0x00000010"
definition XDCFG_CTRL_DBGEN_MASK :: u32 where "XDCFG_CTRL_DBGEN_MASK = 0x00000008"
definition XDCFG_CTRL_DAP_EN_MASK :: u32 where "XDCFG_CTRL_DAP_EN_MASK = 0x00000007"
definition XDCFG_LOCK_AES_EN_MASK :: u32 where "XDCFG_LOCK_AES_EN_MASK = 0x00000008"
definition XDCFG_LOCK_SEU_MASK :: u32 where "XDCFG_LOCK_SEU_MASK = 0x00000004"
definition XDCFG_LOCK_DBG_MASK :: u32 where "XDCFG_LOCK_DBG_MASK = 0x00000001"
definition XDCFG_MCTRL_PCAP_LPBK_MASK :: u32 where "XDCFG_MCTRL_PCAP_LPBK_MASK = 0x00000010"
definition XDCFG_STATUS_PCFG_INIT_MASK :: u32 where "XDCFG_STATUS_PCFG_INIT_MASK = 0x00000010"
definition XDCFG_IXR_D_P_DONE_MASK :: u32 where "XDCFG_IXR_D_P_DONE_MASK = 0x00001000"
definition XDCFG_IXR_PCFG_DONE_MASK :: u32 where "XDCFG_IXR_PCFG_DONE_MASK = 0x00000004"
definition XDCFG_IXR_ERROR_FLAGS_MASK :: u32 where "XDCFG_IXR_ERROR_FLAGS_MASK = 0x00F0F860"
definition XDCFG_IXR_ALL_MASK :: u32 where "XDCFG_IXR_ALL_MASK = 0xF8F7F87F"
definition XDCFG_DMA_INVALID_ADDRESS :: u32 where "XDCFG_DMA_INVALID_ADDRESS = 0xFFFFFFFF"
definition SLCR_FPGA_RST_CTRL_OFFSET :: u32 where "SLCR_FPGA_RST_CTRL_OFFSET = 0x240"
definition SLCR_LVL_SHFTR_EN_OFFSET :: u32 where "SLCR_LVL_SHFTR_EN_OFFSET = 0x900"

lemmas ixr_defs = XDCFG_IXR_D_P_DONE_MASK_def XDCFG_IXR_PCFG_DONE_MASK_def XDCFG_IXR_ERROR_FLAGS_MASK_def XDCFG_IXR_ALL_MASK_def

section \<open>State\<close>

datatype drv_data = No_Data | Freed | Data nat bool u32   \<comment> \<open>\<^verbatim>\<open>struct fclk_data\<close>: clock, enabled, rate\<close>

record devcfg = kst +
  dma_done :: bool
  error_status :: int
  is_open :: bool
  ep107 :: bool
  is_partial_bitstream :: bool
  endian_swap :: bool
  residue :: "u8 list"
  fclk_exported :: "nat \<Rightarrow> bool"
  subdevs :: "(nat \<times> drv_data) list"
  drv_bound :: bool

definition xdevcfg_writereg :: "u32 \<Rightarrow> u32 \<Rightarrow> ('a kst_scheme, unit) io" where
  "xdevcfg_writereg offset v = act (Write_Reg offset v)"

definition xdevcfg_readreg :: "kern \<Rightarrow> u32 \<Rightarrow> ('a kst_scheme, u32) io" where
  "xdevcfg_readreg K offset = fetch K (Read_Reg offset)"

definition zynq_slcr_write :: "u32 \<Rightarrow> u32 \<Rightarrow> ('a kst_scheme, unit) io" where
  "zynq_slcr_write v offset = act (Slcr_Write v offset)"

definition zynq_slcr_init_preload_fpga :: "('a kst_scheme, unit) io" where
  "zynq_slcr_init_preload_fpga = stmts
     [zynq_slcr_write 0xF SLCR_FPGA_RST_CTRL_OFFSET,
      zynq_slcr_write 0 SLCR_LVL_SHFTR_EN_OFFSET,
      zynq_slcr_write 0xA SLCR_LVL_SHFTR_EN_OFFSET]"

definition zynq_slcr_init_postload_fpga :: "('a kst_scheme, unit) io" where
  "zynq_slcr_init_postload_fpga = stmts
     [zynq_slcr_write 0xF SLCR_LVL_SHFTR_EN_OFFSET,
      zynq_slcr_write 0 SLCR_FPGA_RST_CTRL_OFFSET]"

section \<open>Resetting the logic\<close>

text \<open>\<^verbatim>\<open>while ((readreg(STATUS) & PCFG_INIT) == level);\<close>\<close>

fun poll_init :: "kern \<Rightarrow> nat \<Rightarrow> bool \<Rightarrow> ('a kst_scheme, unit) io" where
  "poll_init K 0 level = halt Blocked"
| "poll_init K (Suc n) level =
     bnd (xdevcfg_readreg K XDCFG_STATUS_OFFSET) (\<lambda>v.
     if (v AND XDCFG_STATUS_PCFG_INIT_MASK \<noteq> 0) = level then poll_init K n level else ret ())"

definition xdevcfg_reset_pl :: "kern \<Rightarrow> nat \<Rightarrow> ('a kst_scheme, unit) io" where
  "xdevcfg_reset_pl K n =
     bnd (xdevcfg_readreg K XDCFG_CTRL_OFFSET) (\<lambda>c.
     thn (xdevcfg_writereg XDCFG_CTRL_OFFSET (c AND NOT XDCFG_CTRL_PCFG_PROG_B_MASK))
    (thn (poll_init K n True)
    (thn (act Usleep)
    (bnd (xdevcfg_readreg K XDCFG_CTRL_OFFSET) (\<lambda>d.
     thn (xdevcfg_writereg XDCFG_CTRL_OFFSET (d OR XDCFG_CTRL_PCFG_PROG_B_MASK))
         (poll_init K n False))))))"

section \<open>Interrupts\<close>

definition xdevcfg_irq :: "kern \<Rightarrow> ('a devcfg_scheme, unit) io" where
  "xdevcfg_irq K =
     thn spin_lock
    (bnd (xdevcfg_readreg K XDCFG_INT_STS_OFFSET) (\<lambda>intr_status.
     thn (xdevcfg_writereg XDCFG_INT_STS_OFFSET intr_status)
    (thn (whn (intr_status AND XDCFG_IXR_D_P_DONE_MASK = XDCFG_IXR_D_P_DONE_MASK) (modify (\<lambda>s. s\<lparr>dma_done := True\<rparr>)))
    (thn (whn (intr_status AND XDCFG_IXR_ERROR_FLAGS_MASK = XDCFG_IXR_ERROR_FLAGS_MASK) (modify (\<lambda>s. s\<lparr>error_status := 1\<rparr>)))
         spin_unlock))))"

text \<open>A point of the busy-wait loop at which the processor may take the interrupt.\<close>

definition irq_point :: "kern \<Rightarrow> ('a devcfg_scheme, unit) io" where
  "irq_point K = bnd (gets (\<lambda>s. k_irq K (klog s))) (\<lambda>b. whn b (xdevcfg_irq K))"

fun wait_dma :: "kern \<Rightarrow> nat \<Rightarrow> u32 \<Rightarrow> ('a devcfg_scheme, int) io" where
  "wait_dma K 0 timeout = halt Blocked"
| "wait_dma K (Suc n) timeout =
     thn (irq_point K)
    (bnd (gets dma_done) (\<lambda>d. if d then ret 0 else
     bnd (fetch K Read_Jiffies) (\<lambda>j. if time_after j timeout then ret (- ETIMEDOUT) else wait_dma K n timeout)))"

section \<open>Writing a bitstream\<close>

definition sync_normal :: "u8 list" where "sync_normal = [0x66, 0x55, 0x99, 0xAA]"
definition sync_swapped :: "u8 list" where "sync_swapped = [0xAA, 0x99, 0x55, 0x66]"

text \<open>The loop \<^verbatim>\<open>for (i = 0; i < count - 4; i++)\<close>: where it breaks, and the byte order it finds.\<close>

fun find_sync :: "nat \<Rightarrow> nat \<Rightarrow> u8 list \<Rightarrow> (nat \<times> bool) option" where
  "find_sync i 0 kbuf = None"
| "find_sync i (Suc n) kbuf =
     (if take 4 kbuf = sync_normal then Some (i, False)
      else if take 4 kbuf = sync_swapped then Some (i, True)
      else find_sync (Suc i) n (tl kbuf))"

fun swab_words :: "u8 list \<Rightarrow> u8 list" where
  "swab_words (a # b # c # d # r) = d # c # b # a # swab_words r"
| "swab_words r = r"

text \<open>The buffer after the header has been removed (lines 330 to 350), with the byte order.\<close>

definition strip_header :: "nat \<Rightarrow> bool \<Rightarrow> u8 list \<Rightarrow> u8 list \<times> bool" where
  "strip_header ppos swap kbuf =
     (if ppos = 0 \<and> 4 < length kbuf
      then (case find_sync 0 (length kbuf - 4) kbuf of None \<Rightarrow> (kbuf, swap) | Some (i, sw) \<Rightarrow> (drop i kbuf, sw))
      else (kbuf, swap))"

text \<open>Whole words for the transfer, the rest for the next call (lines 352 to 363).\<close>

definition whole :: "u8 list \<Rightarrow> nat" where
  "whole kbuf = length kbuf - length kbuf mod 4"

definition prepare :: "nat \<Rightarrow> u8 list \<Rightarrow> bool \<Rightarrow> u8 list \<Rightarrow> u8 list \<times> u8 list \<times> bool" where
  "prepare ppos res swap buf =
     (let (kbuf, sw) = strip_header ppos swap (res @ buf);
          data = take (whole kbuf) kbuf
      in (if sw then swab_words data else data, drop (whole kbuf) kbuf, sw))"

definition err_clk :: "'x \<Rightarrow> ('a kst_scheme, 'x) io" where
  "err_clk r = thn (clk_disable 0) (ret r)"

definition err_unlock :: "'x \<Rightarrow> ('a kst_scheme, 'x) io" where
  "err_unlock r = thn mutex_unlock (err_clk r)"

definition err_free :: "nat \<Rightarrow> u32 \<Rightarrow> 'x \<Rightarrow> ('a kst_scheme, 'x) io" where
  "err_free n a r = thn (dma_free_coherent n a) (err_unlock r)"

definition ixr_both :: u32 where
  "ixr_both = XDCFG_IXR_D_P_DONE_MASK OR XDCFG_IXR_ERROR_FLAGS_MASK"

text \<open>After the transfer: interrupts off again (lines 405 to 413, 495 to 503).\<close>

definition transfer_status :: "kern \<Rightarrow> ('a devcfg_scheme, int) io" where
  "transfer_status K =
     bnd (gets error_status) (\<lambda>status.
     bnd (xdevcfg_readreg K XDCFG_INT_MASK_OFFSET) (\<lambda>intr_reg.
     thn (xdevcfg_writereg XDCFG_INT_MASK_OFFSET (intr_reg OR ixr_both)) (ret status)))"

definition start_write :: "u32 \<Rightarrow> nat \<Rightarrow> ('a devcfg_scheme, unit) io" where
  "start_write dma_addr count = stmts
     [xdevcfg_writereg XDCFG_INT_STS_OFFSET XDCFG_IXR_ALL_MASK,
      xdevcfg_writereg XDCFG_INT_MASK_OFFSET (NOT ixr_both),
      modify (\<lambda>s. s\<lparr>dma_done := False, error_status := 0\<rparr>),
      xdevcfg_writereg XDCFG_DMA_SRC_ADDR_OFFSET (if count < 0x1000 then dma_addr + 1 else dma_addr),
      xdevcfg_writereg XDCFG_DMA_DEST_ADDR_OFFSET XDCFG_DMA_INVALID_ADDRESS,
      xdevcfg_writereg XDCFG_DMA_SRC_LEN_OFFSET
        (of_nat (if count mod 4 \<noteq> 0 then count div 4 + 1 else count div 4)),
      xdevcfg_writereg XDCFG_DMA_DEST_LEN_OFFSET 0]"

text \<open>The buffer as the driver leaves it: the words to send, the stragglers, and beyond them what the copies have left.\<close>

definition buffer_bytes :: "u8 list \<Rightarrow> u8 list \<Rightarrow> u8 list \<Rightarrow> u8 list" where
  "buffer_bytes kbuf data res' = data @ res' @ drop (length data + length res') kbuf"

text \<open>The result is the status and the new file position.\<close>

definition xdevcfg_write :: "kern \<Rightarrow> nat \<Rightarrow> u8 list \<Rightarrow> nat \<Rightarrow> ('a devcfg_scheme, int \<times> nat) io" where
  "xdevcfg_write K n buf ppos =
     bnd (clk_enable K 0) (\<lambda>status. if status \<noteq> 0 then ret (status, ppos) else
     bnd (mutex_lock_interruptible K) (\<lambda>status. if status \<noteq> 0 then err_clk (status, ppos) else
     bnd (gets residue) (\<lambda>res.
     let dma_len = length buf + length res in
     bnd (dma_alloc_coherent K dma_len) (\<lambda>p. case p of
       Null_Ptr \<Rightarrow> err_unlock (- ENOMEM, ppos)
     | Err_Ptr e \<Rightarrow> halt Fault
     | Good dma_addr \<Rightarrow>
         bnd (call K (Copy_From_User (length buf))) (\<lambda>left. if left \<noteq> 0 then err_free dma_len dma_addr (- EFAULT, ppos) else
         bnd (gets (\<lambda>s. prepare ppos res (endian_swap s) buf)) (\<lambda>(data, res', sw).
         thn (modify (\<lambda>s. s\<lparr>residue := res', endian_swap := sw\<rparr>))
        (thn (act (Dma_Buf dma_addr (buffer_bytes (res @ buf) data res')))
        (thn (start_write dma_addr (length data))
        (bnd (fetch K Read_Jiffies) (\<lambda>j.
         bnd (wait_dma K n (j + of_nat (k_hz K))) (\<lambda>w. if w \<noteq> 0 then err_free dma_len dma_addr (w, ppos) else
         bnd (transfer_status K) (\<lambda>status.
         if status \<noteq> 0 then err_free dma_len dma_addr (- EFAULT, ppos)
         else err_free dma_len dma_addr (int (length buf), ppos + length buf)))))))))))))"

section \<open>Reading back\<close>

definition start_read :: "u32 \<Rightarrow> nat \<Rightarrow> ('a devcfg_scheme, unit) io" where
  "start_read dma_addr count = stmts
     [modify (\<lambda>s. s\<lparr>dma_done := False, error_status := 0\<rparr>),
      xdevcfg_writereg XDCFG_INT_STS_OFFSET XDCFG_IXR_ALL_MASK,
      xdevcfg_writereg XDCFG_INT_MASK_OFFSET (NOT ixr_both),
      xdevcfg_writereg XDCFG_DMA_SRC_ADDR_OFFSET XDCFG_DMA_INVALID_ADDRESS,
      xdevcfg_writereg XDCFG_DMA_DEST_ADDR_OFFSET dma_addr,
      xdevcfg_writereg XDCFG_DMA_SRC_LEN_OFFSET 0,
      xdevcfg_writereg XDCFG_DMA_DEST_LEN_OFFSET (of_nat (count div 4))]"

definition xdevcfg_read :: "kern \<Rightarrow> nat \<Rightarrow> nat \<Rightarrow> ('a devcfg_scheme, int) io" where
  "xdevcfg_read K n count =
     bnd (clk_enable K 0) (\<lambda>status. if status \<noteq> 0 then ret status else
     bnd (mutex_lock_interruptible K) (\<lambda>status. if status \<noteq> 0 then err_clk status else
     bnd (dma_alloc_coherent K count) (\<lambda>p. case p of
       Null_Ptr \<Rightarrow> err_unlock (- ENOMEM)
     | Err_Ptr e \<Rightarrow> halt Fault
     | Good dma_addr \<Rightarrow>
         thn (start_read dma_addr count)
        (bnd (fetch K Read_Jiffies) (\<lambda>j.
         bnd (wait_dma K n (j + of_nat (k_hz K))) (\<lambda>w. if w \<noteq> 0 then err_free count dma_addr w else
         bnd (transfer_status K) (\<lambda>status. if status \<noteq> 0 then err_free count dma_addr (- EFAULT) else
         bnd (call K (Copy_To_User count)) (\<lambda>left.
         err_free count dma_addr (if left \<noteq> 0 then - EFAULT else int count)))))))))"

section \<open>Opening and closing\<close>

definition xdevcfg_enable_partial :: "kern \<Rightarrow> ('a kst_scheme, unit) io" where
  "xdevcfg_enable_partial K =
     bnd (xdevcfg_readreg K XDCFG_CTRL_OFFSET) (\<lambda>v. xdevcfg_writereg XDCFG_CTRL_OFFSET (v OR XDCFG_CTRL_PCAP_PR_MASK))"

definition xdevcfg_disable_partial :: "kern \<Rightarrow> ('a kst_scheme, unit) io" where
  "xdevcfg_disable_partial K =
     bnd (xdevcfg_readreg K XDCFG_CTRL_OFFSET) (\<lambda>v. xdevcfg_writereg XDCFG_CTRL_OFFSET (v AND NOT XDCFG_CTRL_PCAP_PR_MASK))"

definition xdevcfg_open :: "kern \<Rightarrow> nat \<Rightarrow> ('a devcfg_scheme, int) io" where
  "xdevcfg_open K n =
     bnd (clk_enable K 0) (\<lambda>status. if status \<noteq> 0 then ret status else
     bnd (mutex_lock_interruptible K) (\<lambda>status. if status \<noteq> 0 then err_clk status else
     bnd (gets is_open) (\<lambda>busy. if busy then err_unlock (- EBUSY) else
     thn (modify (\<lambda>s. s\<lparr>is_open := True, endian_swap := False, residue := []\<rparr>))
    (bnd (gets is_partial_bitstream) (\<lambda>partial.
     bnd (gets ep107) (\<lambda>ep.
     thn (if partial then xdevcfg_enable_partial K else zynq_slcr_init_preload_fpga)
    (thn (whn (\<not> ep \<and> \<not> partial) (xdevcfg_reset_pl K n))
    (thn (xdevcfg_writereg XDCFG_INT_STS_OFFSET XDCFG_IXR_PCFG_DONE_MASK)
         (err_unlock 0)))))))))"

definition xdevcfg_release :: "kern \<Rightarrow> ('a devcfg_scheme, int) io" where
  "xdevcfg_release K =
     bnd (gets is_partial_bitstream) (\<lambda>partial.
     thn (if partial then xdevcfg_disable_partial K else zynq_slcr_init_postload_fpga)
    (thn (modify (\<lambda>s. s\<lparr>is_open := False\<rparr>)) (ret 0)))"

section \<open>Instances for the examples\<close>

lemmas reg_offsets = XDCFG_CTRL_OFFSET_def XDCFG_LOCK_OFFSET_def XDCFG_INT_STS_OFFSET_def XDCFG_STATUS_OFFSET_def

text \<open>A kernel that grants everything, whose clock moves at every thousandth look, and a controller that answers at once; registers keep what is written.\<close>

definition bench_kernel :: kern where
  "bench_kernel =
     \<lparr>k_rc = (\<lambda>l e. 0),
      k_val = (\<lambda>l e. case e of
        Read_Jiffies \<Rightarrow> of_nat (ticks l div 1000)
      | Read_Reg p \<Rightarrow>
          if p = XDCFG_INT_STS_OFFSET then XDCFG_IXR_D_P_DONE_MASK
          else if p = XDCFG_STATUS_OFFSET
          then (case last_reg XDCFG_CTRL_OFFSET l of
                  None \<Rightarrow> 0 | Some v \<Rightarrow> if v AND XDCFG_CTRL_PCFG_PROG_B_MASK \<noteq> 0 then XDCFG_STATUS_PCFG_INIT_MASK else 0)
          else (case last_reg p l of None \<Rightarrow> 0 | Some v \<Rightarrow> v)
      | _ \<Rightarrow> 0),
      k_ptr = (\<lambda>l e. Good 0x1E000000),
      k_irq = (\<lambda>l. True),
      k_strtoul = (\<lambda>b t. if t = ''1'' @ nl then Parsed 1 else if t = ''0'' @ nl then Parsed 0 else Invalid),
      k_compatible = None,
      k_hz = 100\<rparr>"

definition devcfg0 :: devcfg where
  "devcfg0 =
     \<lparr>klog = [], clk_on = (\<lambda>i. 0), clk_prep = (\<lambda>i. 0), sem_held = False, lock_held = False, dma_live = [],
      dma_done = False, error_status = 0, is_open = False, ep107 = False, is_partial_bitstream = False, endian_swap = False,
      residue = [], fclk_exported = (\<lambda>i. False), subdevs = [], drv_bound = False\<rparr>"

end
