(* ===== verification/Devcfg_Sysfs.thy ===== *)
theory Devcfg_Sysfs
  imports Devcfg
begin

text \<open>
  The files of the configuration driver in sysfs (\<^verbatim>\<open>xilinx_devcfg.c\<close> lines 638 to 1945) and its probe and remove
  functions.  A store function takes the text written and returns the number of bytes or an error; a show function returns its
  status and the text.  Eight of the eleven attributes are one bit, or one group of bits, of the control or of the lock
  register and their functions differ only in the register, the mask and the conversion shown: \<open>store_bit\<close> and \<open>show_bits\<close>
  are that common body.
\<close>

section \<open>Register attributes\<close>

definition kstr_error :: "kstr \<Rightarrow> int" where
  "kstr_error r = (case r of Parsed v \<Rightarrow> 0 | Invalid \<Rightarrow> - EINVAL | Out_Of_Range \<Rightarrow> - ERANGE)"

definition store_bit :: "kern \<Rightarrow> u32 \<Rightarrow> u32 \<Rightarrow> string \<Rightarrow> ('a kst_scheme, int) io" where
  "store_bit K offset msk buf =
     bnd (clk_enable K 0) (\<lambda>status. if status \<noteq> 0 then ret status else
     bnd (xdevcfg_readreg K offset) (\<lambda>reg.
     case k_strtoul K 10 buf of
       Parsed mask_bit \<Rightarrow>
         if 1 < mask_bit then err_clk (- EINVAL)
         else thn spin_lock
             (thn (xdevcfg_writereg offset (if mask_bit \<noteq> 0 then reg OR msk else reg AND NOT msk))
             (thn spin_unlock
                  (err_clk (int (length buf)))))
     | e \<Rightarrow> err_clk (kstr_error e)))"

definition show_bits :: "kern \<Rightarrow> u32 \<Rightarrow> u32 \<Rightarrow> (u32 \<Rightarrow> int) \<Rightarrow> ('a kst_scheme, int \<times> string) io" where
  "show_bits K offset msk conv =
     bnd (clk_enable K 0) (\<lambda>status. if status \<noteq> 0 then ret (status, []) else
     bnd (xdevcfg_readreg K offset) (\<lambda>reg.
     let text = fmt_d (conv (reg AND msk)) @ nl in err_clk (int (length text), text)))"

definition xdevcfg_set_dap_en :: "kern \<Rightarrow> string \<Rightarrow> ('a kst_scheme, int) io" where
  "xdevcfg_set_dap_en K buf =
     bnd (clk_enable K 0) (\<lambda>status. if status \<noteq> 0 then ret status else
     bnd (xdevcfg_readreg K XDCFG_CTRL_OFFSET) (\<lambda>reg.
     thn spin_lock
    (case k_strtoul K 10 buf of
       Parsed mask_bit \<Rightarrow>
         if 7 < mask_bit then thn spin_unlock (err_clk (- EINVAL))
         else thn (xdevcfg_writereg XDCFG_CTRL_OFFSET (reg OR (mask_bit AND XDCFG_CTRL_DAP_EN_MASK)))
             (thn spin_unlock (err_clk (int (length buf))))
     | e \<Rightarrow> thn spin_unlock (err_clk (kstr_error e)))))"

definition xdevcfg_show_dap_en_status :: "kern \<Rightarrow> ('a kst_scheme, int \<times> string) io" where
  "xdevcfg_show_dap_en_status K = show_bits K XDCFG_CTRL_OFFSET XDCFG_CTRL_DAP_EN_MASK sint"

definition xdevcfg_set_dbgen :: "kern \<Rightarrow> string \<Rightarrow> ('a kst_scheme, int) io" where
  "xdevcfg_set_dbgen K = store_bit K XDCFG_CTRL_OFFSET XDCFG_CTRL_DBGEN_MASK"

definition xdevcfg_show_dbgen_status :: "kern \<Rightarrow> ('a kst_scheme, int \<times> string) io" where
  "xdevcfg_show_dbgen_status K = show_bits K XDCFG_CTRL_OFFSET XDCFG_CTRL_DBGEN_MASK (\<lambda>v. sint (drop_bit 3 v))"

definition xdevcfg_set_niden :: "kern \<Rightarrow> string \<Rightarrow> ('a kst_scheme, int) io" where
  "xdevcfg_set_niden K = store_bit K XDCFG_CTRL_OFFSET XDCFG_CTRL_NIDEN_MASK"

definition xdevcfg_show_niden_status :: "kern \<Rightarrow> ('a kst_scheme, int \<times> string) io" where
  "xdevcfg_show_niden_status K = show_bits K XDCFG_CTRL_OFFSET XDCFG_CTRL_NIDEN_MASK (\<lambda>v. sint (drop_bit 4 v))"

definition xdevcfg_set_spiden :: "kern \<Rightarrow> string \<Rightarrow> ('a kst_scheme, int) io" where
  "xdevcfg_set_spiden K = store_bit K XDCFG_CTRL_OFFSET XDCFG_CTRL_SPIDEN_MASK"

definition xdevcfg_show_spiden_status :: "kern \<Rightarrow> ('a kst_scheme, int \<times> string) io" where
  "xdevcfg_show_spiden_status K = show_bits K XDCFG_CTRL_OFFSET XDCFG_CTRL_SPIDEN_MASK (\<lambda>v. sint (drop_bit 5 v))"

definition xdevcfg_set_spniden :: "kern \<Rightarrow> string \<Rightarrow> ('a kst_scheme, int) io" where
  "xdevcfg_set_spniden K = store_bit K XDCFG_CTRL_OFFSET XDCFG_CTRL_SPNIDEN_MASK"

definition xdevcfg_show_spniden_status :: "kern \<Rightarrow> ('a kst_scheme, int \<times> string) io" where
  "xdevcfg_show_spniden_status K = show_bits K XDCFG_CTRL_OFFSET XDCFG_CTRL_SPNIDEN_MASK (\<lambda>v. sint (drop_bit 6 v))"

definition xdevcfg_set_seu :: "kern \<Rightarrow> string \<Rightarrow> ('a kst_scheme, int) io" where
  "xdevcfg_set_seu K = store_bit K XDCFG_CTRL_OFFSET XDCFG_CTRL_SEU_EN_MASK"

text \<open>This one compares, \<^verbatim>\<open>seu_status > 8\<close>, where the others shift.\<close>

definition xdevcfg_show_seu_status :: "kern \<Rightarrow> ('a kst_scheme, int \<times> string) io" where
  "xdevcfg_show_seu_status K = show_bits K XDCFG_CTRL_OFFSET XDCFG_CTRL_SEU_EN_MASK (\<lambda>v. if 8 < v then 1 else 0)"

definition xdevcfg_set_aes :: "kern \<Rightarrow> string \<Rightarrow> ('a kst_scheme, int) io" where
  "xdevcfg_set_aes K = store_bit K XDCFG_CTRL_OFFSET (XDCFG_CTRL_PCFG_AES_EN_MASK OR XDCFG_CTRL_PCAP_RATE_EN_MASK)"

definition xdevcfg_show_aes_status :: "kern \<Rightarrow> ('a kst_scheme, int \<times> string) io" where
  "xdevcfg_show_aes_status K = show_bits K XDCFG_CTRL_OFFSET XDCFG_CTRL_PCFG_AES_EN_MASK (\<lambda>v. sint (drop_bit 9 v))"

definition xdevcfg_set_aes_en_lock :: "kern \<Rightarrow> string \<Rightarrow> ('a kst_scheme, int) io" where
  "xdevcfg_set_aes_en_lock K = store_bit K XDCFG_LOCK_OFFSET XDCFG_LOCK_AES_EN_MASK"

definition xdevcfg_show_aes_en_lock_status :: "kern \<Rightarrow> ('a kst_scheme, int \<times> string) io" where
  "xdevcfg_show_aes_en_lock_status K = show_bits K XDCFG_LOCK_OFFSET XDCFG_LOCK_AES_EN_MASK (\<lambda>v. sint (drop_bit 3 v))"

definition xdevcfg_set_seu_lock :: "kern \<Rightarrow> string \<Rightarrow> ('a kst_scheme, int) io" where
  "xdevcfg_set_seu_lock K = store_bit K XDCFG_LOCK_OFFSET XDCFG_LOCK_SEU_MASK"

definition xdevcfg_show_seu_lock_status :: "kern \<Rightarrow> ('a kst_scheme, int \<times> string) io" where
  "xdevcfg_show_seu_lock_status K = show_bits K XDCFG_LOCK_OFFSET XDCFG_LOCK_SEU_MASK (\<lambda>v. sint (drop_bit 2 v))"

definition xdevcfg_set_dbg_lock :: "kern \<Rightarrow> string \<Rightarrow> ('a kst_scheme, int) io" where
  "xdevcfg_set_dbg_lock K = store_bit K XDCFG_LOCK_OFFSET XDCFG_LOCK_DBG_MASK"

definition xdevcfg_show_dbg_lock_status :: "kern \<Rightarrow> ('a kst_scheme, int \<times> string) io" where
  "xdevcfg_show_dbg_lock_status K = show_bits K XDCFG_LOCK_OFFSET XDCFG_LOCK_DBG_MASK sint"

definition xdevcfg_show_prog_done_status :: "kern \<Rightarrow> ('a kst_scheme, int \<times> string) io" where
  "xdevcfg_show_prog_done_status K = show_bits K XDCFG_INT_STS_OFFSET XDCFG_IXR_PCFG_DONE_MASK (\<lambda>v. sint (drop_bit 2 v))"

definition xdevcfg_set_is_partial_bitstream :: "kern \<Rightarrow> string \<Rightarrow> ('a devcfg_scheme, int) io" where
  "xdevcfg_set_is_partial_bitstream K buf =
     (case k_strtoul K 10 buf of
        Parsed mask_bit \<Rightarrow>
          if 1 < mask_bit then ret (- EINVAL)
          else thn (modify (\<lambda>s. s\<lparr>is_partial_bitstream := (mask_bit \<noteq> 0)\<rparr>)) (ret (int (length buf)))
      | e \<Rightarrow> ret (kstr_error e))"

definition xdevcfg_show_is_partial_bitstream_status :: "('a devcfg_scheme, int \<times> string) io" where
  "xdevcfg_show_is_partial_bitstream_status =
     bnd (gets is_partial_bitstream) (\<lambda>b. let text = fmt_d (if b then 1 else 0) @ nl in ret (int (length text), text))"

text \<open>The table of attributes: name, show and store function.\<close>

definition xdevcfg_attrs ::
    "kern \<Rightarrow> (string \<times> ('a devcfg_scheme, int \<times> string) io \<times> (string \<Rightarrow> ('a devcfg_scheme, int) io) option) list" where
  "xdevcfg_attrs K =
     [(''prog_done'', xdevcfg_show_prog_done_status K, None),
      (''dbg_lock'', xdevcfg_show_dbg_lock_status K, Some (xdevcfg_set_dbg_lock K)),
      (''seu_lock'', xdevcfg_show_seu_lock_status K, Some (xdevcfg_set_seu_lock K)),
      (''aes_en_lock'', xdevcfg_show_aes_en_lock_status K, Some (xdevcfg_set_aes_en_lock K)),
      (''enable_aes'', xdevcfg_show_aes_status K, Some (xdevcfg_set_aes K)),
      (''enable_seu'', xdevcfg_show_seu_status K, Some (xdevcfg_set_seu K)),
      (''enable_sec_dbg_nonin'', xdevcfg_show_spniden_status K, Some (xdevcfg_set_spniden K)),
      (''enable_sec_dbg_in'', xdevcfg_show_spiden_status K, Some (xdevcfg_set_spiden K)),
      (''enable_dbg_nonin'', xdevcfg_show_niden_status K, Some (xdevcfg_set_niden K)),
      (''enable_dbg_in'', xdevcfg_show_dbgen_status K, Some (xdevcfg_set_dbgen K)),
      (''enable_dap'', xdevcfg_show_dap_en_status K, Some (xdevcfg_set_dap_en K)),
      (''is_partial_bitstream'', xdevcfg_show_is_partial_bitstream_status, Some (xdevcfg_set_is_partial_bitstream K))]"

section \<open>Clock attributes\<close>

text \<open>The data of the sub-device of clock \<open>i\<close>; without data the access goes through an invalid pointer.\<close>

definition pdata :: "nat \<Rightarrow> ('a devcfg_scheme, nat \<times> bool \<times> u32) io" where
  "pdata i = bnd (gets subdevs) (\<lambda>l. case map_of l i of Some (Data c e r) \<Rightarrow> ret (c, e, r) | _ \<Rightarrow> halt Fault)"

fun put_data :: "nat \<Rightarrow> drv_data \<Rightarrow> (nat \<times> drv_data) list \<Rightarrow> (nat \<times> drv_data) list" where
  "put_data i d [] = []"
| "put_data i d ((j, e) # l) = (if i = j then (j, d) # l else (j, e) # put_data i d l)"

definition shown :: "string \<Rightarrow> int \<times> string" where
  "shown text = (int (length text), text)"

definition fclk_enable_show :: "nat \<Rightarrow> ('a devcfg_scheme, int \<times> string) io" where
  "fclk_enable_show i = bnd (pdata i) (\<lambda>(c, en, r). ret (shown (fmt_u (if en then 1 else 0) @ nl)))"

definition fclk_enable_store :: "kern \<Rightarrow> nat \<Rightarrow> string \<Rightarrow> ('a devcfg_scheme, int) io" where
  "fclk_enable_store K i buf =
     (case k_strtoul K 0 buf of
        Parsed v \<Rightarrow>
          bnd (pdata i) (\<lambda>(c, en, r).
          let enable = (v \<noteq> 0) in
          if enable = en then ret (int (length buf))
          else bnd (if enable then clk_enable K c else thn (clk_disable c) (ret 0)) (\<lambda>q.
               if q \<noteq> 0 then ret q
               else thn (modify (\<lambda>s. s\<lparr>subdevs := put_data i (Data c enable r) (subdevs s)\<rparr>)) (ret (int (length buf)))))
      | _ \<Rightarrow> ret (- EINVAL))"

definition fclk_set_rate_show :: "kern \<Rightarrow> nat \<Rightarrow> ('a devcfg_scheme, int \<times> string) io" where
  "fclk_set_rate_show K i =
     bnd (pdata i) (\<lambda>(c, en, r). bnd (fetch K (Clk_Get_Rate c)) (\<lambda>v. ret (shown (fmt_u (uint v) @ nl))))"

definition fclk_set_rate_store :: "kern \<Rightarrow> nat \<Rightarrow> string \<Rightarrow> ('a devcfg_scheme, int) io" where
  "fclk_set_rate_store K i buf =
     (case k_strtoul K 0 buf of
        Parsed v \<Rightarrow>
          bnd (pdata i) (\<lambda>(c, en, r).
          bnd (fetch K (Clk_Round_Rate c v)) (\<lambda>w.
          bnd (call K (Clk_Set_Rate c w)) (\<lambda>q. ret (if q \<noteq> 0 then q else int (length buf)))))
      | _ \<Rightarrow> ret (- EINVAL))"

definition fclk_round_rate_show :: "kern \<Rightarrow> nat \<Rightarrow> ('a devcfg_scheme, int \<times> string) io" where
  "fclk_round_rate_show K i =
     bnd (pdata i) (\<lambda>(c, en, r).
     bnd (fetch K (Clk_Round_Rate c r)) (\<lambda>w. ret (shown (fmt_u (uint r) @ '' => '' @ fmt_u (uint w) @ nl))))"

definition fclk_round_rate_store :: "kern \<Rightarrow> nat \<Rightarrow> string \<Rightarrow> ('a devcfg_scheme, int) io" where
  "fclk_round_rate_store K i buf =
     (case k_strtoul K 0 buf of
        Parsed v \<Rightarrow>
          bnd (pdata i) (\<lambda>(c, en, r).
          thn (modify (\<lambda>s. s\<lparr>subdevs := put_data i (Data c en v) (subdevs s)\<rparr>)) (ret (int (length buf))))
      | _ \<Rightarrow> ret (- EINVAL))"

section \<open>Exporting clocks\<close>

definition fclk_name :: "string list" where
  "fclk_name = [''fclk0'', ''fclk1'', ''fclk2'', ''fclk3'']"

text \<open>The first clock whose name the text starts with; \<open>NUMFCLKS\<close> when there is none.\<close>

fun which_fclk :: "nat \<Rightarrow> string list \<Rightarrow> string \<Rightarrow> nat" where
  "which_fclk i [] buf = i"
| "which_fclk i (nm # r) buf = (if take (length nm) buf = nm then i else which_fclk (Suc i) r buf)"

definition xdevcfg_fclk_export_store :: "kern \<Rightarrow> string \<Rightarrow> ('a devcfg_scheme, int) io" where
  "xdevcfg_fclk_export_store K buf =
     (let i = which_fclk 0 fclk_name buf in
      bnd (gets fclk_exported) (\<lambda>ex.
      if i < 4 \<and> \<not> ex i then
        thn (modify (\<lambda>s. s\<lparr>fclk_exported := (fclk_exported s)(i := True)\<rparr>))
       (bnd (acquire K (Device_Create (fclk_name ! i))) (\<lambda>subdev. case subdev of
          Err_Ptr e \<Rightarrow> ret e
        | _ \<Rightarrow>
          thn (modify (\<lambda>s. s\<lparr>subdevs := subdevs s @ [(i, No_Data)]\<rparr>))
         (bnd (clk_prepare K (Suc i)) (\<lambda>q. if q \<noteq> 0 then ret q else
          bnd (acquire K (Kzalloc (fclk_name ! i))) (\<lambda>fdata. case fdata of
            Null_Ptr \<Rightarrow> thn (clk_unprepare (Suc i)) (ret (- ENOMEM))
          | _ \<Rightarrow>
            thn (modify (\<lambda>s. s\<lparr>subdevs := put_data i (Data (Suc i) False 0) (subdevs s)\<rparr>))
           (bnd (call K (Sysfs_Create (fclk_name ! i))) (\<lambda>r.
            if r \<noteq> 0
            then thn (act (Kfree (fclk_name ! i)))
                (thn (modify (\<lambda>s. s\<lparr>subdevs := put_data i Freed (subdevs s)\<rparr>))
                (thn (clk_unprepare (Suc i)) (ret r)))
            else ret (int (length buf)))))))))
      else ret (- EINVAL)))"

definition list_fclk :: "(nat \<Rightarrow> bool) \<Rightarrow> string" where
  "list_fclk p = concat (map (\<lambda>i. if p i then fclk_name ! i @ nl else []) [0..<4])"

definition xdevcfg_fclk_export_show :: "('a devcfg_scheme, int \<times> string) io" where
  "xdevcfg_fclk_export_show = bnd (gets fclk_exported) (\<lambda>ex. ret (shown (list_fclk (\<lambda>i. \<not> ex i))))"

text \<open>\<^verbatim>\<open>class_find_device\<close> with \<^verbatim>\<open>match_fclk\<close>: the devices of the class in the order of their creation; a device without data,
  or no match at all, makes the caller follow an invalid pointer.\<close>

fun match_fclk :: "nat \<Rightarrow> (nat \<times> drv_data) list \<Rightarrow> stop + (nat \<times> bool)" where
  "match_fclk clk [] = Inl Fault"
| "match_fclk clk ((i, Data c en r) # l) = (if c = clk then Inr (i, en) else match_fclk clk l)"
| "match_fclk clk ((i, No_Data) # l) = Inl Fault"
| "match_fclk clk ((i, Freed) # l) = Inl Fault"

fun drop_dev :: "nat \<Rightarrow> (nat \<times> drv_data) list \<Rightarrow> (nat \<times> drv_data) list" where
  "drop_dev i [] = []"
| "drop_dev i ((j, e) # l) = (if i = j then l else (j, e) # drop_dev i l)"

definition unexport :: "nat \<Rightarrow> ('a devcfg_scheme, unit) io" where
  "unexport i =
     thn (modify (\<lambda>s. s\<lparr>fclk_exported := (fclk_exported s)(i := False)\<rparr>))
    (bnd (gets (\<lambda>s. match_fclk (Suc i) (subdevs s))) (\<lambda>found. case found of
       Inl e \<Rightarrow> halt e
     | Inr (j, en) \<Rightarrow> stmts
        [whn en (clk_disable (Suc i)),
         clk_unprepare (Suc i),
         act (Kfree (fclk_name ! j)),
         act (Device_Destroy (fclk_name ! j)),
         modify (\<lambda>s. s\<lparr>subdevs := drop_dev j (subdevs s)\<rparr>)]))"

definition xdevcfg_fclk_unexport_store :: "string \<Rightarrow> ('a devcfg_scheme, int) io" where
  "xdevcfg_fclk_unexport_store buf =
     (let i = which_fclk 0 fclk_name buf in
      bnd (gets fclk_exported) (\<lambda>ex.
      if i < 4 \<and> ex i then thn (unexport i) (ret (int (length buf))) else ret (- EINVAL)))"

definition xdevcfg_fclk_unexport_show :: "('a devcfg_scheme, int \<times> string) io" where
  "xdevcfg_fclk_unexport_show = bnd (gets fclk_exported) (\<lambda>ex. ret (shown (list_fclk ex)))"

fun get_fclks :: "kern \<Rightarrow> nat list \<Rightarrow> ('a devcfg_scheme, bool) io" where
  "get_fclks K [] = ret True"
| "get_fclks K (i # r) =
     bnd (acquire K (Clk_Get (Suc i))) (\<lambda>p. case p of Err_Ptr e \<Rightarrow> ret False | _ \<Rightarrow> get_fclks K r)"

definition xdevcfg_fclk_init :: "kern \<Rightarrow> ('a devcfg_scheme, unit) io" where
  "xdevcfg_fclk_init K =
     bnd (get_fclks K [0..<4]) (\<lambda>ok. if \<not> ok then ret () else
     bnd (acquire K (Class_Create ''fclk'')) (\<lambda>p. case p of
       Err_Ptr e \<Rightarrow> ret ()
     | _ \<Rightarrow> bnd (call K (Sysfs_Create ''fclk'')) (\<lambda>r. ret ())))"

definition xdevcfg_fclk_remove :: "('a devcfg_scheme, unit) io" where
  "xdevcfg_fclk_remove = stmts
     (map (\<lambda>i. bnd (gets fclk_exported) (\<lambda>ex. whn (ex i) (unexport i))) [0..<4] @
      [act (Class_Destroy ''fclk''), act (Sysfs_Remove ''fclk'')])"

section \<open>Storing and showing\<close>

lemma store_bit_ok:
  assumes "clock_ok K" "k_strtoul K 10 buf = Parsed b" "b \<le> 1" "\<not> lock_held s"
  shows "\<exists>t. store_bit K offset msk buf s = Done (int (length buf)) t \<and> held t = held s \<and>
    klog t = Clk_Disable 0 # Spin_Unlock #
      Write_Reg offset (if b \<noteq> 0 then reg_next K offset s OR msk else reg_next K offset s AND NOT msk) #
      Spin_Lock # Read_Reg offset # Clk_Enable 0 # klog s"
  using assms u32_le_1 [OF assms(3)]
  by (auto simp: store_bit_def err_clk_def kernel_ops io_eval clock_ok_def xdevcfg_readreg_def xdevcfg_writereg_def reg_next_def held_def)

lemma show_bits_ok:
  assumes "clock_ok K"
  shows "\<exists>t. show_bits K offset msk conv s = Done (shown (fmt_d (conv (reg_next K offset s AND msk)) @ nl)) t \<and> held t = held s"
  using assms
  by (simp add: show_bits_def err_clk_def kernel_ops io_eval clock_ok_def xdevcfg_readreg_def shown_def reg_next_def held_def)

text \<open>
  The registers with their locks.  The bits of the lock register are set by writing ones and stay set; \<open>frozen lk\<close> are the bits of the
  control register that the lock bits \<open>lk\<close> protect (\<^verbatim>\<open>xilinx_devcfg.c\<close> lines 78 to 84): a write to the control register
  changes the other bits of its fields only.  Nothing else changes the fields.
\<close>

definition CTRL_FIELDS :: u32 where "CTRL_FIELDS = 0x00000F7F"
definition LOCK_FIELDS :: u32 where "LOCK_FIELDS = 0x0000001F"

definition ctrl_of :: "kern \<Rightarrow> kev list \<Rightarrow> u32" where
  "ctrl_of K l = k_val K l (Read_Reg XDCFG_CTRL_OFFSET) AND CTRL_FIELDS"

definition lock_of :: "kern \<Rightarrow> kev list \<Rightarrow> u32" where
  "lock_of K l = k_val K l (Read_Reg XDCFG_LOCK_OFFSET) AND LOCK_FIELDS"

definition locked_regs :: "kern \<Rightarrow> (u32 \<Rightarrow> u32) \<Rightarrow> bool" where
  "locked_regs K frozen \<longleftrightarrow>
     (\<forall>l v. ctrl_of K (Write_Reg XDCFG_CTRL_OFFSET v # l) =
        (ctrl_of K l AND frozen (lock_of K l)) OR (v AND CTRL_FIELDS AND NOT (frozen (lock_of K l)))) \<and>
     (\<forall>l v. lock_of K (Write_Reg XDCFG_LOCK_OFFSET v # l) = lock_of K l OR (v AND LOCK_FIELDS)) \<and>
     (\<forall>l e. (\<forall>v. e \<noteq> Write_Reg XDCFG_CTRL_OFFSET v) \<longrightarrow> ctrl_of K (e # l) = ctrl_of K l) \<and>
     (\<forall>l e. (\<forall>v. e \<noteq> Write_Reg XDCFG_LOCK_OFFSET v) \<longrightarrow> lock_of K (e # l) = lock_of K l) \<and>
     (\<forall>k. frozen k AND XDCFG_CTRL_PCFG_AES_EN_MASK = 0 \<or> frozen k AND XDCFG_CTRL_PCFG_AES_EN_MASK = XDCFG_CTRL_PCFG_AES_EN_MASK)"

text \<open>What a store does to a field of a register, between two readings of it.\<close>

definition field_step :: "kern \<Rightarrow> u32 \<Rightarrow> u32 \<Rightarrow> bool \<Rightarrow> u32 \<Rightarrow> 'a kst_scheme \<Rightarrow> bool" where
  "field_step K offset msk keep b s \<longleftrightarrow> (\<forall>v. v AND msk = (if b \<noteq> 0 then msk else 0) \<longrightarrow>
     k_val K (Clk_Enable 0 # Clk_Disable 0 # Spin_Unlock # Write_Reg offset v # Spin_Lock # Read_Reg offset # Clk_Enable 0 # klog s)
         (Read_Reg offset) AND msk =
       (if keep then reg_next K offset s AND msk else v AND msk))"

lemma ctrl_step:
  assumes "locked_regs K frozen" "msk AND CTRL_FIELDS = msk" "frozen (lock_of K (klog s)) AND msk \<in> {0, msk}"
  shows "field_step K XDCFG_CTRL_OFFSET msk (frozen (lock_of K (klog s)) AND msk \<noteq> 0) b s"
  unfolding field_step_def
proof (intro allI impI)
  fix v
  let ?l = "Spin_Lock # Read_Reg XDCFG_CTRL_OFFSET # Clk_Enable 0 # klog s"
  let ?m = "Clk_Enable 0 # Clk_Disable 0 # Spin_Unlock # Write_Reg XDCFG_CTRL_OFFSET v # ?l"
  let ?z = "frozen (lock_of K (klog s))"
  have e: "ctrl_of K ?m = (ctrl_of K (klog s) AND ?z) OR (v AND CTRL_FIELDS AND NOT ?z)"
    "ctrl_of K (Clk_Enable 0 # klog s) = ctrl_of K (klog s)"
    using assms(1) by (simp_all add: locked_regs_def)
  have r: "x AND msk = (x AND CTRL_FIELDS) AND msk" for x :: u32 by (metis assms(2) and.assoc and.commute)
  have f: "bit msk n \<Longrightarrow> bit CTRL_FIELDS n" for n by (metis assms(2) bit_and_iff)
  have n: "reg_next K XDCFG_CTRL_OFFSET s AND CTRL_FIELDS = ctrl_of K (klog s)" using e(2) by (simp add: reg_next_def ctrl_of_def)
  have "k_val K ?m (Read_Reg XDCFG_CTRL_OFFSET) AND msk = ctrl_of K ?m AND msk" by (subst r) (simp add: ctrl_of_def)
  also have "\<dots> = (ctrl_of K (klog s) AND msk AND ?z) OR (v AND msk AND NOT ?z)"
    unfolding e by (rule bit_word_eqI) (use f in \<open>auto simp: bit_simps\<close>)
  also have "\<dots> = (if ?z AND msk \<noteq> 0 then ctrl_of K (klog s) AND msk else v AND msk)"
  proof (cases "?z AND msk = 0")
    case True
    then have "\<not> (bit ?z n \<and> bit msk n)" for n by (metis bit_0_eq bit_and_iff bot_apply bot_bool_def)
    with True show ?thesis by (auto intro!: bit_word_eqI simp: bit_simps)
  next
    case False
    then have "?z AND msk = msk" using assms(3) by simp
    then have "bit msk n \<Longrightarrow> bit ?z n" for n by (metis bit_and_iff)
    with False show ?thesis by (auto intro!: bit_word_eqI simp: bit_simps)
  qed
  also have "ctrl_of K (klog s) AND msk = reg_next K XDCFG_CTRL_OFFSET s AND msk"
    by (metis r n)
  finally show "k_val K ?m (Read_Reg XDCFG_CTRL_OFFSET) AND msk =
      (if ?z AND msk \<noteq> 0 then reg_next K XDCFG_CTRL_OFFSET s AND msk else v AND msk)" .
qed

lemma lock_step:
  assumes "locked_regs K frozen" "msk AND LOCK_FIELDS = msk"
  shows "field_step K XDCFG_LOCK_OFFSET msk (b = 0) b s"
  unfolding field_step_def
proof (intro allI impI)
  fix v
  assume v: "v AND msk = (if b \<noteq> 0 then msk else 0)"
  let ?m = "Clk_Enable 0 # Clk_Disable 0 # Spin_Unlock # Write_Reg XDCFG_LOCK_OFFSET v # Spin_Lock # Read_Reg XDCFG_LOCK_OFFSET # Clk_Enable 0 # klog s"
  have e: "lock_of K ?m = lock_of K (klog s) OR (v AND LOCK_FIELDS)" "lock_of K (Clk_Enable 0 # klog s) = lock_of K (klog s)"
    using assms(1) by (simp_all add: locked_regs_def)
  have r: "x AND msk = (x AND LOCK_FIELDS) AND msk" for x :: u32 by (metis assms(2) and.assoc and.commute)
  have f: "bit msk n \<Longrightarrow> bit LOCK_FIELDS n" for n by (metis assms(2) bit_and_iff)
  have n: "reg_next K XDCFG_LOCK_OFFSET s AND LOCK_FIELDS = lock_of K (klog s)" using e(2) by (simp add: reg_next_def lock_of_def)
  have "k_val K ?m (Read_Reg XDCFG_LOCK_OFFSET) AND msk = lock_of K ?m AND msk" by (subst r) (simp add: lock_of_def)
  also have "\<dots> = (lock_of K (klog s) AND msk) OR (v AND msk)"
    unfolding e by (rule bit_word_eqI) (use f in \<open>auto simp: bit_simps\<close>)
  also have "lock_of K (klog s) AND msk = reg_next K XDCFG_LOCK_OFFSET s AND msk"
    by (metis r n)
  finally show "k_val K ?m (Read_Reg XDCFG_LOCK_OFFSET) AND msk =
      (if b = 0 then reg_next K XDCFG_LOCK_OFFSET s AND msk else v AND msk)"
    using v by (auto intro!: bit_word_eqI simp: bit_simps)
qed

text \<open>Showing, storing and showing an attribute: the second text has the first number if the field is held (\<open>keep\<close>), and otherwise
  what was stored, \<open>on\<close> or 0.\<close>

definition store_shows :: "(string \<Rightarrow> ('a devcfg_scheme, int) io) \<Rightarrow> ('a devcfg_scheme, int \<times> string) io \<Rightarrow> bool \<Rightarrow> int \<Rightarrow>
    string \<Rightarrow> u32 \<Rightarrow> 'a devcfg_scheme \<Rightarrow> bool" where
  "store_shows sto shw keep on buf b s \<longleftrightarrow>
     (\<exists>v u t w. shw s = Done (shown (fmt_d v @ nl)) u \<and> sto buf s = Done (int (length buf)) t \<and>
        shw t = Done (shown (fmt_d (if keep then v else if b \<noteq> 0 then on else 0) @ nl)) w \<and> held w = held s)"

text \<open>
  The contract of an attribute that shows a register field: storing 1 makes it show \<open>on\<close>, storing 0 makes it show 0,
  whatever the other bits are, as far as the register takes the field.
\<close>

locale bit_attribute =
  fixes store :: "kern \<Rightarrow> string \<Rightarrow> ('a devcfg_scheme, int) io"
    and shows_it :: "kern \<Rightarrow> ('a devcfg_scheme, int \<times> string) io"
    and offset smsk msk :: u32
    and conv :: "u32 \<Rightarrow> int"
    and on :: int
  assumes store_is: "store K = store_bit K offset smsk"
    and shows_is: "shows_it K = show_bits K offset msk conv"
    and covered: "msk AND smsk = msk"
    and conv_on: "conv msk = on"
    and conv_off: "conv 0 = 0"
begin

lemma field_after: "(r OR smsk) AND msk = msk" "(r AND NOT smsk) AND msk = 0"
proof -
  have b: "bit msk n \<Longrightarrow> bit smsk n" for n using covered by (metis bit_and_iff)
  show "(r OR smsk) AND msk = msk" using b by (auto intro!: bit_word_eqI simp: bit_simps)
  show "(r AND NOT smsk) AND msk = 0" using b by (auto intro!: bit_word_eqI simp: bit_simps)
qed

lemma store_then_show:
  assumes "clock_ok K" "k_strtoul K 10 buf = Parsed b" "b \<le> 1" "\<not> lock_held s" "field_step K offset msk keep b s"
  shows "store_shows (store K) (shows_it K) keep on buf b s"
proof -
  let ?v = "if b \<noteq> 0 then reg_next K offset s OR smsk else reg_next K offset s AND NOT smsk"
  obtain u where u: "shows_it K s = Done (shown (fmt_d (conv (reg_next K offset s AND msk)) @ nl)) u"
    unfolding shows_is using show_bits_ok [OF assms(1)] by blast
  obtain t where t: "store K buf s = Done (int (length buf)) t" "held t = held s"
    "klog t = Clk_Disable 0 # Spin_Unlock # Write_Reg offset ?v # Spin_Lock # Read_Reg offset # Clk_Enable 0 # klog s"
    unfolding store_is using store_bit_ok [OF assms(1-4)] by blast
  obtain w where w: "shows_it K t = Done (shown (fmt_d (conv (reg_next K offset t AND msk)) @ nl)) w" "held w = held t"
    unfolding shows_is using show_bits_ok [OF assms(1)] by blast
  have "?v AND msk = (if b \<noteq> 0 then msk else 0)" by (simp add: field_after)
  with assms(5) t(3) have "reg_next K offset t AND msk =
      (if keep then reg_next K offset s AND msk else if b \<noteq> 0 then msk else 0)"
    unfolding field_step_def reg_next_def by simp
  then have "conv (reg_next K offset t AND msk) =
      (if keep then conv (reg_next K offset s AND msk) else if b \<noteq> 0 then on else 0)"
    by (simp add: conv_on conv_off)
  with w t(2) have "shows_it K t = Done (shown (fmt_d (if keep then conv (reg_next K offset s AND msk) else if b \<noteq> 0 then on else 0) @ nl)) w"
    "held w = held s" by simp_all
  with u t(1) show ?thesis unfolding store_shows_def by blast
qed

end

lemmas attr_defs = XDCFG_CTRL_DBGEN_MASK_def XDCFG_CTRL_NIDEN_MASK_def XDCFG_CTRL_SPIDEN_MASK_def XDCFG_CTRL_SPNIDEN_MASK_def
  XDCFG_CTRL_SEU_EN_MASK_def XDCFG_CTRL_PCFG_AES_EN_MASK_def XDCFG_CTRL_PCAP_RATE_EN_MASK_def XDCFG_LOCK_AES_EN_MASK_def
  XDCFG_LOCK_SEU_MASK_def XDCFG_LOCK_DBG_MASK_def

interpretation dbgen: bit_attribute xdevcfg_set_dbgen xdevcfg_show_dbgen_status XDCFG_CTRL_OFFSET XDCFG_CTRL_DBGEN_MASK XDCFG_CTRL_DBGEN_MASK
    "\<lambda>v. sint (drop_bit 3 v)" 1
  by unfold_locales (simp_all add: xdevcfg_set_dbgen_def xdevcfg_show_dbgen_status_def attr_defs)

interpretation niden: bit_attribute xdevcfg_set_niden xdevcfg_show_niden_status XDCFG_CTRL_OFFSET XDCFG_CTRL_NIDEN_MASK XDCFG_CTRL_NIDEN_MASK
    "\<lambda>v. sint (drop_bit 4 v)" 1
  by unfold_locales (simp_all add: xdevcfg_set_niden_def xdevcfg_show_niden_status_def attr_defs)

interpretation spiden: bit_attribute xdevcfg_set_spiden xdevcfg_show_spiden_status XDCFG_CTRL_OFFSET XDCFG_CTRL_SPIDEN_MASK
    XDCFG_CTRL_SPIDEN_MASK "\<lambda>v. sint (drop_bit 5 v)" 1
  by unfold_locales (simp_all add: xdevcfg_set_spiden_def xdevcfg_show_spiden_status_def attr_defs)

interpretation spniden: bit_attribute xdevcfg_set_spniden xdevcfg_show_spniden_status XDCFG_CTRL_OFFSET XDCFG_CTRL_SPNIDEN_MASK
    XDCFG_CTRL_SPNIDEN_MASK "\<lambda>v. sint (drop_bit 6 v)" 1
  by unfold_locales (simp_all add: xdevcfg_set_spniden_def xdevcfg_show_spniden_status_def attr_defs)

interpretation seu: bit_attribute xdevcfg_set_seu xdevcfg_show_seu_status XDCFG_CTRL_OFFSET XDCFG_CTRL_SEU_EN_MASK XDCFG_CTRL_SEU_EN_MASK
    "\<lambda>v. if 8 < v then 1 else 0" 1
  by unfold_locales (simp_all add: xdevcfg_set_seu_def xdevcfg_show_seu_status_def attr_defs)

interpretation aes: bit_attribute xdevcfg_set_aes xdevcfg_show_aes_status XDCFG_CTRL_OFFSET
    "XDCFG_CTRL_PCFG_AES_EN_MASK OR XDCFG_CTRL_PCAP_RATE_EN_MASK" XDCFG_CTRL_PCFG_AES_EN_MASK "\<lambda>v. sint (drop_bit 9 v)" 7
  by unfold_locales (simp_all add: xdevcfg_set_aes_def xdevcfg_show_aes_status_def attr_defs)

interpretation aes_lock: bit_attribute xdevcfg_set_aes_en_lock xdevcfg_show_aes_en_lock_status XDCFG_LOCK_OFFSET XDCFG_LOCK_AES_EN_MASK
    XDCFG_LOCK_AES_EN_MASK "\<lambda>v. sint (drop_bit 3 v)" 1
  by unfold_locales (simp_all add: xdevcfg_set_aes_en_lock_def xdevcfg_show_aes_en_lock_status_def attr_defs)

interpretation seu_lock: bit_attribute xdevcfg_set_seu_lock xdevcfg_show_seu_lock_status XDCFG_LOCK_OFFSET XDCFG_LOCK_SEU_MASK
    XDCFG_LOCK_SEU_MASK "\<lambda>v. sint (drop_bit 2 v)" 1
  by unfold_locales (simp_all add: xdevcfg_set_seu_lock_def xdevcfg_show_seu_lock_status_def attr_defs)

interpretation dbg_lock: bit_attribute xdevcfg_set_dbg_lock xdevcfg_show_dbg_lock_status XDCFG_LOCK_OFFSET XDCFG_LOCK_DBG_MASK
    XDCFG_LOCK_DBG_MASK sint 1
  by unfold_locales (simp_all add: xdevcfg_set_dbg_lock_def xdevcfg_show_dbg_lock_status_def attr_defs)

lemma partial_store_then_show:
  assumes "k_strtoul K 10 buf = Parsed b" "b \<le> 1"
  shows "store_shows (xdevcfg_set_is_partial_bitstream K) xdevcfg_show_is_partial_bitstream_status False 1 buf b s"
  using assms u32_le_1 [OF assms(2)] unfolding store_shows_def
  by (auto simp: xdevcfg_set_is_partial_bitstream_def xdevcfg_show_is_partial_bitstream_status_def io_eval Let_def shown_def held_def)

text \<open>The field of the control register an attribute shows, and when storing leaves the attribute as it was: a lock cannot be opened,
  and a locked field does not change.\<close>

definition attr_field :: "string \<Rightarrow> u32" where
  "attr_field nm =
     (if nm = ''enable_aes'' then XDCFG_CTRL_PCFG_AES_EN_MASK else if nm = ''enable_seu'' then XDCFG_CTRL_SEU_EN_MASK
      else if nm = ''enable_sec_dbg_nonin'' then XDCFG_CTRL_SPNIDEN_MASK else if nm = ''enable_sec_dbg_in'' then XDCFG_CTRL_SPIDEN_MASK
      else if nm = ''enable_dbg_nonin'' then XDCFG_CTRL_NIDEN_MASK else if nm = ''enable_dbg_in'' then XDCFG_CTRL_DBGEN_MASK else 0)"

definition attr_stays :: "(u32 \<Rightarrow> u32) \<Rightarrow> u32 \<Rightarrow> string \<Rightarrow> u32 \<Rightarrow> bool" where
  "attr_stays frozen lk nm b =
     (if nm \<in> {''dbg_lock'', ''seu_lock'', ''aes_en_lock''} then b = 0 else frozen lk AND attr_field nm \<noteq> 0)"

definition attr_ok :: "kern \<Rightarrow> (u32 \<Rightarrow> u32) \<Rightarrow> string \<Rightarrow> u32 \<Rightarrow> 'a devcfg_scheme \<Rightarrow>
    string \<times> ('a devcfg_scheme, int \<times> string) io \<times> (string \<Rightarrow> ('a devcfg_scheme, int) io) option \<Rightarrow> bool" where
  "attr_ok K frozen buf b s a = (case a of (nm, shw, None) \<Rightarrow> True | (nm, shw, Some sto) \<Rightarrow> nm \<noteq> ''enable_dap'' \<longrightarrow>
     store_shows sto shw (attr_stays frozen (lock_of K (klog s)) nm b) (if nm = ''enable_aes'' then 7 else 1) buf b s)"

lemma attr_okI:
  assumes "store_shows sto shw keep on buf b s" "keep = attr_stays frozen (lock_of K (klog s)) nm b"
    "on = (if nm = ''enable_aes'' then 7 else 1)"
  shows "attr_ok K frozen buf b s (nm, shw, Some sto)"
  using assms by (simp add: attr_ok_def)

lemma single_bit: "x AND push_bit n 1 \<in> {0, push_bit n 1 :: u32}"
proof (cases "bit x n")
  case True
  then have "x AND push_bit n 1 = push_bit n 1" by (auto intro!: bit_word_eqI simp: bit_simps)
  then show ?thesis by simp
next
  case False
  then have "x AND push_bit n 1 = 0" by (auto intro!: bit_word_eqI simp: bit_simps)
  then show ?thesis by simp
qed

lemma single_fields:
  "x AND XDCFG_CTRL_DBGEN_MASK \<in> {0, XDCFG_CTRL_DBGEN_MASK}" "x AND XDCFG_CTRL_NIDEN_MASK \<in> {0, XDCFG_CTRL_NIDEN_MASK}"
  "x AND XDCFG_CTRL_SPIDEN_MASK \<in> {0, XDCFG_CTRL_SPIDEN_MASK}" "x AND XDCFG_CTRL_SPNIDEN_MASK \<in> {0, XDCFG_CTRL_SPNIDEN_MASK}"
  "x AND XDCFG_CTRL_SEU_EN_MASK \<in> {0, XDCFG_CTRL_SEU_EN_MASK}"
  using single_bit [of x 3] single_bit [of x 4] single_bit [of x 5] single_bit [of x 6] single_bit [of x 8]
  by (simp_all add: attr_defs)

lemma attrs_ok:
  assumes "clock_ok K" "locked_regs K frozen" "k_strtoul K 10 buf = Parsed b" "b \<le> 1" "\<not> lock_held s"
  shows "list_all (attr_ok K frozen buf b s) (xdevcfg_attrs K)"
proof -
  note c = assms(1,3-5)
  have skip: "attr_ok K frozen buf b s (nm, shw, None)" "attr_ok K frozen buf b s (''enable_dap'', shw, Some sto)" for nm shw sto
    by (simp_all add: attr_ok_def)
  have aes: "frozen k AND XDCFG_CTRL_PCFG_AES_EN_MASK \<in> {0, XDCFG_CTRL_PCFG_AES_EN_MASK}" for k
    using assms(2) by (simp add: locked_regs_def)
  note cs = ctrl_step [OF assms(2)] and ls = lock_step [OF assms(2)]
  note oks = dbgen.store_then_show [OF c cs [OF _ single_fields(1)]] niden.store_then_show [OF c cs [OF _ single_fields(2)]]
      spiden.store_then_show [OF c cs [OF _ single_fields(3)]] spniden.store_then_show [OF c cs [OF _ single_fields(4)]]
      seu.store_then_show [OF c cs [OF _ single_fields(5)]] aes.store_then_show [OF c cs [OF _ aes]] aes_lock.store_then_show [OF c ls]
      seu_lock.store_then_show [OF c ls] dbg_lock.store_then_show [OF c ls] partial_store_then_show [OF assms(3,4), of s]
  show ?thesis
    unfolding xdevcfg_attrs_def list.pred_inject
    by (intro conjI skip list.pred_inject)
      (rule attr_okI, rule oks, (simp add: attr_defs CTRL_FIELDS_def LOCK_FIELDS_def; fail)?,
       simp add: attr_stays_def attr_field_def, simp)+
qed

lemma attr_store_then_show:
  assumes "(nm, shw, Some sto) \<in> set (xdevcfg_attrs K)" "nm \<noteq> ''enable_dap''" "list_all (attr_ok K frozen buf b s) (xdevcfg_attrs K)"
  shows "store_shows sto shw (attr_stays frozen (lock_of K (klog s)) nm b) (if nm = ''enable_aes'' then 7 else 1) buf b s"
  using assms unfolding list_all_iff attr_ok_def by fastforce

text \<open>The debug access port: its bits are or-ed into the register and nothing clears them.\<close>

lemma dap_only_sets:
  assumes "clock_ok K" "k_strtoul K 10 buf = Parsed b" "b \<le> 7" "\<not> lock_held s"
  shows "\<exists>t. xdevcfg_set_dap_en K buf s = Done (int (length buf)) t \<and>
    last_reg XDCFG_CTRL_OFFSET (klog t) = Some (reg_next K XDCFG_CTRL_OFFSET s OR (b AND XDCFG_CTRL_DAP_EN_MASK))"
  using assms(1,2,4) leD [OF assms(3)]
  by (simp add: xdevcfg_set_dap_en_def err_clk_def kernel_ops io_eval clock_ok_def xdevcfg_readreg_def xdevcfg_writereg_def reg_next_def)


section \<open>Exporting a clock\<close>

lemma failed_export_leaves_mark:
  assumes "which_fclk 0 fclk_name buf = i" "i < 4" "\<not> fclk_exported s i" "k_ptr K (klog s) (Device_Create (fclk_name ! i)) = Err_Ptr e"
    "\<forall>(j, d) \<in> set (subdevs s). \<exists>en r. d = Data (Suc j) en r \<and> j \<noteq> i"
  shows "\<exists>t. xdevcfg_fclk_export_store K buf s = Done e t \<and> fclk_exported t i \<and>
    stop_of (xdevcfg_fclk_unexport_store buf t) = Some Fault"
proof -
  have m: "\<forall>(j, d) \<in> set l. \<exists>en r. d = Data (Suc j) en r \<and> j \<noteq> i \<Longrightarrow> match_fclk (Suc i) l = Inl Fault" for l
    by (induction "Suc i" l rule: match_fclk.induct) auto
  show ?thesis
    using assms m [OF assms(5)]
    by (simp add: xdevcfg_fclk_export_store_def xdevcfg_fclk_unexport_store_def unexport_def io_eval Let_def log_ev_def)
qed

text \<open>An export that succeeds is undone by the unexport.\<close>

lemma put_data_snoc: "i \<notin> fst ` set l \<Longrightarrow> put_data i d (l @ [(i, e)]) = l @ [(i, d)]"
  by (induction l) auto

lemma drop_dev_snoc: "i \<notin> fst ` set l \<Longrightarrow> drop_dev i (l @ [(i, e)]) = l"
  by (induction l) auto

lemma match_fclk_snoc:
  "\<forall>(j, d) \<in> set l. \<exists>en r. d = Data (Suc j) en r \<and> j \<noteq> i \<Longrightarrow> match_fclk (Suc i) (l @ [(i, Data (Suc i) en r)]) = Inr (i, en)"
  by (induction "Suc i" l rule: match_fclk.induct) auto

lemma export_unexport:
  assumes "which_fclk 0 fclk_name buf = i" "i < 4" "\<not> fclk_exported s i"
    "\<forall>l. k_rc K l (Clk_Prepare (Suc i)) = 0 \<and> k_rc K l (Sysfs_Create (fclk_name ! i)) = 0"
    "\<forall>l n. \<exists>a. k_ptr K l (Device_Create n) = Good a" "\<forall>l n. \<exists>a. k_ptr K l (Kzalloc n) = Good a"
    "\<forall>(j, d) \<in> set (subdevs s). \<exists>en r. d = Data (Suc j) en r \<and> j \<noteq> i"
  shows "\<exists>t u. xdevcfg_fclk_export_store K buf s = Done (int (length buf)) t \<and> fclk_exported t = (fclk_exported s)(i := True) \<and>
    xdevcfg_fclk_unexport_store buf t = Done (int (length buf)) u \<and> fclk_exported u = fclk_exported s \<and>
    subdevs u = subdevs s \<and> clk_prep u = clk_prep s \<and> clk_on u = clk_on s"
proof -
  obtain g h where g: "k_ptr K l (Device_Create n) = Good (g l n)" and h: "k_ptr K l (Kzalloc n) = Good (h l n)" for l n
    using assms(5,6) by metis
  have n: "i \<notin> fst ` set (subdevs s)" using assms(7) by auto
  have e: "(fclk_exported s)(i := False) = fclk_exported s" using assms(3) by (simp add: fun_upd_idem)
  show ?thesis
    using assms(1-4) n e match_fclk_snoc [OF assms(7), of False 0]
    by (simp add: xdevcfg_fclk_export_store_def xdevcfg_fclk_unexport_store_def unexport_def io_eval kernel_ops Let_def log_ev_def g h
        put_data_snoc drop_dev_snoc)
qed


section \<open>Properties\<close>

text \<open>A controller with the locks the comments of the driver describe.\<close>

definition comment_frozen :: "u32 \<Rightarrow> u32" where
  "comment_frozen lk =
     (if lk AND XDCFG_LOCK_AES_EN_MASK \<noteq> 0 then XDCFG_CTRL_PCFG_AES_EN_MASK else 0) OR
     (if lk AND XDCFG_LOCK_SEU_MASK \<noteq> 0 then XDCFG_CTRL_SEU_EN_MASK else 0) OR
     (if lk AND XDCFG_LOCK_DBG_MASK \<noteq> 0
      then XDCFG_CTRL_DAP_EN_MASK OR XDCFG_CTRL_DBGEN_MASK OR XDCFG_CTRL_NIDEN_MASK OR XDCFG_CTRL_SPNIDEN_MASK else 0)"

fun lock_val :: "kev list \<Rightarrow> u32" where
  "lock_val [] = 0"
| "lock_val (Write_Reg p v # l) = (if p = XDCFG_LOCK_OFFSET then lock_val l OR (v AND LOCK_FIELDS) else lock_val l)"
| "lock_val (_ # l) = lock_val l"

fun ctrl_val :: "kev list \<Rightarrow> u32" where
  "ctrl_val [] = 0"
| "ctrl_val (Write_Reg p v # l) =
     (if p = XDCFG_CTRL_OFFSET
      then (ctrl_val l AND comment_frozen (lock_val l)) OR (v AND CTRL_FIELDS AND NOT (comment_frozen (lock_val l))) else ctrl_val l)"
| "ctrl_val (_ # l) = ctrl_val l"

definition lock_kernel :: kern where
  "lock_kernel = bench_kernel\<lparr>k_val := \<lambda>l e. case e of
     Read_Reg p \<Rightarrow> if p = XDCFG_CTRL_OFFSET then ctrl_val l else if p = XDCFG_LOCK_OFFSET then lock_val l else 0 | _ \<Rightarrow> 0\<rparr>"

lemma lock_val_field [simp]: "lock_val l AND LOCK_FIELDS = lock_val l"
proof (induction l rule: lock_val.induct)
  case (2 p v l)
  then show ?case by (auto simp: bit_eq_iff bit_simps)
qed simp_all

lemma ctrl_val_field [simp]: "ctrl_val l AND CTRL_FIELDS = ctrl_val l"
proof (induction l rule: ctrl_val.induct)
  case (2 p v l)
  then show ?case by (auto simp: bit_eq_iff bit_simps)
qed simp_all

lemma lock_kernel_of [simp]: "ctrl_of lock_kernel l = ctrl_val l" "lock_of lock_kernel l = lock_val l"
  by (simp_all add: ctrl_of_def lock_of_def lock_kernel_def reg_offsets)

lemma lock_kernel_ok: "clock_ok lock_kernel" "locked_regs lock_kernel comment_frozen"
proof -
  show "clock_ok lock_kernel" by (simp add: clock_ok_def lock_kernel_def bench_kernel_def)
  have "(\<forall>v. e \<noteq> Write_Reg XDCFG_CTRL_OFFSET v) \<Longrightarrow> ctrl_val (e # l) = ctrl_val l"
    "(\<forall>v. e \<noteq> Write_Reg XDCFG_LOCK_OFFSET v) \<Longrightarrow> lock_val (e # l) = lock_val l" for e l
    by (cases e; simp)+
  moreover have "comment_frozen k AND XDCFG_CTRL_PCFG_AES_EN_MASK = (if k AND XDCFG_LOCK_AES_EN_MASK \<noteq> 0 then XDCFG_CTRL_PCFG_AES_EN_MASK else 0)" for k
    by (simp add: comment_frozen_def attr_defs XDCFG_CTRL_DAP_EN_MASK_def)
  ultimately show "locked_regs lock_kernel comment_frozen" by (simp add: locked_regs_def)
qed

text \<open>
  (C12) The attributes of the driver read back what was stored, as far as the locks of the hardware allow: for every writable attribute of
  the table except \<^verbatim>\<open>enable_dap\<close>, storing a text that stands for 0 or 1 takes the whole text, and showing the attribute afterwards gives 0
  for a 0 and for a 1 gives 1 (7, the three bits, for \<^verbatim>\<open>enable_aes\<close>), whatever the other bits of the register; except that an attribute
  whose field the lock register protects, and a lock attribute to which 0 is stored, show what they showed before.
  The clock and the spinlock are given back.
\<close>

theorem sysfs_store_show:
  assumes "(nm, shw, Some sto) \<in> set (xdevcfg_attrs K)" "nm \<noteq> ''enable_dap''"
    "clock_ok K" "locked_regs K frozen" "k_strtoul K 10 buf = Parsed b" "b \<le> 1" "\<not> lock_held s"
  shows "\<exists>v u t w. shw s = Done (shown (fmt_d v @ nl)) u \<and> sto buf s = Done (int (length buf)) t \<and> held w = held s \<and>
    shw t = Done (shown (fmt_d (if attr_stays frozen (lock_of K (klog s)) nm b then v
      else if b \<noteq> 0 then (if nm = ''enable_aes'' then 7 else 1) else 0) @ nl)) w"
  using attr_store_then_show [OF assms(1,2) attrs_ok [OF assms(3-7)]] unfolding store_shows_def by blast

theorem sysfs_store_show_witness:
  "(\<exists>t w. xdevcfg_set_aes lock_kernel (''1'' @ nl) devcfg0 = Done 2 t \<and>
      xdevcfg_show_aes_status lock_kernel t = Done (shown (fmt_d 7 @ nl)) w \<and> held w = held devcfg0) \<and>
    (\<exists>v u t w. xdevcfg_show_dbgen_status lock_kernel (devcfg0\<lparr>klog := [Write_Reg XDCFG_LOCK_OFFSET 1]\<rparr>) = Done (shown (fmt_d v @ nl)) u \<and>
      xdevcfg_set_dbgen lock_kernel (''1'' @ nl) (devcfg0\<lparr>klog := [Write_Reg XDCFG_LOCK_OFFSET 1]\<rparr>) = Done 2 t \<and>
      xdevcfg_show_dbgen_status lock_kernel t = Done (shown (fmt_d v @ nl)) w)"
proof -
  let ?s = "devcfg0\<lparr>klog := [Write_Reg XDCFG_LOCK_OFFSET 1]\<rparr>"
  have b: "k_strtoul lock_kernel 10 (''1'' @ nl) = Parsed 1" by (simp add: lock_kernel_def bench_kernel_def)
  have h: "\<not> lock_held devcfg0" "\<not> lock_held ?s" "int (length (''1'' @ nl)) = 2" by (simp_all add: devcfg0_def)
  have n: "\<not> attr_stays comment_frozen (lock_of lock_kernel (klog devcfg0)) ''enable_aes'' 1"
    "attr_stays comment_frozen (lock_of lock_kernel (klog ?s)) ''enable_dbg_in'' 1"
    by (simp_all add: attr_stays_def attr_field_def devcfg0_def comment_frozen_def attr_defs XDCFG_CTRL_DAP_EN_MASK_def LOCK_FIELDS_def)
  have m: "(''enable_aes'', xdevcfg_show_aes_status lock_kernel, Some (xdevcfg_set_aes lock_kernel)) \<in> set (xdevcfg_attrs lock_kernel)"
    "(''enable_dbg_in'', xdevcfg_show_dbgen_status lock_kernel, Some (xdevcfg_set_dbgen lock_kernel)) \<in> set (xdevcfg_attrs lock_kernel)"
    by (simp_all add: xdevcfg_attrs_def)
  from sysfs_store_show [OF m(1) _ lock_kernel_ok b _ h(1)] sysfs_store_show [OF m(2) _ lock_kernel_ok b _ h(2)]
  show ?thesis unfolding h(3) by (simp only: n if_True if_False) auto
qed

text \<open>
  Exporting a clock and withdrawing it: with every request granted the two calls succeed and leave the clocks, the
  sub-devices and the table of exported clocks as they were.  When the sub-device cannot be created the export returns the
  error but keeps the clock marked as exported, and the next attempt to withdraw it follows an invalid pointer.
\<close>

theorem fclk_export_unexport:
  assumes "which_fclk 0 fclk_name buf = i" "i < 4" "\<not> fclk_exported s i"
    "\<forall>(j, d) \<in> set (subdevs s). \<exists>en r. d = Data (Suc j) en r \<and> j \<noteq> i"
    "\<forall>l. k_rc K l (Clk_Prepare (Suc i)) = 0 \<and> k_rc K l (Sysfs_Create (fclk_name ! i)) = 0"
    "\<forall>l n. \<exists>a. k_ptr K l (Device_Create n) = Good a" "\<forall>l n. \<exists>a. k_ptr K l (Kzalloc n) = Good a"
    "k_ptr K' (klog s) (Device_Create (fclk_name ! i)) = Err_Ptr e"
  shows "(\<exists>t u. xdevcfg_fclk_export_store K buf s = Done (int (length buf)) t \<and> fclk_exported t = (fclk_exported s)(i := True) \<and>
      xdevcfg_fclk_unexport_store buf t = Done (int (length buf)) u \<and> fclk_exported u = fclk_exported s \<and>
      subdevs u = subdevs s \<and> clk_prep u = clk_prep s \<and> clk_on u = clk_on s) \<and>
    (\<exists>t. xdevcfg_fclk_export_store K' buf s = Done e t \<and> fclk_exported t i \<and>
      stop_of (xdevcfg_fclk_unexport_store buf t) = Some Fault)"
  using export_unexport [OF assms(1-3,5-7,4)] failed_export_leaves_mark [OF assms(1-3,8,4)] by blast

theorem fclk_export_unexport_witness:
  "(\<exists>t u. xdevcfg_fclk_export_store bench_kernel ''fclk2'' devcfg0 = Done 5 t \<and>
      xdevcfg_fclk_unexport_store ''fclk2'' t = Done 5 u \<and> clk_prep u = clk_prep devcfg0) \<and>
    (\<exists>t. xdevcfg_fclk_export_store (bench_kernel\<lparr>k_ptr := \<lambda>l e. Err_Ptr (- ENOMEM)\<rparr>) ''fclk2'' devcfg0 = Done (- ENOMEM) t \<and>
      stop_of (xdevcfg_fclk_unexport_store ''fclk2'' t) = Some Fault)"
proof -
  have w: "which_fclk 0 fclk_name ''fclk2'' = 2" by (simp add: fclk_name_def)
  have k: "\<forall>l. k_rc bench_kernel l (Clk_Prepare (Suc 2)) = 0 \<and> k_rc bench_kernel l (Sysfs_Create (fclk_name ! 2)) = 0"
    "\<forall>l n. \<exists>a. k_ptr bench_kernel l (Device_Create n) = Good a" "\<forall>l n. \<exists>a. k_ptr bench_kernel l (Kzalloc n) = Good a"
    "k_ptr (bench_kernel\<lparr>k_ptr := \<lambda>l e. Err_Ptr (- ENOMEM)\<rparr>) (klog devcfg0) (Device_Create (fclk_name ! 2)) = Err_Ptr (- ENOMEM)"
    by (simp_all add: bench_kernel_def)
  have d: "\<not> fclk_exported devcfg0 2" "\<forall>(j, d) \<in> set (subdevs devcfg0). \<exists>en r. d = Data (Suc j) en r \<and> j \<noteq> 2"
    by (simp_all add: devcfg0_def)
  have "int (length ''fclk2'') = 5" by simp
  with fclk_export_unexport [OF w _ d k] show ?thesis by fastforce
qed

end
