(* ===== verification/Devcfg_Probe.thy ===== *)
theory Devcfg_Probe
  imports Devcfg_Sysfs
begin

text \<open>
  Binding the configuration driver to its device and removing it (\<^verbatim>\<open>xilinx_devcfg.c\<close> lines 1956 to 2137).  The labels
  \<^verbatim>\<open>failed8\<close> to \<^verbatim>\<open>failed5\<close> fall through into each other; each is one definition that ends in the next.
\<close>

definition failed5 :: "int \<Rightarrow> ('a devcfg_scheme, int) io" where
  "failed5 retval = thn (clk_disable_unprepare 0) (ret retval)"

definition failed6 :: "int \<Rightarrow> ('a devcfg_scheme, int) io" where
  "failed6 retval = thn (act Chrdev_Free) (failed5 retval)"

definition failed7 :: "int \<Rightarrow> ('a devcfg_scheme, int) io" where
  "failed7 retval = thn (act (Class_Destroy ''xdevcfg'')) (failed6 retval)"

definition failed8 :: "int \<Rightarrow> ('a devcfg_scheme, int) io" where
  "failed8 retval = thn (act (Device_Destroy ''xdevcfg'')) (failed7 retval)"

text \<open>Unlocking and configuring the port (lines 2029 to 2049).\<close>

definition setup_port :: "kern \<Rightarrow> ('a devcfg_scheme, unit) io" where
  "setup_port K =
     thn (xdevcfg_writereg XDCFG_UNLOCK_OFFSET 0x757BDF0D)
    (bnd (xdevcfg_readreg K XDCFG_CTRL_OFFSET) (\<lambda>ctrlreg.
     thn (xdevcfg_writereg XDCFG_CTRL_OFFSET
            ((ctrlreg AND NOT XDCFG_CTRL_PCAP_PR_MASK) OR (XDCFG_CTRL_PCFG_PROG_B_MASK OR XDCFG_CTRL_PCAP_MODE_MASK)))
    (bnd (xdevcfg_readreg K XDCFG_MCTRL_OFFSET) (\<lambda>ctrlreg.
     xdevcfg_writereg XDCFG_MCTRL_OFFSET (NOT XDCFG_MCTRL_PCAP_LPBK_MASK AND ctrlreg)))))"

text \<open>The character device, its class, its node and its attributes (lines 2052 to 2093).\<close>

definition register_files :: "kern \<Rightarrow> ('a devcfg_scheme, int) io" where
  "register_files K =
     bnd (call K Chrdev_Alloc) (\<lambda>retval. if retval < 0 then failed5 retval else
     bnd (call K Cdev_Add) (\<lambda>retval. if retval \<noteq> 0 then failed6 retval else
     bnd (acquire K (Class_Create ''xdevcfg'')) (\<lambda>p. case p of
       Err_Ptr e \<Rightarrow> failed6 retval
     | _ \<Rightarrow>
     bnd (acquire K (Device_Create ''xdevcfg'')) (\<lambda>d. case d of
       Err_Ptr e \<Rightarrow> failed7 retval
     | _ \<Rightarrow>
     bnd (call K (Sysfs_Create ''xdevcfg'')) (\<lambda>retval.
       if retval \<noteq> 0 then thn (act Cdev_Del) (failed8 retval)
       else thn (xdevcfg_fclk_init K) (thn (clk_disable 0) (ret 0)))))))"

definition xdevcfg_drv_probe :: "kern \<Rightarrow> ('a devcfg_scheme, int) io" where
  "xdevcfg_drv_probe K =
     bnd (acquire K (Regmap_Lookup ''xlnx,zynq-slcr'')) (\<lambda>p. case p of
       Err_Ptr e \<Rightarrow> ret (- ENODEV)
     | _ \<Rightarrow>
     bnd (acquire K (Kzalloc ''xdevcfg'')) (\<lambda>p. case p of
       Null_Ptr \<Rightarrow> ret (- ENOMEM)
     | _ \<Rightarrow>
     bnd (acquire K (Ioremap 0 0)) (\<lambda>p. case p of
       Err_Ptr e \<Rightarrow> ret e
     | _ \<Rightarrow>
     bnd (call K Get_Irq) (\<lambda>irq.
     bnd (call K (Request_Irq irq)) (\<lambda>retval. if retval \<noteq> 0 then ret retval else
     thn (modify (\<lambda>s. s\<lparr>drv_bound := True, is_open := False, is_partial_bitstream := False, dma_done := False, error_status := 0,
                         ep107 := False, endian_swap := False, residue := [], fclk_exported := (\<lambda>i. False)\<rparr>))
    (bnd (acquire K (Clk_Get 0)) (\<lambda>p. case p of
       Err_Ptr e \<Rightarrow> ret e
     | _ \<Rightarrow>
     bnd (clk_prepare_enable K 0) (\<lambda>retval. if retval \<noteq> 0 then ret retval else
     thn (modify (\<lambda>s. s\<lparr>ep107 := (k_compatible K = Some ''xlnx,zynq-ep107'')\<rparr>))
    (thn (setup_port K)
         (register_files K))))))))))"

definition xdevcfg_drv_remove :: "('a devcfg_scheme, int) io" where
  "xdevcfg_drv_remove =
     bnd (gets drv_bound) (\<lambda>b. if \<not> b then ret (- ENODEV) else
     thn (act Chrdev_Free)
    (thn (act (Sysfs_Remove ''xdevcfg''))
    (thn xdevcfg_fclk_remove
    (thn (act (Device_Destroy ''xdevcfg''))
    (thn (act (Class_Destroy ''xdevcfg''))
    (thn (act Cdev_Del)
    (thn (clk_unprepare 0) (ret 0))))))))"

section \<open>A class that cannot be created\<close>

lemma probe_class_failure:
  assumes "\<forall>l e. k_rc K l e = 0" "\<forall>l n. k_ptr K l (Class_Create n) = Err_Ptr (- ENOMEM)"
    "\<forall>l e. (\<forall>n. e \<noteq> Class_Create n) \<longrightarrow> (\<exists>a. k_ptr K l e = Good a)"
  shows "\<exists>t. xdevcfg_drv_probe K s = Done 0 t \<and> clk_prep t = clk_prep s \<and> Cdev_Add \<in> set (klog t) \<and> drv_bound t"
proof -
  obtain g where g: "(\<forall>n. e \<noteq> Class_Create n) \<Longrightarrow> k_ptr K l e = Good (g l e)" for l e
    using assms(3) by metis
  show ?thesis
    using assms(1,2)
    by (simp add: xdevcfg_drv_probe_def register_files_def setup_port_def failed6_def failed5_def io_eval kernel_ops
        xdevcfg_readreg_def xdevcfg_writereg_def log_ev_def g)
qed

section \<open>Property\<close>

text \<open>
  A failure the probe function hides: when the class of the device cannot be created, \<^verbatim>\<open>xdevcfg_drv_probe\<close> undoes its
  clock and its device number but returns 0, the value left over from the registration of the character device, which stays
  registered: the driver is bound to a device without a node.
\<close>

theorem probe_hides_class_failure:
  assumes "\<forall>l e. k_rc K l e = 0" "\<forall>l n. k_ptr K l (Class_Create n) = Err_Ptr (- ENOMEM)"
    "\<forall>l e. (\<forall>n. e \<noteq> Class_Create n) \<longrightarrow> (\<exists>a. k_ptr K l e = Good a)"
  shows "\<exists>t. xdevcfg_drv_probe K s = Done 0 t \<and> clk_prep t = clk_prep s \<and> Cdev_Add \<in> set (klog t) \<and> drv_bound t"
  by (rule probe_class_failure [OF assms])

theorem probe_hides_class_failure_witness:
  "\<exists>t. xdevcfg_drv_probe (bench_kernel\<lparr>k_ptr := \<lambda>l e. case e of Class_Create n \<Rightarrow> Err_Ptr (- ENOMEM) | _ \<Rightarrow> Good 1\<rparr>) devcfg0 = Done 0 t \<and>
    clk_prep t = clk_prep devcfg0 \<and> Cdev_Add \<in> set (klog t) \<and> drv_bound t"
  by (rule probe_hides_class_failure) (auto simp: bench_kernel_def split: kev.split)

end
