(* ===== verification/Devcfg_Transfer.thy ===== *)
theory Devcfg_Transfer
  imports Devcfg
begin

text \<open>
  The character device of the configuration driver: every busy-wait loop ends and every path through \<^verbatim>\<open>write\<close>, \<^verbatim>\<open>read\<close> and
  \<^verbatim>\<open>open\<close> gives back the clock, the mutex and the buffer it took; and the words that reach the port do not depend on how a
  program cuts the rest of its bitstream into calls of \<^verbatim>\<open>write\<close>, once the first piece has the synchronisation word.
\<close>

section \<open>Busy waiting ends\<close>

lemma irq_point_ok:
  assumes "\<not> lock_held s"
  shows "\<exists>t x. irq_point K s = Done () t \<and> held t = held s \<and> klog t = x @ klog s \<and> ticks x = 0 \<and> length x \<le> 4"
proof (cases "k_irq K (klog s)")
  case True
  let ?v = "k_val K (Spin_Lock # klog s) (Read_Reg XDCFG_INT_STS_OFFSET)"
  have "\<exists>t. irq_point K s = Done () t \<and> held t = held s \<and>
    klog t = [Spin_Unlock, Write_Reg XDCFG_INT_STS_OFFSET ?v, Read_Reg XDCFG_INT_STS_OFFSET, Spin_Lock] @ klog s"
    using assms True
    by (auto simp: irq_point_def xdevcfg_irq_def io_eval kernel_ops xdevcfg_readreg_def xdevcfg_writereg_def held_def log_ev_def)
  then obtain t where t: "irq_point K s = Done () t" "held t = held s"
    "klog t = [Spin_Unlock, Write_Reg XDCFG_INT_STS_OFFSET ?v, Read_Reg XDCFG_INT_STS_OFFSET, Spin_Lock] @ klog s" by blast
  show ?thesis by (rule exI [of _ t], rule exI, intro conjI, rule t(1), rule t(2), rule t(3)) simp_all
next
  case False
  then show ?thesis by (auto simp: irq_point_def io_eval)
qed

text \<open>A turn of the loop sees the clock at most five events after the turn before, so that the signed comparison is right, and the clock
  has passed the timeout once \<open>P * (hz + 1)\<close> looks have been taken.\<close>

lemma wait_dma_returns:
  assumes "jiffies_run K P T" "\<not> lock_held s" "klog s = m @ l" "T (klog s) \<le> T l + k_hz K + 2 ^ 20" "ticks m \<le> P * Suc (k_hz K)"
    and "P * Suc (k_hz K) < n + ticks m"
  shows "\<exists>w t. wait_dma K n (of_nat (T l) + of_nat (k_hz K)) s = Done w t \<and> held t = held s"
  using assms(2-)
proof (induction n arbitrary: s m)
  case (Suc n)
  from irq_point_ok [OF Suc.prems(1), of K] obtain t x where
    t: "irq_point K s = Done () t" "held t = held s" "klog t = x @ klog s" "ticks x = 0" "length x \<le> 4" by blast
  define d where "d = T (klog t) - T l"
  have "length x * 2 ^ 20 \<le> 4 * 2 ^ 20" using t(5) by simp
  then have "T (klog s) \<le> T (klog t) \<and> T (klog t) \<le> T (klog s) + 4 * 2 ^ 20"
    using jiffies_le [OF assms(1), of "klog s" x] t(3) by simp
  moreover have "T l \<le> T (klog s)" using jiffies_le [OF assms(1), of l m] Suc.prems(2) by simp
  ultimately have d: "T (klog t) = T l + d" "d \<le> k_hz K + 5 * 2 ^ 20"
    using Suc.prems(3) unfolding d_def by linarith+
  have hz: "k_hz K < 2 ^ 30" using assms(1) by (simp add: jiffies_run_def)
  have j: "k_val K (klog t) Read_Jiffies = of_nat (T l) + of_nat d" using assms(1) d(1) by (simp add: jiffies_run_def)
  have a: "time_after (of_nat (T l) + of_nat d) (of_nat (T l) + of_nat (k_hz K)) \<longleftrightarrow> k_hz K < d"
    using hz d(2) by (intro time_after_ticks) simp_all
  have l: "\<not> lock_held (log_ev Read_Jiffies t)" "held (log_ev Read_Jiffies t) = held s"
    using t(2) Suc.prems(1) by (simp_all add: held_def)
  show ?case
  proof (cases "dma_done t \<or> k_hz K < d")
    case True
    then show ?thesis using t j a l by (auto simp: io_eval)
  next
    case False
    have k: "klog t = (x @ m) @ l" using t(3) Suc.prems(2) by simp
    have "ticks (x @ m) < P * Suc (k_hz K)"
      using jiffies_advance [OF assms(1), of "Suc (k_hz K)" "x @ m" l] False d(1) k by (metis add_le_cancel_left not_less not_less_eq_eq)
    moreover have "T (klog (log_ev Read_Jiffies t)) \<le> T l + k_hz K + 2 ^ 20"
    proof -
      have "T (Read_Jiffies # klog t) \<le> T (klog t) + 2 ^ 20" using assms(1) by (simp add: jiffies_run_def)
      with False d(1) show ?thesis by simp
    qed
    moreover have "klog (log_ev Read_Jiffies t) = (Read_Jiffies # x @ m) @ l" using k by simp
    ultimately obtain w u where
      "wait_dma K n (of_nat (T l) + of_nat (k_hz K)) (log_ev Read_Jiffies t) = Done w u" "held u = held s"
      using Suc.IH [OF l(1), of "Read_Jiffies # x @ m"] Suc.prems(5) t(4) l(2) by auto
    then show ?thesis using False t j a by (auto simp: io_eval)
  qed
qed simp

section \<open>What each step holds\<close>

abbreviation holding :: "int \<times> bool \<times> bool \<times> u32 list \<Rightarrow> 'a kst_scheme \<Rightarrow> bool" where
  "holding h s \<equiv> held s = h"

text \<open>Buffers are granted or refused with \<^verbatim>\<open>NULL\<close>, as documented.\<close>

definition dma_sane :: "kern \<Rightarrow> bool" where
  "dma_sane K \<longleftrightarrow> (\<forall>l n e. k_ptr K l (Dma_Alloc n) \<noteq> Err_Ptr e)"

text \<open>The clock and the mutex around the body of an entry point, and the buffer around a transfer: the body runs with them, and
  gives them back.\<close>

lemma ach_entry:
  assumes "achieves (holding (c + 1, True, False, d)) k (\<lambda>_. holding (c, False, False, d))"
  shows "achieves (holding (c, False, False, d))
    (bnd (clk_enable K 0) (\<lambda>r. if r \<noteq> 0 then ret (e r) else
     bnd (mutex_lock_interruptible K) (\<lambda>r. if r \<noteq> 0 then err_clk (e r) else k))) (\<lambda>_. holding (c, False, False, d))"
  unfolding achieves_def
proof (intro allI impI)
  fix s :: "'a kst_scheme"
  assume h: "held s = (c, False, False, d)"
  let ?m = "bnd (clk_enable K 0) (\<lambda>r. if r \<noteq> 0 then ret (e r) else
     bnd (mutex_lock_interruptible K) (\<lambda>r. if r \<noteq> 0 then err_clk (e r) else k))"
  let ?on = "log_ev (Clk_Enable 0) s\<lparr>clk_on := bump 0 1 (clk_on (log_ev (Clk_Enable 0) s))\<rparr>"
  let ?in = "log_ev Mutex_Lock ?on\<lparr>sem_held := True\<rparr>"
  have "held ?in = (c + 1, True, False, d)" using h by (simp add: held_def bump_def log_ev_def)
  with assms obtain x t where k: "k ?in = Done x t" "held t = (c, False, False, d)" by (auto simp: achieves_def)
  show "\<exists>x t. ?m s = Done x t \<and> held t = (c, False, False, d)"
  proof (cases "k_rc K (klog s) (Clk_Enable 0) = 0 \<and> k_rc K (klog ?on) Mutex_Lock = 0")
    case True
    then have "?m s = k ?in" using h by (simp add: clk_enable_def mutex_lock_interruptible_def io_eval held_def)
    then show ?thesis using k by simp
  next
    case False
    then show ?thesis using h
      by (auto simp: clk_enable_def mutex_lock_interruptible_def err_clk_def clk_disable_def act_def io_eval held_def bump_def log_ev_def)
  qed
qed

lemma ach_dma:
  assumes "dma_sane K" "\<And>a. achieves (holding (c, True, l, a # d)) (f a) Q" "achieves (holding (c, True, l, d)) m Q"
  shows "achieves (holding (c, True, l, d))
    (bnd (dma_alloc_coherent K n) (\<lambda>p. case p of Null_Ptr \<Rightarrow> m | Err_Ptr e \<Rightarrow> halt Fault | Good a \<Rightarrow> f a)) Q"
  unfolding achieves_def
proof (intro allI impI)
  fix s :: "'a kst_scheme"
  assume h: "held s = (c, True, l, d)"
  let ?t = "log_ev (Dma_Alloc n) s"
  have t: "held ?t = (c, True, l, d)" "held (?t\<lparr>dma_live := a # dma_live ?t\<rparr>) = (c, True, l, a # d)" for a
    using h by (simp_all add: held_def)
  show "\<exists>x t. bnd (dma_alloc_coherent K n) (\<lambda>p. case p of Null_Ptr \<Rightarrow> m | Err_Ptr e \<Rightarrow> halt Fault | Good a \<Rightarrow> f a) s = Done x t \<and> Q x t"
    using assms(1) achD [OF assms(2) t(2)] achD [OF assms(3) t(1)]
    by (cases "k_ptr K (klog s) (Dma_Alloc n)") (auto simp: dma_alloc_coherent_def io_eval dma_sane_def)
qed

lemma ach_call: "achieves (holding h) (call K e) (\<lambda>r. holding h)"
  by (simp add: achieves_def io_eval held_def)

lemma ach_act: "achieves (holding h) (act e) (\<lambda>_. holding h)"
  by (simp add: achieves_def act_def io_eval held_def)

lemma ach_err_clk: "achieves (holding (c + 1, m, l, d)) (err_clk r) (\<lambda>_. holding (c, m, l, d))"
  by (simp add: achieves_def err_clk_def kernel_ops io_eval held_def bump_def)

lemma ach_err_unlock: "achieves (holding (c + 1, m, l, d)) (err_unlock r) (\<lambda>_. holding (c, False, l, d))"
  by (simp add: achieves_def err_unlock_def err_clk_def kernel_ops io_eval held_def bump_def)

lemma ach_err_free: "achieves (holding (c + 1, m, l, a # d)) (err_free n a r) (\<lambda>_. holding (c, False, l, d))"
  by (simp add: achieves_def err_free_def err_unlock_def err_clk_def kernel_ops io_eval held_def bump_def)

lemma ach_start_write: "achieves (holding h) (start_write a count) (\<lambda>_. holding h)"
  by (simp add: achieves_def start_write_def xdevcfg_writereg_def act_def io_eval held_def log_ev_def)

lemma ach_start_read: "achieves (holding h) (start_read a n) (\<lambda>_. holding h)"
  by (simp add: achieves_def start_read_def xdevcfg_writereg_def act_def io_eval held_def log_ev_def)

lemma ach_transfer_status: "achieves (holding h) (transfer_status K) (\<lambda>_. holding h)"
  by (simp add: achieves_def transfer_status_def xdevcfg_readreg_def xdevcfg_writereg_def act_def io_eval held_def)

lemma ach_await:
  assumes "clock_runs K P" "P * Suc (k_hz K) \<le> n"
    and f: "\<And>w. achieves (holding (c, m, False, d)) (f w) Q"
  shows "achieves (holding (c, m, False, d)) (bnd (fetch K Read_Jiffies) (\<lambda>j. bnd (wait_dma K n (j + of_nat (k_hz K))) f)) Q"
  unfolding achieves_def
proof (intro allI impI)
  fix s :: "'a devcfg_scheme"
  assume h: "held s = (c, m, False, d)"
  let ?s = "log_ev Read_Jiffies s"
  obtain T where T: "jiffies_run K P T" using assms(1) by (auto simp: clock_runs_def)
  have "T (Read_Jiffies # klog s) \<le> T (klog s) + 2 ^ 20" using T by (simp add: jiffies_run_def)
  moreover have "1 \<le> P * Suc (k_hz K)" using jiffies_period [OF T] by simp
  ultimately have "\<exists>w t. wait_dma K n (of_nat (T (klog s)) + of_nat (k_hz K)) ?s = Done w t \<and> held t = held ?s"
    using assms(2) h by (intro wait_dma_returns [OF T, of ?s "[Read_Jiffies]"]) (simp_all add: held_def)
  moreover have "k_val K (klog s) Read_Jiffies = of_nat (T (klog s))" using T by (simp add: jiffies_run_def)
  moreover have "held ?s = (c, m, False, d)" using h by (simp add: held_def)
  ultimately show "\<exists>x t. bnd (fetch K Read_Jiffies) (\<lambda>j. bnd (wait_dma K n (j + of_nat (k_hz K))) f) s = Done x t \<and> Q x t"
    using achD [OF f] by (fastforce simp: io_eval)
qed

lemma ach_write_tail:
  assumes "clock_runs K P" "P * Suc (k_hz K) \<le> n"
  shows "achieves (holding (c + 1, m, False, a # d))
    (thn (start_write a count)
        (bnd (fetch K Read_Jiffies) (\<lambda>j.
         bnd (wait_dma K n (j + of_nat (k_hz K))) (\<lambda>w. if w \<noteq> 0 then err_free len a (w, ppos) else
         bnd (transfer_status K) (\<lambda>status.
         if status \<noteq> 0 then err_free len a (- EFAULT, ppos) else err_free len a r)))))
    (\<lambda>_. holding (c, False, False, d))"
  by (rule ach_thn [OF ach_start_write], rule ach_await [OF assms], rule ach_if, rule ach_err_free,
      rule ach_bnd [OF ach_transfer_status], rule ach_if) (rule ach_err_free)+

lemma write_returns:
  assumes "clock_runs K P" "P * Suc (k_hz K) \<le> n" "dma_sane K"
  shows "achieves (holding (c, False, False, d)) (xdevcfg_write K n buf ppos) (\<lambda>_. holding (c, False, False, d))"
  unfolding xdevcfg_write_def Let_def
proof (rule ach_entry, rule ach_gets, rule ach_dma [OF assms(3)], rule ach_bnd [OF ach_call], rule ach_if, goal_cases)
  case (1 res a left)
  show ?case by (rule ach_err_free)
next
  case (2 res a left)
  have m: "achieves (holding h) (modify (\<lambda>s. s\<lparr>residue := r, endian_swap := w\<rparr>)) (\<lambda>_. holding h)" for h r w
    by (rule ach_modify) (simp add: held_def)
  show ?case
    unfolding split_beta
    by (rule ach_gets, rule ach_thn [OF m], rule ach_thn [OF ach_act], rule ach_write_tail [OF assms(1,2)])
next
  case (3 res)
  show ?case by (rule ach_err_unlock)
qed

lemma read_returns:
  assumes "clock_runs K P" "P * Suc (k_hz K) \<le> n" "dma_sane K"
  shows "achieves (holding (c, False, False, d)) (xdevcfg_read K n count) (\<lambda>_. holding (c, False, False, d))"
  unfolding xdevcfg_read_def
proof (rule ach_entry, rule ach_dma [OF assms(3)], rule ach_thn [OF ach_start_read], rule ach_await [OF assms(1,2)], rule ach_if, goal_cases)
  case (1 a x w)
  show ?case by (rule ach_err_free)
next
  case (2 a x w)
  show ?case
    by (rule ach_bnd [OF ach_transfer_status], rule ach_if, rule ach_err_free,
        rule ach_bnd [OF ach_call], rule ach_err_free)
next
  case 3
  show ?case by (rule ach_err_unlock)
qed

section \<open>The stream that reaches the port\<close>

text \<open>What the memory behind the coherent buffer at a bus address holds.\<close>

fun buffer_at :: "u32 \<Rightarrow> kev list \<Rightarrow> u8 list option" where
  "buffer_at a [] = None"
| "buffer_at a (Dma_Buf b d # l) = (if a = b then Some d else buffer_at a l)"
| "buffer_at a (Dma_Free n b # l) = (if a = b then None else buffer_at a l)"
| "buffer_at a (_ # l) = buffer_at a l"

text \<open>What the controller fetches when it is started: as many words as the source length register says, from the address in the source
  address register, whose two low bits are flags; the data goes to the configuration port if the destination is the invalid address.
  Outside the buffer it reads zeros, and without a buffer at the address it reads nothing.\<close>

definition fetched :: "kev list \<Rightarrow> u8 list" where
  "fetched l =
     (case (last_reg XDCFG_DMA_SRC_ADDR_OFFSET l, last_reg XDCFG_DMA_SRC_LEN_OFFSET l, last_reg XDCFG_DMA_DEST_ADDR_OFFSET l) of
        (Some a, Some n, Some p) \<Rightarrow>
          (if p = XDCFG_DMA_INVALID_ADDRESS
           then case buffer_at (a AND NOT 3) l of None \<Rightarrow> [] | Some d \<Rightarrow> take (4 * unat n) (d @ replicate (4 * unat n) 0)
           else [])
      | _ \<Rightarrow> [])"

text \<open>The bytes of the transfers so far, in order: the write to the destination length register starts one.\<close>

fun sent :: "kev list \<Rightarrow> u8 list" where
  "sent [] = []"
| "sent (Write_Reg p v # l) = sent l @ (if p = XDCFG_DMA_DEST_LEN_OFFSET then fetched l else [])"
| "sent (_ # l) = sent l"

lemmas dma_regs = XDCFG_DMA_SRC_ADDR_OFFSET_def XDCFG_DMA_SRC_LEN_OFFSET_def XDCFG_DMA_DEST_ADDR_OFFSET_def
  XDCFG_DMA_DEST_LEN_OFFSET_def XDCFG_INT_STS_OFFSET_def XDCFG_INT_MASK_OFFSET_def

lemma page_flags:
  assumes "a AND 0xFFF = (0 :: u32)"
  shows "a AND NOT 3 = a" "(a + 1) AND NOT 3 = a"
proof -
  have b: "\<not> bit a i" if "i < 12" for i
  proof -
    have "bit (a AND 0xFFF) i = (bit a i \<and> bit (mask 12 :: u32) i)" by (simp add: bit_and_iff mask_eq_exp_minus_1)
    with assms that show ?thesis by (simp add: bit_mask_iff)
  qed
  have m: "(3 :: u32) = mask 2" by (simp add: mask_eq_exp_minus_1)
  show "a AND NOT 3 = a" unfolding m
    by (rule bit_word_eqI) (use b in \<open>auto simp: bit_simps\<close>)
  have "\<not> bit a 0" using b [of 0] by simp
  then have "a + 1 = a OR 1" by (intro disjunctive_add) (metis bit_1_iff)
  then show "(a + 1) AND NOT 3 = a" unfolding m
    by (simp only:) (rule bit_word_eqI, use b in \<open>auto simp: bit_simps\<close>)
qed

text \<open>A kernel that grants every request, with buffers on page boundaries, and a controller that interrupts with the status \<open>st\<close> at the
  first look, the transfer being complete.\<close>

definition completing :: "kern \<Rightarrow> u32 \<Rightarrow> bool" where
  "completing K st \<longleftrightarrow> (\<forall>l e. k_rc K l e = 0) \<and> (\<forall>l n. \<exists>a. k_ptr K l (Dma_Alloc n) = Good a \<and> a AND 0xFFF = 0) \<and> (\<forall>l. k_irq K l) \<and>
     (\<forall>l. k_val K l (Read_Reg XDCFG_INT_STS_OFFSET) = st) \<and> st AND XDCFG_IXR_D_P_DONE_MASK = XDCFG_IXR_D_P_DONE_MASK"

lemma whole_le: "whole S \<le> length S" and whole_dvd: "4 dvd whole S"
  by (simp_all add: whole_def dvd_minus_mod)

lemma swab_words_length [simp]: "length (swab_words d) = length d"
  by (induction d rule: swab_words.induct) simp_all

lemma prepare_lengths:
  assumes "prepare ppos res swap buf = (data, res', sw)"
  shows "4 dvd length data" "length data + length res' \<le> length res + length buf"
proof -
  obtain kbuf where k: "strip_header ppos swap (res @ buf) = (kbuf, sw)" "length data = whole kbuf" "length res' = length kbuf - whole kbuf"
    using assms by (auto simp: prepare_def Let_def whole_def split: prod.splits if_splits)
  have "length kbuf \<le> length res + length buf"
    using k(1) by (auto simp: strip_header_def split: if_splits option.splits)
  with k whole_le [of kbuf] whole_dvd [of kbuf] show "4 dvd length data" "length data + length res' \<le> length res + length buf" by simp_all
qed

text \<open>The registers programmed by a call make the controller fetch exactly the words of this call.\<close>

lemma fetched_data:
  assumes "a AND 0xFFF = 0" "4 dvd length data" "length data < 2 ^ 32"
  shows "fetched (Write_Reg XDCFG_DMA_SRC_LEN_OFFSET (of_nat (if length data mod 4 \<noteq> 0 then length data div 4 + 1 else length data div 4)) #
    Write_Reg XDCFG_DMA_DEST_ADDR_OFFSET XDCFG_DMA_INVALID_ADDRESS #
    Write_Reg XDCFG_DMA_SRC_ADDR_OFFSET (if length data < 0x1000 then a + 1 else a) #
    Write_Reg XDCFG_INT_MASK_OFFSET v # Write_Reg XDCFG_INT_STS_OFFSET w # Dma_Buf a (buffer_bytes kbuf data res') # l) = data"
proof -
  have n: "unat (of_nat (length data div 4) :: u32) = length data div 4"
    using assms(3) by (simp add: unat_of_nat take_bit_nat_eq_self_iff div_less_iff_less_mult)
  then have "4 * unat (of_nat (length data div 4) :: u32) = length data" using assms(2) by simp
  then show ?thesis using assms(2) page_flags [OF assms(1)]
    by (simp add: fetched_def dma_regs buffer_bytes_def dvd_eq_mod_eq_0)
qed

lemma write_completed:
  assumes "completing K st" "idle s" "prepare ppos (residue s) (endian_swap s) buf = (data, res', sw)"
  shows "\<exists>t. xdevcfg_write K (Suc n) buf ppos s =
      Done (if st AND XDCFG_IXR_ERROR_FLAGS_MASK = XDCFG_IXR_ERROR_FLAGS_MASK then (- EFAULT, ppos)
            else (int (length buf), ppos + length buf)) t \<and>
    idle t \<and> residue t = res' \<and> endian_swap t = sw \<and>
    (length buf + length (residue s) < 2 ^ 32 \<longrightarrow> sent (klog t) = sent (klog s) @ data)"
proof -
  have rc: "k_rc K l e = 0" "k_irq K l" and st: "k_val K l (Read_Reg XDCFG_INT_STS_OFFSET) = st"
      "st AND XDCFG_IXR_D_P_DONE_MASK = XDCFG_IXR_D_P_DONE_MASK" for l e
    using assms(1) by (simp_all add: completing_def)
  obtain a where a: "k_ptr K (Mutex_Lock # Clk_Enable 0 # klog s) (Dma_Alloc (length buf + length (residue s))) = Good a" "a AND 0xFFF = 0"
    using assms(1) unfolding completing_def by blast
  have len: "4 dvd length data" "length buf + length (residue s) < 2 ^ 32 \<Longrightarrow> length data < 2 ^ 32"
    using prepare_lengths [OF assms(3)] by simp_all
  have off: "XDCFG_INT_STS_OFFSET \<noteq> XDCFG_DMA_DEST_LEN_OFFSET" "XDCFG_INT_MASK_OFFSET \<noteq> XDCFG_DMA_DEST_LEN_OFFSET"
    "XDCFG_DMA_SRC_ADDR_OFFSET \<noteq> XDCFG_DMA_DEST_LEN_OFFSET" "XDCFG_DMA_SRC_LEN_OFFSET \<noteq> XDCFG_DMA_DEST_LEN_OFFSET"
    "XDCFG_DMA_DEST_ADDR_OFFSET \<noteq> XDCFG_DMA_DEST_LEN_OFFSET" by (simp_all add: dma_regs)
  show ?thesis
    using assms(2-) a(1) fetched_data [OF a(2) len(1)] len(2)
    by (simp add: xdevcfg_write_def io_eval kernel_ops rc st Let_def start_write_def xdevcfg_writereg_def xdevcfg_readreg_def
        irq_point_def xdevcfg_irq_def transfer_status_def err_free_def err_unlock_def err_clk_def log_ev_def idle_def off
        del: of_nat_Suc One_nat_def cong: if_cong)
qed

definition granting :: "kern \<Rightarrow> bool" where
  "granting K \<longleftrightarrow> (\<exists>st. completing K st \<and> st AND XDCFG_IXR_ERROR_FLAGS_MASK \<noteq> XDCFG_IXR_ERROR_FLAGS_MASK)"

lemma write_granted:
  assumes "granting K" "idle s" "prepare ppos (residue s) (endian_swap s) buf = (data, res', sw)"
    "length buf + length (residue s) < 2 ^ 32"
  shows "\<exists>t. xdevcfg_write K (Suc n) buf ppos s = Done (int (length buf), ppos + length buf) t \<and>
    idle t \<and> residue t = res' \<and> endian_swap t = sw \<and> sent (klog t) = sent (klog s) @ data"
proof -
  obtain st where st: "completing K st" "st AND XDCFG_IXR_ERROR_FLAGS_MASK \<noteq> XDCFG_IXR_ERROR_FLAGS_MASK"
    using assms(1) unfolding granting_def by blast
  from write_completed [OF st(1) assms(2,3), of n] st(2) assms(4) show ?thesis by auto
qed

text \<open>A program that writes a file in pieces.\<close>

fun write_all :: "kern \<Rightarrow> nat \<Rightarrow> u8 list list \<Rightarrow> nat \<Rightarrow> ('a devcfg_scheme, nat) io" where
  "write_all K n [] ppos = ret ppos"
| "write_all K n (buf # bufs) ppos = bnd (xdevcfg_write K n buf ppos) (\<lambda>(status, p). write_all K n bufs p)"

definition swab_if :: "bool \<Rightarrow> u8 list \<Rightarrow> u8 list" where
  "swab_if sw d = (if sw then swab_words d else d)"

lemma swab_words_append: "4 dvd length x \<Longrightarrow> swab_words (x @ y) = swab_words x @ swab_words y"
proof (induction x rule: swab_words.induct)
  case (1 a b c d r)
  have "length (a # b # c # d # r) = 4 + length r" by simp
  with 1 have "4 dvd length r" by (metis dvd_add_triv_left_iff)
  with 1 show ?case by simp
qed (auto dest: dvd_imp_le)

lemma swab_if_append: "4 dvd length x \<Longrightarrow> swab_if sw (x @ y) = swab_if sw x @ swab_if sw y"
  by (simp add: swab_if_def swab_words_append)

lemma whole_rest: "length (drop (whole S) S) \<le> 3"
  using mod_less_divisor [of 4 "length S"] by (simp add: whole_def)

lemma whole_split: "whole (S @ c) = whole S + whole (drop (whole S) S @ c)"
proof -
  obtain k where k: "whole S = 4 * k" using whole_dvd by (auto simp: dvd_def)
  have "length (S @ c) = 4 * k + length (drop (whole S) S @ c)" using whole_le [of S] by (simp add: k)
  moreover have "4 * k + m - (4 * k + m) mod 4 = 4 * k + (m - m mod 4)" for m :: nat
    using mod_less_eq_dividend [of m 4] by simp
  ultimately show ?thesis by (simp only: whole_def [of "S @ c"] k whole_def [of "drop (4 * k) S @ c"])
qed

text \<open>Appending a piece to the stream: what is sent and what is left over.\<close>

lemma take_whole_split:
  "take (whole (S @ c)) (S @ c) = take (whole S) S @ take (whole (drop (whole S) S @ c)) (drop (whole S) S @ c)"
  "drop (whole (S @ c)) (S @ c) = drop (whole (drop (whole S) S @ c)) (drop (whole S) S @ c)"
proof -
  let ?r = "drop (whole S) S"
  have e: "S @ c = take (whole S) S @ (?r @ c)" by simp
  have l: "length (take (whole S) S) = whole S" using whole_le [of S] by simp
  show "take (whole (S @ c)) (S @ c) = take (whole S) S @ take (whole (?r @ c)) (?r @ c)"
    by (subst (2) e) (simp only: whole_split [of S c] take_append l, simp)
  show "drop (whole (S @ c)) (S @ c) = drop (whole (?r @ c)) (?r @ c)"
    by (subst (2) e) (simp only: whole_split [of S c] drop_append l, simp)
qed

lemma write_all_stream:
  assumes "granting K" "0 < ppos" "idle s" "residue s = drop (whole S) S"
    "sent (klog s) = A @ swab_if (endian_swap s) (take (whole S) S)" "\<forall>b \<in> set bufs. length b + 3 < 2 ^ 32"
  shows "\<exists>t. write_all K (Suc n) bufs ppos s = Done (ppos + length (concat bufs)) t \<and>
    residue t = drop (whole (S @ concat bufs)) (S @ concat bufs) \<and>
    sent (klog t) = A @ swab_if (endian_swap s) (take (whole (S @ concat bufs)) (S @ concat bufs))"
  using assms(2-)
proof (induction bufs arbitrary: S s ppos)
  case (Cons c bufs)
  let ?k = "residue s @ c"
  have "prepare ppos (residue s) (endian_swap s) c = (swab_if (endian_swap s) (take (whole ?k) ?k), drop (whole ?k) ?k, endian_swap s)"
    using Cons.prems(1) by (simp add: prepare_def strip_header_def swab_if_def)
  moreover have "length c + length (residue s) < 2 ^ 32" using Cons.prems(3,5) whole_rest [of S] by simp
  ultimately obtain t where
    t: "xdevcfg_write K (Suc n) c ppos s = Done (int (length c), ppos + length c) t" "idle t"
      "residue t = drop (whole ?k) ?k" "endian_swap t = endian_swap s"
      "sent (klog t) = sent (klog s) @ swab_if (endian_swap s) (take (whole ?k) ?k)"
    using write_granted [OF assms(1) Cons.prems(2), of ppos c _ _ _ n] by blast
  have "4 dvd length (take (whole S) S)" using whole_le [of S] whole_dvd [of S] by (simp add: min_absorb2)
  then have "sent (klog t) = A @ swab_if (endian_swap t) (take (whole (S @ c)) (S @ c))"
    using Cons.prems(3,4) t(4,5) by (simp only: take_whole_split [of S c] swab_if_append append_assoc)
  moreover have "residue t = drop (whole (S @ c)) (S @ c)"
    using Cons.prems(3) t(3) by (simp only: take_whole_split [of S c])
  ultimately show ?case
    using Cons.IH [of "ppos + length c" t "S @ c"] Cons.prems(1,5) t by (auto simp: add.assoc)
qed simp

text \<open>The synchronisation word in either byte order, and where the driver finds the first one.\<close>

definition sync_word :: "bool \<Rightarrow> u8 list" where
  "sync_word sw = (if sw then sync_swapped else sync_normal)"

lemma find_sync_first:
  assumes "\<forall>j < length pre. \<forall>b. take 4 (drop j (pre @ sync_word sw @ post)) \<noteq> sync_word b" "length pre < n"
  shows "find_sync i n (pre @ sync_word sw @ post) = Some (i + length pre, sw)"
  using assms
proof (induction pre arbitrary: i n)
  case Nil
  then show ?case by (cases n) (auto simp: sync_word_def sync_normal_def sync_swapped_def)
next
  case (Cons x pre)
  then obtain m where n: "n = Suc m" by (cases n) auto
  have "\<forall>b. take 4 ((x # pre) @ sync_word sw @ post) \<noteq> sync_word b" using Cons.prems(1) by fastforce
  then have "take 4 ((x # pre) @ sync_word sw @ post) \<noteq> sync_normal" "take 4 ((x # pre) @ sync_word sw @ post) \<noteq> sync_swapped"
    unfolding sync_word_def by metis+
  moreover have "\<forall>j < length pre. \<forall>b. take 4 (drop j (pre @ sync_word sw @ post)) \<noteq> sync_word b" using Cons.prems(1) by fastforce
  ultimately show ?case using Cons.IH [of m "Suc i"] Cons.prems(2) by (simp add: n)
qed

text \<open>Whole words with the bytes of each in their order or reversed.\<close>

definition port_bytes :: "bool \<Rightarrow> u8 list \<Rightarrow> u8 list" where
  "port_bytes sw S = map (\<lambda>i. S ! (if sw then 4 * (i div 4) + (3 - i mod 4) else i)) [0..<4 * (length S div 4)]"

lemma swab_words_nth: "i < 4 * (length d div 4) \<Longrightarrow> swab_words d ! i = d ! (4 * (i div 4) + (3 - i mod 4))"
proof (induction d arbitrary: i rule: swab_words.induct)
  case (1 a b c d r)
  show ?case
  proof (cases "i < 4")
    case True
    then have "i = 0 \<or> i = 1 \<or> i = 2 \<or> i = 3" by linarith
    then show ?thesis by auto
  next
    case False
    define k where "k = i - 4"
    have i: "i = Suc (Suc (Suc (Suc k)))" using False by (simp add: k_def)
    have "k < 4 * (length r div 4)" using "1.prems" by (simp add: i)
    from "1.IH" [OF this] show ?thesis by (simp add: i add.commute)
  qed
qed simp_all

lemma swab_if_port: "swab_if sw (take (whole S) S) = port_bytes sw S"
proof (rule nth_equalityI)
  have w: "whole S = 4 * (length S div 4)" by (simp add: whole_def minus_mod_eq_mult_div)
  show "length (swab_if sw (take (whole S) S)) = length (port_bytes sw S)"
    using whole_le [of S] by (simp add: swab_if_def port_bytes_def w min_absorb2)
  fix i
  assume "i < length (swab_if sw (take (whole S) S))"
  then have i: "i < 4 * (length S div 4)" by (auto simp: swab_if_def w split: if_splits)
  then have "i div 4 < length S div 4" by (simp add: less_mult_imp_div_less mult.commute)
  then have "4 * (i div 4) + (3 - i mod 4) < 4 * (length S div 4)" by linarith
  with i swab_words_nth [of i "take (whole S) S"] show "swab_if sw (take (whole S) S) ! i = port_bytes sw S ! i"
    by (simp add: swab_if_def port_bytes_def w)
qed

lemma stream_written:
  assumes "granting K" "idle s" "residue s = []" "c = pre @ sync_word sw @ post" "post \<noteq> []"
    "\<forall>j < length pre. \<forall>b. take 4 (drop j c) \<noteq> sync_word b" "\<forall>b \<in> set (c # bufs). length b + 3 < 2 ^ 32"
  shows "\<exists>t. write_all K (Suc n) (c # bufs) 0 s = Done (length (concat (c # bufs))) t \<and>
    (let S = sync_word sw @ post @ concat bufs
     in residue t = drop (whole S) S \<and> sent (klog t) = sent (klog s) @ port_bytes sw S)"
proof -
  let ?S = "sync_word sw @ post"
  have l: "length (sync_word sw) = 4" by (simp add: sync_word_def sync_normal_def sync_swapped_def)
  have "0 < length post" using assms(5) by simp
  then have c: "4 < length c" "length pre < length c - 4" using l by (simp_all add: assms(4))
  have "find_sync 0 (length c - 4) c = Some (length pre, sw)"
    using find_sync_first [of pre sw post "length c - 4" 0] assms(6) c(2) by (simp add: assms(4))
  then have "prepare 0 (residue s) (endian_swap s) c = (swab_if sw (take (whole ?S) ?S), drop (whole ?S) ?S, sw)"
    using assms(3) c by (simp add: prepare_def strip_header_def swab_if_def assms(4))
  moreover have "length c + length (residue s) < 2 ^ 32" using assms(3,7) by simp
  ultimately obtain t where
    t: "xdevcfg_write K (Suc n) c 0 s = Done (int (length c), 0 + length c) t" "idle t"
      "residue t = drop (whole ?S) ?S" "endian_swap t = sw"
      "sent (klog t) = sent (klog s) @ swab_if sw (take (whole ?S) ?S)" 
    using write_granted [OF assms(1,2), of 0 c _ _ _ n] by blast
  have "0 < length c" using c(1) by linarith
  moreover have "sent (klog t) = sent (klog s) @ swab_if (endian_swap t) (take (whole ?S) ?S)" using t(4,5) by simp
  moreover have "\<forall>b \<in> set bufs. length b + 3 < 2 ^ 32" using assms(7) by simp
  ultimately obtain u where "write_all K (Suc n) bufs (length c) t = Done (length c + length (concat bufs)) u"
    "residue u = drop (whole (?S @ concat bufs)) (?S @ concat bufs)"
    "sent (klog u) = sent (klog s) @ swab_if sw (take (whole (?S @ concat bufs)) (?S @ concat bufs))"
    using write_all_stream [OF assms(1) _ t(2,3), of "length c" "sent (klog s)" bufs n] t(4) by blast
  with t(1) show ?thesis unfolding swab_if_port by (intro exI [of _ u]) (simp add: Let_def io_eval)
qed

section \<open>Opening\<close>

text \<open>\<^verbatim>\<open>PCFG_INIT\<close> follows \<^verbatim>\<open>PCFG_PROG_B\<close> within \<open>n\<close> looks at the status register.\<close>

definition init_at :: "kern \<Rightarrow> kev list \<Rightarrow> bool" where
  "init_at K l \<longleftrightarrow> k_val K l (Read_Reg XDCFG_STATUS_OFFSET) AND XDCFG_STATUS_PCFG_INIT_MASK \<noteq> 0"

definition init_follows :: "kern \<Rightarrow> nat \<Rightarrow> bool" where
  "init_follows K n \<longleftrightarrow>
     (\<forall>l v. last_reg XDCFG_CTRL_OFFSET l = Some v \<longrightarrow>
        (\<exists>k<n. init_at K (replicate k (Read_Reg XDCFG_STATUS_OFFSET) @ l) = (v AND XDCFG_CTRL_PCFG_PROG_B_MASK \<noteq> 0)))"

lemma poll_init_ends:
  assumes "\<exists>k<n. init_at K (replicate k (Read_Reg XDCFG_STATUS_OFFSET) @ klog s) \<noteq> level"
  shows "\<exists>m. poll_init K n level s = Done () (s\<lparr>klog := replicate m (Read_Reg XDCFG_STATUS_OFFSET) @ klog s\<rparr>)"
  using assms
proof (induction n arbitrary: s)
  case (Suc n)
  let ?e = "Read_Reg XDCFG_STATUS_OFFSET"
  have st: "poll_init K (Suc n) level s = (if init_at K (klog s) = level then poll_init K n level (log_ev ?e s) else Done () (log_ev ?e s))"
    by (simp add: xdevcfg_readreg_def io_eval init_at_def)
  show ?case
  proof (cases "init_at K (klog s) = level")
    case True
    with Suc.prems obtain k where "k < n" "init_at K (replicate (Suc k) ?e @ klog s) \<noteq> level"
      by (metis (no_types) append_Nil less_Suc_eq_0_disj replicate_0)
    then have "init_at K (replicate k ?e @ klog (log_ev ?e s)) \<noteq> level"
      by (simp add: replicate_app_Cons_same)
    with \<open>k < n\<close> Suc.IH [of "log_ev ?e s"] obtain m where
      "poll_init K n level (log_ev ?e s) = Done () (log_ev ?e s\<lparr>klog := replicate m ?e @ klog (log_ev ?e s)\<rparr>)" by blast
    then have "poll_init K (Suc n) level s = Done () (s\<lparr>klog := replicate (Suc m) ?e @ klog s\<rparr>)"
      using st True by (simp add: log_ev_def replicate_app_Cons_same)
    then show ?thesis by blast
  next
    case False
    then have "poll_init K (Suc n) level s = Done () (s\<lparr>klog := replicate 1 ?e @ klog s\<rparr>)"
      using st by (simp add: log_ev_def)
    then show ?thesis by blast
  qed
qed simp

lemma prog_b_bits: "(v AND NOT XDCFG_CTRL_PCFG_PROG_B_MASK) AND XDCFG_CTRL_PCFG_PROG_B_MASK = 0"
  "(v OR XDCFG_CTRL_PCFG_PROG_B_MASK) AND XDCFG_CTRL_PCFG_PROG_B_MASK \<noteq> 0"
proof -
  show "(v AND NOT XDCFG_CTRL_PCFG_PROG_B_MASK) AND XDCFG_CTRL_PCFG_PROG_B_MASK = 0"
    by (rule bit_word_eqI) (simp add: bit_simps)
  have "bit ((v OR XDCFG_CTRL_PCFG_PROG_B_MASK) AND XDCFG_CTRL_PCFG_PROG_B_MASK) 30"
    by (simp add: bit_simps XDCFG_CTRL_PCFG_PROG_B_MASK_def)
  then show "(v OR XDCFG_CTRL_PCFG_PROG_B_MASK) AND XDCFG_CTRL_PCFG_PROG_B_MASK \<noteq> 0" by (metis bit_0_eq bot_apply bot_bool_def)
qed

lemma reset_pl_returns:
  assumes "init_follows K n"
  shows "\<exists>l. xdevcfg_reset_pl K n s = Done () (s\<lparr>klog := l\<rparr>)"
proof -
  let ?c = "k_val K (klog s) (Read_Reg XDCFG_CTRL_OFFSET)"
  let ?s1 = "log_ev (Write_Reg XDCFG_CTRL_OFFSET (?c AND NOT XDCFG_CTRL_PCFG_PROG_B_MASK)) (log_ev (Read_Reg XDCFG_CTRL_OFFSET) s)"
  have "last_reg XDCFG_CTRL_OFFSET (klog ?s1) = Some (?c AND NOT XDCFG_CTRL_PCFG_PROG_B_MASK)" by simp
  with assms prog_b_bits have "\<exists>k<n. init_at K (replicate k (Read_Reg XDCFG_STATUS_OFFSET) @ klog ?s1) \<noteq> True"
    unfolding init_follows_def by blast
  from poll_init_ends [OF this] obtain m1 where
    p1: "poll_init K n True ?s1 = Done () (?s1\<lparr>klog := replicate m1 (Read_Reg XDCFG_STATUS_OFFSET) @ klog ?s1\<rparr>)" by blast
  let ?s2 = "log_ev Usleep (?s1\<lparr>klog := replicate m1 (Read_Reg XDCFG_STATUS_OFFSET) @ klog ?s1\<rparr>)"
  let ?d = "k_val K (klog ?s2) (Read_Reg XDCFG_CTRL_OFFSET)"
  let ?s3 = "log_ev (Write_Reg XDCFG_CTRL_OFFSET (?d OR XDCFG_CTRL_PCFG_PROG_B_MASK)) (log_ev (Read_Reg XDCFG_CTRL_OFFSET) ?s2)"
  have "last_reg XDCFG_CTRL_OFFSET (klog ?s3) = Some (?d OR XDCFG_CTRL_PCFG_PROG_B_MASK)" by simp
  with assms prog_b_bits have "\<exists>k<n. init_at K (replicate k (Read_Reg XDCFG_STATUS_OFFSET) @ klog ?s3) \<noteq> False"
    unfolding init_follows_def by blast
  from poll_init_ends [OF this] obtain m2 where
    p2: "poll_init K n False ?s3 = Done () (?s3\<lparr>klog := replicate m2 (Read_Reg XDCFG_STATUS_OFFSET) @ klog ?s3\<rparr>)" by blast
  have "xdevcfg_reset_pl K n s = Done () (?s3\<lparr>klog := replicate m2 (Read_Reg XDCFG_STATUS_OFFSET) @ klog ?s3\<rparr>)"
    unfolding xdevcfg_reset_pl_def
    by (simp only: xdevcfg_readreg_def xdevcfg_writereg_def act_def io_eval thn_Done [where m = "poll_init K n True", OF p1] p2)
  then show ?thesis by (auto simp: log_ev_def)
qed


definition grants_entry :: "kern \<Rightarrow> bool" where
  "grants_entry K \<longleftrightarrow> (\<forall>l. k_rc K l (Clk_Enable 0) = 0) \<and> (\<forall>l. k_rc K l Mutex_Lock = 0)"

definition reg_writes :: "kev list \<Rightarrow> nat" where
  "reg_writes l = length (filter (\<lambda>e. case e of Write_Reg p v \<Rightarrow> True | Slcr_Write v p \<Rightarrow> True | _ \<Rightarrow> False) l)"

lemma open_busy:
  assumes "grants_entry K" "idle s" "is_open s"
  shows "\<exists>t. xdevcfg_open K n s = Done (- EBUSY) t \<and> held t = held s \<and> is_open t \<and> reg_writes (klog t) = reg_writes (klog s) \<and>
    residue t = residue s \<and> endian_swap t = endian_swap s"
  using assms
  by (simp add: xdevcfg_open_def kernel_ops io_eval err_unlock_def err_clk_def grants_entry_def idle_def held_def reg_writes_def
      log_ev_def bump_def)

lemma open_free:
  assumes "grants_entry K" "idle s" "\<not> is_open s" "init_follows K n"
  shows "\<exists>t. xdevcfg_open K n s = Done 0 t \<and> held t = held s \<and> is_open t \<and> residue t = [] \<and> \<not> endian_swap t"
proof -
  obtain f where f: "xdevcfg_reset_pl K n u = Done () (u\<lparr>klog := f u\<rparr>)" for u :: "'a devcfg_scheme"
    using reset_pl_returns [OF assms(4)] by metis
  show ?thesis
    using assms(1-3)
    by (cases "is_partial_bitstream s"; cases "ep107 s")
      (simp_all add: xdevcfg_open_def kernel_ops io_eval err_unlock_def err_clk_def grants_entry_def idle_def held_def bump_def
        zynq_slcr_init_preload_fpga_def zynq_slcr_write_def xdevcfg_enable_partial_def xdevcfg_readreg_def xdevcfg_writereg_def log_ev_def f)
qed

section \<open>Properties\<close>

lemma bench_kernel_ok:
  "granting bench_kernel" "clock_runs bench_kernel 1000" "dma_sane bench_kernel" "grants_entry bench_kernel" "init_follows bench_kernel 1"
  "completing bench_kernel XDCFG_IXR_D_P_DONE_MASK" "idle devcfg0"
proof -
  show c: "completing bench_kernel XDCFG_IXR_D_P_DONE_MASK"
    by (simp add: completing_def bench_kernel_def)
  then show "granting bench_kernel"
    unfolding granting_def by (intro exI [of _ XDCFG_IXR_D_P_DONE_MASK]) (simp add: ixr_defs)
  have "b div 1000 < (a + b) div 1000" if "1000 \<le> a" for a b :: nat
    using div_le_mono [of "1000 + b" "a + b" 1000] that by simp
  moreover have "Suc b div 1000 \<le> b div 1000 + 1048576" for b :: nat
    using div_le_mono [of "Suc b" "1000 + b" 1000] by simp
  ultimately show "clock_runs bench_kernel 1000"
    unfolding clock_runs_def jiffies_run_def
    by (intro exI [of _ "\<lambda>l. ticks l div 1000"]) (simp add: bench_kernel_def div_le_mono)
  show "dma_sane bench_kernel" "grants_entry bench_kernel" "idle devcfg0"
    by (simp_all add: dma_sane_def grants_entry_def idle_def bench_kernel_def devcfg0_def)
  show "init_follows bench_kernel 1"
    by (auto simp: init_follows_def init_at_def bench_kernel_def reg_offsets XDCFG_STATUS_PCFG_INIT_MASK_def)
qed

text \<open>
  (C3) A bitstream may be written in pieces: when the first piece contains the synchronisation word, in either byte order and followed by
  at least one more byte of this piece, then the words that reach the configuration port (what the controller fetches
  through the source address and source length registers from the driver's buffer) are exactly the stream from the first such word on, cut
  to whole words and with the bytes of each word reversed if the word was found swapped, independently of how the rest is cut.
  The bytes after the last whole word are kept for the next call, and every call reports that it took all its bytes.  The kernel
  grants every request and every transfer completes.
\<close>

theorem bitstream_in_pieces:
  assumes "granting K" "idle s" "residue s = []" "c = pre @ sync_word sw @ post" "post \<noteq> []"
    and "\<forall>j < length pre. \<forall>b. take 4 (drop j c) \<noteq> sync_word b" "\<forall>b \<in> set (c # bufs). length b + 3 < 2 ^ 32"
  shows "\<exists>t. write_all K (Suc n) (c # bufs) 0 s = Done (length (concat (c # bufs))) t \<and>
    (let S = sync_word sw @ post @ concat bufs
     in residue t = drop (whole S) S \<and> sent (klog t) = sent (klog s) @ port_bytes sw S)"
  by (rule stream_written [OF assms])

theorem bitstream_in_pieces_witness:
  "\<exists>t. write_all bench_kernel 1 [[0, 0xAA, 0x99, 0x55, 0x66, 1, 2], [3], [4, 5]] 0 devcfg0 = Done 10 t \<and>
    residue t = [5] \<and> sent (klog t) = [0x66, 0x55, 0x99, 0xAA, 4, 3, 2, 1]"
proof -
  let ?c = "[0, 0xAA, 0x99, 0x55, 0x66, 1, 2] :: u8 list"
  have r: "residue devcfg0 = []" by (simp add: devcfg0_def)
  have c: "?c = [0] @ sync_word True @ [1, 2]" by (simp add: sync_word_def sync_swapped_def)
  have e: "\<forall>j < length [0 :: u8]. \<forall>b. take 4 (drop j ?c) \<noteq> sync_word b" by (simp add: sync_word_def sync_normal_def sync_swapped_def)
  obtain t where t: "write_all bench_kernel (Suc 0) (?c # [[3], [4, 5]]) 0 devcfg0 = Done (length (concat (?c # [[3], [4, 5]]))) t"
    "let S = sync_word True @ [1, 2] @ concat [[3], [4, 5]]
     in residue t = drop (whole S) S \<and> sent (klog t) = sent (klog devcfg0) @ port_bytes True S"
    using bitstream_in_pieces [OF bench_kernel_ok(1,7) r c _ e, of "[[3], [4, 5]]" 0] by auto
  have "length (concat (?c # [[3], [4, 5]])) = 10" by simp
  with t(1) have "write_all bench_kernel 1 [?c, [3], [4, 5]] 0 devcfg0 = Done 10 t"
    by (simp only: One_nat_def)
  moreover have "residue t = [5] \<and> sent (klog t) = [0x66, 0x55, 0x99, 0xAA, 4, 3, 2, 1]"
    using t(2) by (simp add: Let_def whole_def sync_word_def sync_swapped_def port_bytes_def devcfg0_def upt_rec)
  ultimately show ?thesis by blast
qed

text \<open>
  (C7) Transfers always come back: with a clock that runs (it never goes back, and of any \<open>P\<close> looks at it at least one sees it moved),
  and buffers granted or refused as documented, \<^verbatim>\<open>write\<close> and \<^verbatim>\<open>read\<close> return on every path (refused clock, mutex or buffer, bad user
  address, timeout, transfer error, success) after at most \<open>P\<close> looks at the completion flag for each tick of the timeout and one tick
  more, and the clock, the mutex, the spinlock and the buffers are then as they were before the call.
\<close>

theorem transfers_return:
  assumes "clock_runs K P" "P * Suc (k_hz K) \<le> n" "dma_sane K" "idle s"
  shows "(\<exists>r t. xdevcfg_write K n buf ppos s = Done r t \<and> held t = held s) \<and>
    (\<exists>r t. xdevcfg_read K n count s = Done r t \<and> held t = held s)"
proof -
  have h: "held s = (clk_on s 0, False, False, dma_live s)" using assms(4) by (simp add: held_def idle_def)
  from achD [OF write_returns [OF assms(1-3)] h] achD [OF read_returns [OF assms(1-3)] h] show ?thesis by (simp add: h)
qed

theorem transfers_return_witness:
  "(\<exists>r t. xdevcfg_write bench_kernel 101000 [1, 2, 3] 0 devcfg0 = Done r t \<and> held t = held devcfg0) \<and>
    (\<exists>r t. xdevcfg_read bench_kernel 101000 8 devcfg0 = Done r t \<and> held t = held devcfg0)"
  by (rule transfers_return [OF bench_kernel_ok(2) _ bench_kernel_ok(3,7)]) (simp add: bench_kernel_def)

text \<open>
  (C29) The device has one user at a time: opening it while it is open fails with \<^verbatim>\<open>-EBUSY\<close>, writes no register and
  disturbs neither the pending bytes nor the byte order of the transfer in progress; opening it while it is closed succeeds, after the
  reset of the logic (the status bit following the program signal within \<open>n\<close> looks), with no pending bytes.  Clock, locks and buffers
  are given back either way.
\<close>

theorem open_exclusive:
  assumes "grants_entry K" "init_follows K n" "idle s"
  shows "if is_open s
    then \<exists>t. xdevcfg_open K n s = Done (- EBUSY) t \<and> held t = held s \<and> is_open t \<and> reg_writes (klog t) = reg_writes (klog s) \<and>
      residue t = residue s \<and> endian_swap t = endian_swap s
    else \<exists>t. xdevcfg_open K n s = Done 0 t \<and> held t = held s \<and> is_open t \<and> residue t = [] \<and> \<not> endian_swap t"
  using open_busy [OF assms(1,3)] open_free [OF assms(1,3) _ assms(2)] by simp

theorem open_exclusive_witness:
  "\<exists>t. xdevcfg_open bench_kernel 1 devcfg0 = Done 0 t \<and> held t = held devcfg0 \<and> is_open t \<and> residue t = [] \<and> \<not> endian_swap t"
  using open_exclusive [OF bench_kernel_ok(4,5,7)] by (simp add: devcfg0_def)

text \<open>
  (C36) A transfer error is reported only when every error flag of the controller is set at once: when the kernel grants every request
  and the controller signals completion at the first look, with the interrupt status \<open>st\<close>, then \<^verbatim>\<open>write\<close> returns an
  error exactly when \<open>st\<close> contains the whole error mask, so a completed transfer with only some of the flags (a single
  parity, length or PCAP error) counts as a success.
\<close>

theorem transfer_error_iff_all_flags:
  assumes "completing K st" "idle s"
  shows "\<exists>r p t. xdevcfg_write K (Suc n) buf ppos s = Done (r, p) t \<and>
    (r < 0 \<longleftrightarrow> st AND XDCFG_IXR_ERROR_FLAGS_MASK = XDCFG_IXR_ERROR_FLAGS_MASK)"
proof -
  obtain data res' sw where "prepare ppos (residue s) (endian_swap s) buf = (data, res', sw)" by (metis prod_cases3)
  from write_completed [OF assms this, of n] show ?thesis by (auto simp: EFAULT_def)
qed

theorem transfer_error_iff_all_flags_witness:
  "\<exists>r p t. xdevcfg_write bench_kernel 1 [1, 2] 0 devcfg0 = Done (r, p) t \<and> \<not> r < 0"
  using transfer_error_iff_all_flags [OF bench_kernel_ok(6,7), of 0 "[1, 2]" 0] by (simp add: ixr_defs)

end
