(* ===== verification/Zynq_OCM.thy ===== *)
theory Zynq_OCM
  imports Kernel
begin

text \<open>
  The driver of the on-chip memory, \<^verbatim>\<open>src/patches/zynq_ocm.c\<close>.  The memory is four blocks of 64 KiB, each at the bottom or at
  the top of the address space; the driver joins neighbouring blocks into ranges, keeps the start of a low range free for the
  code that starts the second processor (\<^verbatim>\<open>CONFIG_SMP\<close>; the size of that code is an argument) and hands the ranges to an
  allocator.  Addresses are 32 bits wide and wrap.
\<close>

definition ZYNQ_OCM_HIGHADDR :: u32 where "ZYNQ_OCM_HIGHADDR = 0xfffc0000"
definition ZYNQ_OCM_LOWADDR :: u32 where "ZYNQ_OCM_LOWADDR = 0"
definition ZYNQ_OCM_BLOCK_SIZE :: u32 where "ZYNQ_OCM_BLOCK_SIZE = 0x10000"
definition ZYNQ_OCM_BLOCKS :: nat where "ZYNQ_OCM_BLOCKS = 4"
definition ZYNQ_OCM_PARITY_CTRL :: u32 where "ZYNQ_OCM_PARITY_CTRL = 0"
definition ZYNQ_OCM_PARITY_ENABLE :: u32 where "ZYNQ_OCM_PARITY_ENABLE = 0x1e"
definition ZYNQ_OCM_PARITY_ERRADDRESS :: u32 where "ZYNQ_OCM_PARITY_ERRADDRESS = 4"
definition ZYNQ_OCM_IRQ_STS :: u32 where "ZYNQ_OCM_IRQ_STS = 8"
definition ZYNQ_OCM_IRQ_STS_ERR_MASK :: u32 where "ZYNQ_OCM_IRQ_STS_ERR_MASK = 7"

record ocm = kst +
  pool :: "(u32 \<times> u32) list"     \<comment> \<open>start and size of the ranges of the allocator\<close>
  ocm_bound :: bool

datatype irqreturn = IRQ_NONE | IRQ_HANDLED

definition zynq_ocm_irq_handler :: "kern \<Rightarrow> ('a ocm_scheme, irqreturn) io" where
  "zynq_ocm_irq_handler K =
     bnd (fetch K (Read_Reg ZYNQ_OCM_IRQ_STS)) (\<lambda>sts.
     if sts AND ZYNQ_OCM_IRQ_STS_ERR_MASK \<noteq> 0
     then bnd (fetch K (Read_Reg ZYNQ_OCM_PARITY_ERRADDRESS)) (\<lambda>err_addr. ret IRQ_HANDLED)
     else ret IRQ_NONE)"

section \<open>Finding the ranges\<close>

definition block_base :: "u32 \<Rightarrow> nat \<Rightarrow> u32" where
  "block_base ocm_config i = (if bit ocm_config i then ZYNQ_OCM_HIGHADDR else ZYNQ_OCM_LOWADDR)"

definition block_start :: "u32 \<Rightarrow> nat \<Rightarrow> u32" where
  "block_start ocm_config i = of_nat i * ZYNQ_OCM_BLOCK_SIZE + block_base ocm_config i"

definition block_end :: "u32 \<Rightarrow> nat \<Rightarrow> u32" where
  "block_end ocm_config i = block_start ocm_config i + (ZYNQ_OCM_BLOCK_SIZE - 1)"

text \<open>One turn of the loop; \<open>res\<close> is the part of the array of resources filled so far.\<close>

definition add_block :: "u32 \<Rightarrow> u32 \<Rightarrow> nat \<Rightarrow> (u32 \<times> u32) list \<Rightarrow> (u32 \<times> u32) list" where
  "add_block ocm_config trampoline_code_size i res =
     (let base = block_base ocm_config i; start = block_start ocm_config i; e = block_end ocm_config i in
      if 0 < i \<and> start = snd (last res) + 1 then butlast res @ [(fst (last res), e)]
      else res @ [(if base = 0 then start + trampoline_code_size else start, e)])"

definition ocm_res :: "u32 \<Rightarrow> u32 \<Rightarrow> (u32 \<times> u32) list" where
  "ocm_res ocm_config tramp = fold (add_block ocm_config tramp) [0..<ZYNQ_OCM_BLOCKS] []"

section \<open>Binding the driver\<close>

text \<open>The array has four entries and starts as zeros; the loop stops at the first entry that ends at 0.\<close>

fun add_pools :: "kern \<Rightarrow> (u32 \<times> u32) list \<Rightarrow> ('a ocm_scheme, int) io" where
  "add_pools K [] = ret 0"
| "add_pools K ((start, e) # r) =
     (if e = 0 then ret 0
      else let size = e - start + 1 in
        bnd (acquire K (Ioremap start size)) (\<lambda>virt. case virt of
          Err_Ptr q \<Rightarrow> ret q
        | _ \<Rightarrow>
          bnd (call K (Pool_Add (case virt of Good v \<Rightarrow> v | _ \<Rightarrow> 0) start size)) (\<lambda>q.
          if q < 0 then ret q
          else thn (modify (\<lambda>s. s\<lparr>pool := pool s @ [(start, size)]\<rparr>)) (add_pools K r))))"

definition zynq_ocm_probe :: "kern \<Rightarrow> u32 \<Rightarrow> ('a ocm_scheme, int) io" where
  "zynq_ocm_probe K tramp =
     bnd (fetch K Ocm_Config) (\<lambda>ocm_config.
     bnd (acquire K (Kzalloc ''zynq_ocm'')) (\<lambda>p. case p of
       Null_Ptr \<Rightarrow> ret (- ENOMEM)
     | _ \<Rightarrow>
     bnd (acquire K Pool_Create) (\<lambda>p. case p of
       Null_Ptr \<Rightarrow> ret (- ENOMEM)
     | _ \<Rightarrow>
     let res = ocm_res ocm_config tramp in
     bnd (add_pools K (res @ replicate (ZYNQ_OCM_BLOCKS - length res) (0, 0))) (\<lambda>r. if r \<noteq> 0 then ret r else
     bnd (acquire K (Ioremap 0 0)) (\<lambda>p. case p of
       Err_Ptr e \<Rightarrow> ret e
     | _ \<Rightarrow>
     bnd (call K Get_Irq) (\<lambda>irq. if irq < 0 then ret irq else
     bnd (call K (Request_Irq irq)) (\<lambda>r. if r \<noteq> 0 then ret r else
     thn (act (Write_Reg ZYNQ_OCM_PARITY_CTRL ZYNQ_OCM_PARITY_ENABLE))
    (thn (modify (\<lambda>s. s\<lparr>ocm_bound := True\<rparr>)) (ret 0)))))))))"

definition zynq_ocm_remove :: "('a ocm_scheme, int) io" where
  "zynq_ocm_remove = ret 0"

section \<open>Coverage of the ranges\<close>

lemmas ocm_defs = ZYNQ_OCM_BLOCKS_def ZYNQ_OCM_HIGHADDR_def ZYNQ_OCM_LOWADDR_def ZYNQ_OCM_BLOCK_SIZE_def

lemma four_blocks: "[0..<4] = [0, 1, 2, 3 :: nat]"
  by (simp add: upt_rec)

lemma block_addrs:
  "block_start c i = of_nat i * 0x10000 + (if bit c i then 0xFFFC0000 else 0)"
  "block_end c i = of_nat i * 0x10000 + 0xFFFF + (if bit c i then 0xFFFC0000 else 0)"
  by (simp_all add: block_start_def block_end_def block_base_def ocm_defs)

lemma ocm_res_eq:
  "ocm_res c t = fold (add_block c t) [0, 1, 2, 3] []"
  by (simp only: ocm_res_def ZYNQ_OCM_BLOCKS_def four_blocks)

definition covers :: "(u32 \<times> u32) list \<Rightarrow> u32 \<Rightarrow> bool" where
  "covers res a \<longleftrightarrow> (\<exists>(s, e) \<in> set res. s \<le> a \<and> a \<le> e)"

text \<open>The first \<open>t\<close> bytes of a low block that does not continue another low block are kept free.\<close>

definition reserved :: "u32 \<Rightarrow> u32 \<Rightarrow> nat \<Rightarrow> u32 \<Rightarrow> bool" where
  "reserved c t i a \<longleftrightarrow> \<not> bit c i \<and> (i = 0 \<or> bit c (i - 1)) \<and> a < block_start c i + t"

lemma unat_t:
  assumes "(t :: u32) \<le> 0xFFFF"
  shows "unat (0x10000 + t) = 0x10000 + unat t" "unat (0x20000 + t) = 0x20000 + unat t" "unat (0x30000 + t) = 0x30000 + unat t"
    "unat t \<le> 0xFFFF"
  using assms by (simp_all add: word_le_nat_alt unat_word_ariths)

lemma ocm_covers:
  assumes "t \<le> 0xFFFF"
  shows "covers (ocm_res c t) a \<longleftrightarrow> (\<exists>i \<in> {0, 1, 2, 3}. block_start c i \<le> a \<and> a \<le> block_end c i \<and> \<not> reserved c t i a)"
  using unat_t(4) [OF assms]
  by (cases "bit c 0"; cases "bit c 1"; cases "bit c 2"; cases "bit c 3")
    ((simp add: ocm_res_eq add_block_def block_base_def ocm_defs block_addrs Let_def covers_def reserved_def,
      (simp add: word_le_nat_alt word_less_nat_alt unat_t(1-3) [OF assms])?, arith?)+)

text \<open>The ranges are in order and apart, and there are at most four.\<close>

definition apart :: "(u32 \<times> u32) list \<Rightarrow> bool" where
  "apart res \<longleftrightarrow> length res \<le> 4 \<and> (\<forall>(s, e) \<in> set res. s \<le> e \<and> e \<noteq> 0) \<and>
     sorted_wrt (\<lambda>(s, e) (s', e'). e < s' \<or> e' < s) res"

lemma ocm_apart:
  assumes "t \<le> 0xFFFF"
  shows "apart (ocm_res c t)"
  using unat_t(4) [OF assms]
  by (cases "bit c 0"; cases "bit c 1"; cases "bit c 2"; cases "bit c 3")
    ((simp add: ocm_res_eq add_block_def block_base_def ocm_defs block_addrs Let_def apart_def,
      (simp add: word_le_nat_alt word_less_nat_alt unat_t(1-3) [OF assms])?, arith?)+)


text \<open>The allocator gets exactly these ranges, when the kernel grants everything.\<close>

lemma add_pools_all:
  assumes "\<forall>l e. k_rc K l e = 0" "\<forall>l e. \<exists>a. k_ptr K l e = Good a" "\<forall>(s, e) \<in> set res. e \<noteq> 0"
  shows "\<exists>l. add_pools K (res @ replicate n (0, 0)) s =
    Done 0 (s\<lparr>klog := l, pool := pool s @ map (\<lambda>(s, e). (s, e - s + 1)) res\<rparr>)"
  using assms(3)
proof (induction res arbitrary: s)
  case Nil
  show ?case by (cases n) (auto simp: io_eval intro!: exI [of _ "klog s"])
next
  case (Cons r res)
  obtain a e where r: "r = (a, e)" "e \<noteq> 0" using Cons.prems by (cases r) auto
  let ?e = "Ioremap a (e - a + 1)"
  obtain v where v: "k_ptr K (klog s) ?e = Good v" using assms(2) by blast
  let ?s = "log_ev (Pool_Add v a (e - a + 1)) (log_ev ?e s)\<lparr>pool := pool s @ [(a, e - a + 1)]\<rparr>"
  have "add_pools K ((r # res) @ replicate n (0, 0)) s = add_pools K (res @ replicate n (0, 0)) ?s"
    using assms(1) r v by (simp add: io_eval Let_def log_ev_def)
  then show ?case using Cons.IH [of ?s] Cons.prems r by (auto simp: log_ev_def)
qed

lemma ocm_probe_pool:
  assumes "\<forall>l e. k_rc K l e = 0" "\<forall>l e. \<exists>a. k_ptr K l e = Good a" "t \<le> 0xFFFF"
  shows "\<exists>u. zynq_ocm_probe K t s = Done 0 u \<and>
    pool u = pool s @ map (\<lambda>(s, e). (s, e - s + 1)) (ocm_res (k_val K (klog s) Ocm_Config) t)"
proof -
  let ?r = "ocm_res (k_val K (klog s) Ocm_Config) t"
  let ?s = "log_ev Pool_Create (log_ev (Kzalloc ''zynq_ocm'') (log_ev Ocm_Config s))"
  obtain g where g: "k_ptr K l e = Good (g l e)" for l e using assms(2) by metis
  have "\<forall>(s, e) \<in> set ?r. e \<noteq> 0" using ocm_apart [OF assms(3)] by (auto simp: apart_def)
  from add_pools_all [OF assms(1,2) this, of "ZYNQ_OCM_BLOCKS - length ?r" ?s] obtain l where
    p: "add_pools K (?r @ replicate (ZYNQ_OCM_BLOCKS - length ?r) (0, 0)) ?s =
      Done 0 (?s\<lparr>klog := l, pool := pool ?s @ map (\<lambda>(s, e). (s, e - s + 1)) ?r\<rparr>)" by blast
  have e: "zynq_ocm_probe K t s =
      bnd (add_pools K (?r @ replicate (ZYNQ_OCM_BLOCKS - length ?r) (0, 0))) (\<lambda>r. if r \<noteq> 0 then ret r else
      bnd (acquire K (Ioremap 0 0)) (\<lambda>p. case p of Err_Ptr e \<Rightarrow> ret e | _ \<Rightarrow>
      bnd (call K Get_Irq) (\<lambda>irq. if irq < 0 then ret irq else
      bnd (call K (Request_Irq irq)) (\<lambda>r. if r \<noteq> 0 then ret r else
      thn (act (Write_Reg ZYNQ_OCM_PARITY_CTRL ZYNQ_OCM_PARITY_ENABLE)) (thn (modify (\<lambda>s. s\<lparr>ocm_bound := True\<rparr>)) (ret 0)))))) ?s"
    unfolding zynq_ocm_probe_def by (simp only: bnd_fetch bnd_acquire g kptr.case Let_def log_ev_sel)
  show ?thesis
    using p unfolding e by (simp add: assms(1) g io_eval act_def log_ev_def)
qed

section \<open>Property\<close>

definition ocm0 :: ocm where
  "ocm0 = \<lparr>klog = [], clk_on = (\<lambda>i. 0), clk_prep = (\<lambda>i. 0), sem_held = False, lock_held = False, dma_live = [],
     pool = [], ocm_bound = False\<rparr>"

text \<open>
  (C8) The allocator owns the on-chip memory, all of it and once: for each of the sixteen placements of the four blocks
  the probe function, when the kernel grants its requests, adds at most four ranges that do not overlap, and an address is in one of
  them exactly when it is in a block and not among the first \<open>t\<close> bytes of a run of low blocks, which are kept for the code that
  starts the second processor.
\<close>

theorem ocm_pool_covers:
  assumes "\<forall>l e. k_rc K l e = 0" "\<forall>l e. \<exists>a. k_ptr K l e = Good a" "t \<le> 0xFFFF"
  shows "let c = k_val K (klog s) Ocm_Config; res = ocm_res c t in
    (\<exists>u. zynq_ocm_probe K t s = Done 0 u \<and> pool u = pool s @ map (\<lambda>(s, e). (s, e - s + 1)) res) \<and> apart res \<and>
    (\<forall>a. covers res a \<longleftrightarrow> (\<exists>i \<in> {0, 1, 2, 3}. block_start c i \<le> a \<and> a \<le> block_end c i \<and> \<not> reserved c t i a))"
  unfolding Let_def using ocm_probe_pool [OF assms, of s] ocm_apart [OF assms(3)] ocm_covers [OF assms(3)] by blast

theorem ocm_pool_covers_witness:
  "\<exists>u. zynq_ocm_probe yes_kernel 0x20 ocm0 = Done 0 u \<and> pool u = [(0x20, 0x3FFE0)]"
proof -
  have "ocm_res 0 0x20 = [(0x20, 0x3FFFF)]"
    by (simp add: ocm_res_eq add_block_def block_base_def ocm_defs block_addrs)
  moreover have "let c = k_val yes_kernel (klog ocm0) Ocm_Config; res = ocm_res c 0x20 in
    (\<exists>u. zynq_ocm_probe yes_kernel 0x20 ocm0 = Done 0 u \<and> pool u = pool ocm0 @ map (\<lambda>(s, e). (s, e - s + 1)) res) \<and> apart res \<and>
    (\<forall>a. covers res a \<longleftrightarrow> (\<exists>i \<in> {0, 1, 2, 3}. block_start c i \<le> a \<and> a \<le> block_end c i \<and> \<not> reserved c 0x20 i a))"
    by (rule ocm_pool_covers) (simp_all add: yes_kernel_def)
  ultimately show ?thesis by (simp add: Let_def yes_kernel_def ocm0_def)
qed

end
