(* ===== verification/CMA.thy ===== *)
theory CMA
  imports Kernel
begin

text \<open>
  The driver \<^verbatim>\<open>src/patches/cma.c\<close> that gives the programs a physically contiguous buffer: \<^verbatim>\<open>ioctl\<close> replaces the one buffer by
  a new one, \<^verbatim>\<open>mmap\<close> maps it, closing the device frees it.  \<open>cpu_addr\<close> is \<open>None\<close> for \<^verbatim>\<open>NULL\<close>; the processor and the bus address of
  a coherent buffer are one value here.
\<close>

definition CMA_ALLOC :: u32 where "CMA_ALLOC = 0xC0045A00"

record cma = kst +
  dma_size :: u32
  cpu_addr :: "u32 option"

definition cma_free :: "('a cma_scheme, unit) io" where
  "cma_free =
     bnd (gets (\<lambda>s. (cpu_addr s, dma_size s))) (\<lambda>(p, n). case p of
       None \<Rightarrow> ret ()
     | Some a \<Rightarrow> thn (dma_free_coherent (unat n) a) (modify (\<lambda>s. s\<lparr>cpu_addr := None\<rparr>)))"

text \<open>\<open>arg\<close> is the word of the caller; the result is the return code and that word afterwards.\<close>

definition cma_ioctl :: "kern \<Rightarrow> u32 \<Rightarrow> u32 \<Rightarrow> ('a cma_scheme, int \<times> u32) io" where
  "cma_ioctl K cmd arg =
     (if cmd \<noteq> CMA_ALLOC then ret (- ENOTTY, arg) else
      bnd (call K (Copy_From_User 4)) (\<lambda>rc. if rc \<noteq> 0 then ret (rc, arg) else
      thn cma_free
     (thn (modify (\<lambda>s. s\<lparr>dma_size := arg\<rparr>))
     (bnd (dma_alloc_coherent K (unat arg)) (\<lambda>p. case p of
        Null_Ptr \<Rightarrow> ret (- ENOMEM, arg)
      | Err_Ptr e \<Rightarrow> ret (if e = 0 then - ENOMEM else e, arg)
      | Good a \<Rightarrow>
          thn (modify (\<lambda>s. s\<lparr>cpu_addr := Some a\<rparr>))
         (bnd (call K (Copy_To_User 4)) (\<lambda>rc. ret (rc, if rc = 0 then a else arg))))))))"

definition cma_mmap :: "kern \<Rightarrow> ('a cma_scheme, int) io" where
  "cma_mmap K =
     bnd (gets (\<lambda>s. (cpu_addr s, dma_size s))) (\<lambda>(p, n). call K (Dma_Mmap (unat n) (case p of None \<Rightarrow> 0 | Some a \<Rightarrow> a)))"

definition cma_release :: "('a cma_scheme, int) io" where
  "cma_release = thn cma_free (ret 0)"

definition cma_module_init :: "kern \<Rightarrow> ('a cma_scheme, int) io" where
  "cma_module_init K = call K Misc_Register"

definition cma_exit :: "('a cma_scheme, unit) io" where
  "cma_exit = thn cma_free (act Misc_Deregister)"

section \<open>At most one buffer\<close>

text \<open>A session: the driver is loaded, and then its entry points are called in any order.\<close>

definition cma0 :: cma where
  "cma0 = kst.extend \<lparr>klog = [], clk_on = (\<lambda>i. 0), clk_prep = (\<lambda>i. 0), sem_held = False, lock_held = False, dma_live = []\<rparr>
     \<lparr>dma_size = 0, cpu_addr = None\<rparr>"

inductive cma_reach :: "kern \<Rightarrow> cma \<Rightarrow> bool" for K where
  cma_load: "cma_module_init K cma0 = Done r s \<Longrightarrow> cma_reach K s"
| cma_ioctl: "cma_reach K s \<Longrightarrow> cma_ioctl K cmd arg s = Done r t \<Longrightarrow> cma_reach K t"
| cma_mmap: "cma_reach K s \<Longrightarrow> cma_mmap K s = Done r t \<Longrightarrow> cma_reach K t"
| cma_close: "cma_reach K s \<Longrightarrow> cma_release s = Done r t \<Longrightarrow> cma_reach K t"
| cma_unload: "cma_reach K s \<Longrightarrow> cma_exit s = Done r t \<Longrightarrow> cma_reach K t"

definition one_buffer :: "'a cma_scheme \<Rightarrow> bool" where
  "one_buffer s \<longleftrightarrow> dma_live s = (case cpu_addr s of None \<Rightarrow> [] | Some a \<Rightarrow> [a])"

lemma one_buffer_log_ev: "one_buffer (log_ev e s) = one_buffer s"
  by (simp add: one_buffer_def log_ev_def)

lemma cma_free_frees: "one_buffer s \<Longrightarrow> \<exists>t. cma_free s = Done () t \<and> cpu_addr t = None \<and> dma_live t = []"
  by (cases "cpu_addr s") (simp_all add: cma_free_def kernel_ops io_eval one_buffer_def log_ev_def)

lemma cma_ioctl_one:
  assumes "one_buffer s"
  shows "\<exists>r t. cma_ioctl K cmd arg s = Done r t \<and> one_buffer t \<and>
    (fst r = 0 \<longrightarrow> cmd = CMA_ALLOC \<and> dma_size t = arg \<and> cpu_addr t = Some (snd r))"
proof -
  have "one_buffer (log_ev (Copy_From_User 4) s)" using assms by (simp add: one_buffer_log_ev)
  from cma_free_frees [OF this] obtain t
    where t: "cma_free (log_ev (Copy_From_User 4) s) = Done () t" "cpu_addr t = None" "dma_live t = []" by blast
  show ?thesis
    using t assms
    by (auto simp: cma_ioctl_def io_eval dma_alloc_coherent_def one_buffer_def log_ev_def errno_defs split: kptr.split)
qed

lemma cma_reach_one: "cma_reach K s \<Longrightarrow> one_buffer s"
proof (induction rule: cma_reach.induct)
  case (cma_load r s)
  then show ?case by (auto simp: cma_module_init_def io_eval cma0_def kst.extend_def one_buffer_def log_ev_def)
next
  case (cma_ioctl s cmd arg r t)
  then show ?case using cma_ioctl_one [of s K cmd arg] by auto
next
  case (cma_mmap s r t)
  then show ?case by (auto simp: cma_mmap_def io_eval split_beta one_buffer_log_ev)
next
  case (cma_close s r t)
  then show ?case using cma_free_frees [of s] by (auto simp: cma_release_def io_eval one_buffer_def)
next
  case (cma_unload s r t)
  then show ?case using cma_free_frees [of s] by (auto simp: cma_exit_def act_def io_eval one_buffer_def log_ev_def)
qed

section \<open>Property\<close>

text \<open>
  (C9) The contiguous-memory driver holds at most one buffer and never leaks it: after any sequence of calls the live
  buffers are exactly the one \<^verbatim>\<open>cpu_addr\<close> points to, or none; every \<^verbatim>\<open>ioctl\<close> returns, and when it reports success the
  caller's word is the address of the buffer, whose size is the one asked for; closing the device leaves no buffer.
\<close>

theorem cma_one_buffer:
  assumes "cma_reach K s"
  shows "dma_live s = (case cpu_addr s of None \<Rightarrow> [] | Some a \<Rightarrow> [a]) \<and>
    (\<exists>r t. cma_ioctl K cmd arg s = Done r t \<and> (fst r = 0 \<longrightarrow> cmd = CMA_ALLOC \<and> dma_size t = arg \<and> dma_live t = [snd r])) \<and>
    (\<exists>t. cma_release s = Done 0 t \<and> dma_live t = [])"
proof -
  have o: "one_buffer s" by (rule cma_reach_one [OF assms])
  have "\<exists>t. cma_release s = Done 0 t \<and> dma_live t = []"
    using cma_free_frees [OF o] by (auto simp: cma_release_def io_eval)
  then show ?thesis using o cma_ioctl_one [OF o, of K cmd arg] by (auto simp: one_buffer_def)
qed

theorem cma_one_buffer_witness:
  "\<exists>s. cma_reach yes_kernel s \<and> dma_live s = [] \<and> (\<exists>t. cma_release s = Done 0 t \<and> dma_live t = [])"
proof -
  let ?s = "log_ev Misc_Register cma0"
  have r: "cma_reach yes_kernel ?s"
    by (rule cma_load [where r = 0]) (simp add: cma_module_init_def io_eval yes_kernel_def)
  have "dma_live ?s = []" by (simp add: cma0_def kst.extend_def)
  with r cma_one_buffer [OF r] show ?thesis by blast
qed

end
