(* ===== verification/Mmio.thy ===== *)
theory Mmio
  imports Platform
begin

text \<open>
  Byte-addressed access to physical memory, for the programs that map \<^verbatim>\<open>/dev/mem\<close> or the sample buffer themselves and
  reach registers of one, two or four bytes through cast pointers.
  \<^item> An access to a device is an event with its width and physical address in the log \<open>acc_log\<close> (newest first); what a
    load returns is a parameter, a function of the log (\<open>port\<close>).
  \<^item> A configuration register keeps the bytes that were stored last (\<open>holds_bytes\<close>); \<open>byte_port\<close> is such a port.
  \<^item> Ordinary memory is a function from offsets to bytes; the target is little endian, and loads of ordinary memory
    need not be aligned.
\<close>

section \<open>Bytes and words\<close>

primrec le_val :: "(int \<Rightarrow> u8) \<Rightarrow> nat \<Rightarrow> int \<Rightarrow> u32" where
  "le_val f 0 a = 0"
| "le_val f (Suc w) a = ucast (f a) OR push_bit 8 (le_val f w (a + 1))"

lemma le_val_cong: "(\<And>x. a \<le> x \<Longrightarrow> x < a + int w \<Longrightarrow> f x = g x) \<Longrightarrow> le_val f w a = le_val g w a"
proof (induction w arbitrary: a)
  case (Suc w)
  then have "f a = g a" by simp
  moreover have "le_val f w (a + 1) = le_val g w (a + 1)" by (intro Suc.IH Suc.prems) auto
  ultimately show ?case by simp
qed simp

text \<open>The bytes of a word, read back: the low \<open>w\<close> bytes of it.\<close>

lemma le_val_split: "le_val (\<lambda>x. ucast (drop_bit (8 * nat (x - a)) v)) w a = take_bit (8 * w) (v :: u32)"
proof (induction w arbitrary: a v)
  case (Suc w)
  let ?f = "\<lambda>x. ucast (drop_bit (8 * nat (x - a)) v) :: u8"
  have "le_val ?f w (a + 1) = le_val (\<lambda>x. ucast (drop_bit (8 * nat (x - (a + 1))) (drop_bit 8 v))) w (a + 1)"
  proof (rule le_val_cong)
    fix x assume "a + 1 \<le> x" "x < a + 1 + int w"
    then have "8 * nat (x - a) = 8 + 8 * nat (x - (a + 1))" by auto
    then show "?f x = ucast (drop_bit (8 * nat (x - (a + 1))) (drop_bit 8 v))"
      by (simp only: drop_bit_drop_bit add.commute)
  qed
  also have "\<dots> = take_bit (8 * w) (drop_bit 8 v)" by (rule Suc.IH)
  finally have t: "le_val ?f w (a + 1) = take_bit (8 * w) (drop_bit 8 v)" .
  show ?case
  proof (rule bit_word_eqI)
    fix n assume n: "n < LENGTH(32)"
    show "bit (le_val ?f (Suc w) a) n = bit (take_bit (8 * Suc w) v) n"
      unfolding le_val.simps t using n
      by (auto simp: bit_or_iff bit_push_bit_iff bit_take_bit_iff bit_drop_bit_eq bit_ucast_iff)
  qed
qed simp

text \<open>Clearing bits and setting them again: a reset pulse.\<close>

lemma pulse: "(x AND NOT m) OR m = x OR (m :: 'a::len word)"
  by (rule bit_word_eqI) (auto simp: bit_or_iff bit_and_iff bit_not_iff)

lemma take_bit_32 [simp]: "take_bit 32 (v :: u32) = v"
  using take_bit_word_eq_self [of 32 v] by simp

lemma le_val_4: "le_val f 4 a = le_val f 2 a OR push_bit 16 (le_val f 2 (a + 2))"
  by (simp add: eval_nat_numeral push_bit_or or.assoc push_bit_push_bit add.assoc)

section \<open>Accesses\<close>

datatype acc = Ld nat int | St nat int u32

record mmio = os +
  acc_log :: "acc list"

type_synonym port = "acc list \<Rightarrow> nat \<Rightarrow> int \<Rightarrow> u32"

text \<open>The physical address of an access of \<open>w\<close> bytes at an offset of a mapped device.  Device memory allows aligned
  accesses only.\<close>

fun phys :: "env \<Rightarrow> ptr \<Rightarrow> nat \<Rightarrow> int \<Rightarrow> int option" where
  "phys E (Mapped path base len) w off =
     (if off mod int w = 0 \<and> 0 \<le> off \<and> off + int w \<le> page_round E len then Some (base + off) else None)"
| "phys E Null w off = None"
| "phys E Map_Failed w off = None"

definition mload :: "env \<Rightarrow> port \<Rightarrow> nat \<Rightarrow> ptr \<Rightarrow> int \<Rightarrow> ('a mmio_scheme, u32) io" where
  "mload E P w p off =
     (\<lambda>s. case phys E p w off of
        None \<Rightarrow> Stopped Fault s
      | Some a \<Rightarrow> Done (take_bit (8 * w) (P (acc_log s) w a)) (s\<lparr>acc_log := Ld w a # acc_log s\<rparr>))"

definition mstore :: "env \<Rightarrow> nat \<Rightarrow> ptr \<Rightarrow> int \<Rightarrow> u32 \<Rightarrow> ('a mmio_scheme, unit) io" where
  "mstore E w p off v =
     (\<lambda>s. case phys E p w off of
        None \<Rightarrow> Stopped Fault s
      | Some a \<Rightarrow> Done () (s\<lparr>acc_log := St w a (take_bit (8 * w) v) # acc_log s\<rparr>))"

text \<open>\<^verbatim>\<open>*r &= m\<close> and \<^verbatim>\<open>*r |= m\<close>: a load and a store of the same width.\<close>

definition mupd :: "env \<Rightarrow> port \<Rightarrow> nat \<Rightarrow> ptr \<Rightarrow> int \<Rightarrow> (u32 \<Rightarrow> u32) \<Rightarrow> ('a mmio_scheme, unit) io" where
  "mupd E P w p off f = bnd (mload E P w p off) (\<lambda>v. mstore E w p off (f v))"

section \<open>Registers that keep their bytes\<close>

fun byte_at :: "(int \<Rightarrow> u8) \<Rightarrow> acc list \<Rightarrow> int \<Rightarrow> u8" where
  "byte_at z [] a = z a"
| "byte_at z (Ld w b # h) a = byte_at z h a"
| "byte_at z (St w b v # h) a = (if b \<le> a \<and> a < b + int w then ucast (drop_bit (8 * nat (a - b)) v) else byte_at z h a)"

definition byte_port :: "(int \<Rightarrow> u8) \<Rightarrow> port" where
  "byte_port z h w a = le_val (byte_at z h) w a"

text \<open>The hypothesis on the configuration registers between two addresses: a load returns the bytes last stored.\<close>

definition holds_bytes :: "port \<Rightarrow> (int \<Rightarrow> u8) \<Rightarrow> int \<Rightarrow> int \<Rightarrow> bool" where
  "holds_bytes P z lo hi \<longleftrightarrow> (\<forall>h w a. lo \<le> a \<and> a + int w \<le> hi \<longrightarrow> P h w a = byte_port z h w a)"

lemma holds_bytes_port [simp]: "holds_bytes (byte_port z) z lo hi"
  by (simp add: holds_bytes_def)

lemma byte_port_Ld [simp]: "byte_port z (Ld w b # h) v a = byte_port z h v a"
  unfolding byte_port_def by (rule le_val_cong) simp

lemma byte_port_same: "byte_port z (St w a v # h) w a = take_bit (8 * w) v"
proof -
  have "byte_port z (St w a v # h) w a = le_val (\<lambda>x. ucast (drop_bit (8 * nat (x - a)) v)) w a"
    unfolding byte_port_def by (rule le_val_cong) simp
  then show ?thesis by (simp add: le_val_split)
qed

lemma byte_port_disjoint: "a + int w \<le> b \<or> b + int u \<le> a \<Longrightarrow> byte_port z (St u b v # h) w a = byte_port z h w a"
  unfolding byte_port_def by (rule le_val_cong) auto

text \<open>The words of such a device are a register bank in the sense of \<open>register_bank\<close>.\<close>

interpretation bytes: register_bank "\<lambda>h i. byte_port z h 4 (4 * i)" "\<lambda>i v h. St 4 (4 * i) v # h" "\<lambda>i h. Ld 4 (4 * i) # h"
  for z
proof
  fix a b v h
  show "byte_port z (St 4 (4 * a) v # h) 4 (4 * b) = (if a = b then v else byte_port z h 4 (4 * b))"
  proof (cases "a = b")
    case True
    then show ?thesis by (simp add: byte_port_same)
  next
    case False
    then have "a < b \<or> b < a" by auto
    then show ?thesis using False by (intro trans [OF byte_port_disjoint]) auto
  qed
qed simp

lemma le_val_small: "w \<le> 4 \<Longrightarrow> take_bit (8 * w) (le_val f w a) = le_val f w a"
proof (induction w arbitrary: a)
  case (Suc w)
  show ?case
  proof (rule bit_word_eqI)
    fix n assume n: "n < LENGTH(32)"
    have k: "bit (le_val f w (a + 1)) k \<Longrightarrow> k < 8 * w" for k
      using Suc by (metis Suc_leD bit_take_bit_iff)
    show "bit (take_bit (8 * Suc w) (le_val f (Suc w) a)) n = bit (le_val f (Suc w) a) n"
      using n k [of "n - 8"] bit_imp_le_length [of "f a" n]
      by (auto simp: bit_or_iff bit_push_bit_iff bit_take_bit_iff bit_ucast_iff)
  qed
qed simp

section \<open>Evaluation\<close>

lemma mstore_app:
  "phys E p w off = Some a \<Longrightarrow> mstore E w p off v s = Done () (s\<lparr>acc_log := St w a (take_bit (8 * w) v) # acc_log s\<rparr>)"
  by (simp add: mstore_def)

lemma mload_app:
  "phys E p w off = Some a \<Longrightarrow>
   mload E P w p off s = Done (take_bit (8 * w) (P (acc_log s) w a)) (s\<lparr>acc_log := Ld w a # acc_log s\<rparr>)"
  by (simp add: mload_def)

lemma mload_bytes:
  assumes "phys E p w off = Some a" "holds_bytes P z lo hi" "lo \<le> a" "a + int w \<le> hi" "w \<le> 4"
  shows "mload E P w p off s = Done (byte_port z (acc_log s) w a) (s\<lparr>acc_log := Ld w a # acc_log s\<rparr>)"
  using assms by (simp add: mload_app holds_bytes_def byte_port_def le_val_small)

lemma mupd_bytes:
  assumes "phys E p w off = Some a" "holds_bytes P z lo hi" "lo \<le> a" "a + int w \<le> hi" "w \<le> 4"
  shows "mupd E P w p off f s =
    Done () (s\<lparr>acc_log := St w a (take_bit (8 * w) (f (byte_port z (acc_log s) w a))) # Ld w a # acc_log s\<rparr>)"
  using assms by (simp add: mupd_def mload_bytes [OF assms] mstore_app)

section \<open>Ordinary memory\<close>

text \<open>A load of \<open>w\<close> bytes at an offset of a mapped buffer.\<close>

fun ram_load :: "env \<Rightarrow> ptr \<Rightarrow> (int \<Rightarrow> u8) \<Rightarrow> nat \<Rightarrow> int \<Rightarrow> ('s, u32) io" where
  "ram_load E (Mapped path base len) f w off =
     (if 0 \<le> off \<and> off + int w \<le> page_round E len then ret (le_val f w off) else halt Fault)"
| "ram_load E Null f w off = halt Fault"
| "ram_load E Map_Failed f w off = halt Fault"

text \<open>An \<^verbatim>\<open>int16_t\<close> read from two bytes.\<close>

definition i16_of :: "u32 \<Rightarrow> i16" where
  "i16_of v = ucast v"

text \<open>\<^verbatim>\<open>perror(s)\<close>: the message after the prefix is the system's.\<close>

definition perror :: "string \<Rightarrow> ('a os_scheme, unit) io" where
  "perror t = puts_err t"

end
