(* ===== verification/ADC_Recorder.thy ===== *)
theory ADC_Recorder
  imports Zynq_IO Mmio
begin

text \<open>
  The recorders: small programs that configure the writer in the programmable logic, wait while it fills a buffer with
  samples and print the buffer.  There are six of them: \<^verbatim>\<open>adc_recorder/src\<close> and \<^verbatim>\<open>adc_recorder_old/src\<close> with their own
  copies of the register functions, \<^verbatim>\<open>adc_recorder_uio\<close> and \<^verbatim>\<open>counter_test\<close> with a copy of \<^verbatim>\<open>zynq_io.c\<close> whose functions are
  those of the theory \<open>Zynq_IO\<close>, and two single-file versions \<^verbatim>\<open>adc-recorder.c\<close> that use the mapped memory directly.
  The buffer is ordinary memory (\<open>buf\<close>): the writer has stopped when it is printed.  \<^verbatim>\<open>sleep\<close> has no effect of its own.
\<close>

section \<open>State and rows\<close>

record rec_st = zynq +
  cma_ptr2 :: ptr
  buf :: "int \<Rightarrow> u8"

definition CFG_RESET_GRAL :: u32 where "CFG_RESET_GRAL = 0x0"
definition CFG_WR_ADDR :: u32 where "CFG_WR_ADDR = 0x4"
definition CFG_NSAMPLES :: u32 where "CFG_NSAMPLES = 0x8"

text \<open>\<^verbatim>\<open>for(i = i0; i < i0 + k; ++i) printf(row i)\<close>.\<close>

fun print_rows :: "(int \<Rightarrow> ('a os_scheme, string) io) \<Rightarrow> int \<Rightarrow> nat \<Rightarrow> ('a os_scheme, unit) io" where
  "print_rows row i 0 = ret ()"
| "print_rows row i (Suc k) = bnd (row i) (\<lambda>t. thn (puts_out t) (print_rows row (i + 1) k))"

definition cma_load :: "env \<Rightarrow> nat \<Rightarrow> int \<Rightarrow> ('a rec_st_scheme, u32) io" where
  "cma_load E w off = bnd (gets cma_ptr) (\<lambda>p. bnd (gets buf) (\<lambda>f. ram_load E p f w off))"

text \<open>The formats \<^verbatim>\<open>"%5d %5d %10d\n"\<close> and \<^verbatim>\<open>"%5d %5d\n"\<close>.\<close>

definition row3 :: "u32 \<Rightarrow> u32 \<Rightarrow> u32 \<Rightarrow> string" where
  "row3 a b w = fmt_wd 5 (sint (i16_of a)) @ '' '' @ fmt_wd 5 (sint (i16_of b)) @ '' '' @ fmt_wd 10 (sint w) @ nl"

definition row2 :: "u32 \<Rightarrow> u32 \<Rightarrow> string" where
  "row2 a b = fmt_wd 5 (sint (i16_of a)) @ '' '' @ fmt_wd 5 (sint (i16_of b)) @ nl"

section \<open>adc\_recorder\<close>

text \<open>The register functions of this copy always report.\<close>

definition rec_rd_reg_value :: "env \<Rightarrow> int \<Rightarrow> u32 \<Rightarrow> ('a zynq_scheme, i32) io" where
  "rec_rd_reg_value E n_dev reg_off =
     bnd (gets (dev_ptr n_dev)) (\<lambda>d. case d of
       None \<Rightarrow> thn (puts_out (''Invalid option: '' @ fmt_d n_dev @ nl)) (ret (- 1))
     | Some p \<Rightarrow>
         bnd (dev_read E p reg_off) (\<lambda>reg_val.
         thn (puts_out (''Complete. Received data 0x'' @ fmt_0x 8 (uint reg_val) @ nl))
             (ret reg_val)))"

definition rec_wr_reg_value :: "env \<Rightarrow> int \<Rightarrow> u32 \<Rightarrow> i32 \<Rightarrow> ('a zynq_scheme, i32) io" where
  "rec_wr_reg_value E n_dev reg_off reg_val =
     bnd (gets (dev_ptr n_dev)) (\<lambda>d. case d of
       None \<Rightarrow> thn (puts_out (''Invalid option: '' @ fmt_d n_dev @ nl)) (ret (- 1))
     | Some p \<Rightarrow>
         thn (dev_write E p reg_off reg_val)
        (thn (puts_out (''Complete. Data written: 0x'' @ fmt_0x 8 (uint reg_val) @ nl))
             (ret 0)))"

text \<open>The configuration registers are reached through \<^verbatim>\<open>/dev/mem\<close> here, one page at \<^verbatim>\<open>CFG_BASEADDR\<close>.\<close>

definition rec_cfg_init :: "env \<Rightarrow> ('a zynq_scheme, int) io" where
  "rec_cfg_init E =
     bnd (sys_open E ''/dev/mem'') (\<lambda>fd.
     thn (modify (\<lambda>s. s\<lparr>cfg_fd := fd\<rparr>))
     (if fd < 1 then thn (puts_out (''cfg_init: Invalid memory device file:/dev/mem.'' @ nl)) (ret (- 1))
      else let n = (of_int (page_size E) :: u32); p = sys_mmap E ''/dev/mem'' 0x40000000 (uint n) in
        thn (modify (\<lambda>s. s\<lparr>dev_size := n\<rparr>))
       (thn (modify (\<lambda>s. s\<lparr>cfg_ptr := p\<rparr>))
        (if p = Map_Failed then thn (puts_out (''cfg_init: mmap call failure.'' @ nl)) (ret (- 1)) else ret 0))))"

definition rec_sts_init :: "env \<Rightarrow> ('a zynq_scheme, int) io" where
  "rec_sts_init E = uio_init E ''sts_init'' ''/dev/uio2'' ''/sys/class/uio/uio2/maps/map0/size''
     (\<lambda>fd s. s\<lparr>sts_fd := fd\<rparr>) (\<lambda>p s. s\<lparr>sts_ptr := p\<rparr>)"

definition rec_xadc_init :: "env \<Rightarrow> ('a zynq_scheme, int) io" where
  "rec_xadc_init E = uio_init E ''xadc_init'' ''/dev/uio3'' ''/sys/class/uio/uio3/maps/map0/size''
     (\<lambda>fd s. s\<lparr>xadc_fd := fd\<rparr>) (\<lambda>p s. s\<lparr>xadc_ptr := p\<rparr>)"

text \<open>\<^verbatim>\<open>val=rd_reg_value(1, CFG_RESET_GRAL_OFFSET); wr_reg_value(1, CFG_RESET_GRAL_OFFSET, val &= m);\<close>\<close>

definition rec_reset :: "env \<Rightarrow> (u32 \<Rightarrow> u32) \<Rightarrow> ('a zynq_scheme, u32) io" where
  "rec_reset E f =
     bnd (rec_rd_reg_value E 1 CFG_RESET_GRAL) (\<lambda>val.
     thn (rec_wr_reg_value E 1 CFG_RESET_GRAL (f val)) (ret (f val)))"

text \<open>\<^verbatim>\<open>cma_ptr\<close> is a \<^verbatim>\<open>void *\<close> here: the offsets of the three loads count bytes.\<close>

definition rec_row :: "env \<Rightarrow> int \<Rightarrow> ('a rec_st_scheme, string) io" where
  "rec_row E i =
     bnd (cma_load E 2 (2 * i + 0)) (\<lambda>a.
     bnd (cma_load E 2 (2 * i + 2)) (\<lambda>b.
     bnd (cma_load E 4 i) (\<lambda>w. ret (row3 a b w))))"

text \<open>\<^verbatim>\<open>main\<close> up to the second \<^verbatim>\<open>sleep\<close>, and \<^verbatim>\<open>main\<close>.\<close>

definition rec_setup :: "env \<Rightarrow> ('a zynq_scheme, unit) io" where
  "rec_setup E =
     thn (puts_out (''ADC RECORDER test'' @ nl))
    (thn (rec_cfg_init E)
    (thn (cma_init E)
    (thn (puts_out (''Set writer address...'' @ nl))
    (thn (rec_rd_reg_value E 1 CFG_WR_ADDR)
    (bnd (gets dev_size) (\<lambda>n.
     thn (puts_out (''dev_size es: '' @ fmt_d (sint n) @ '' ...'' @ nl))
    (thn (rec_wr_reg_value E 1 CFG_WR_ADDR n)
    (thn (puts_out (''Set number of samples...'' @ nl))
    (thn (rec_rd_reg_value E 1 CFG_NSAMPLES)
    (thn (rec_wr_reg_value E 1 CFG_NSAMPLES (1024 * 1024 - 1))
    (thn (puts_out (''Reseting writer...'' @ nl))
    (thn (rec_reset E (\<lambda>v. v AND NOT 4))
    (thn (rec_reset E (\<lambda>v. v OR 4))
    (thn (puts_out (''Reseting fifo and filters...'' @ nl))
    (thn (rec_reset E (\<lambda>v. v AND NOT 1))
    (thn (rec_reset E (\<lambda>v. v OR 1))
    (thn (puts_out (''Reseting packetizer...'' @ nl))
    (thn (rec_reset E (\<lambda>v. v AND NOT 2))
    (thn (rec_reset E (\<lambda>v. v OR 2))
         (ret ()))))))))))))))))))))"

definition adc_recorder_main :: "env \<Rightarrow> ('a rec_st_scheme, int) io" where
  "adc_recorder_main E =
     thn (rec_setup E)
    (thn (print_rows (rec_row E) 0 (1024 * 1024))
    (bnd (gets cfg_fd) (\<lambda>fd.
     thn (sys_close fd)
    (thn (puts_out (''Saliendo ...'' @ nl))
         (ret 0)))))"

section \<open>adc\_recorder\_uio\<close>

definition uio_reset :: "env \<Rightarrow> (u32 \<Rightarrow> u32) \<Rightarrow> ('a zynq_scheme, unit) io" where
  "uio_reset E f =
     bnd (rd_reg_value E 1 CFG_RESET_GRAL 0) (\<lambda>val.
     thn (wr_reg_value E 1 CFG_RESET_GRAL (f val) 0) (ret ()))"

text \<open>\<^verbatim>\<open>cma_ptr\<close> is an \<^verbatim>\<open>int16_t *\<close> here: the offsets count samples of two bytes.\<close>

definition uio_row :: "env \<Rightarrow> int \<Rightarrow> ('a rec_st_scheme, string) io" where
  "uio_row E i =
     bnd (cma_load E 2 (2 * (2 * i + 0))) (\<lambda>a.
     bnd (cma_load E 2 (2 * (2 * i + 1))) (\<lambda>b.
     bnd (cma_load E 4 (2 * (2 * i))) (\<lambda>w. ret (row3 a b w))))"

definition adc_recorder_uio_main :: "env \<Rightarrow> ('a rec_st_scheme, int) io" where
  "adc_recorder_uio_main E =
     thn (cfg_init E)
    (thn (cma_init E)
    (thn (rd_reg_value E 1 CFG_WR_ADDR 0)
    (bnd (gets dev_size) (\<lambda>n.
     thn (wr_reg_value E 1 CFG_WR_ADDR n 0)
    (thn (rd_reg_value E 1 CFG_NSAMPLES 0)
    (thn (wr_reg_value E 1 CFG_NSAMPLES (1024 * 1024 - 1) 0)
    (thn (uio_reset E (\<lambda>v. v AND NOT 4))
    (thn (uio_reset E (\<lambda>v. v OR 4))
    (thn (uio_reset E (\<lambda>v. v AND NOT 1))
    (thn (uio_reset E (\<lambda>v. v OR 1))
    (thn (uio_reset E (\<lambda>v. v AND NOT 2))
    (thn (uio_reset E (\<lambda>v. v OR 2))
    (thn (print_rows (uio_row E) 0 (1024 * 1024))
    (bnd (gets cfg_fd) (\<lambda>fd.
     thn (sys_close fd)
         (ret 0))))))))))))))))"

section \<open>counter\_test\<close>

text \<open>This copy of \<^verbatim>\<open>cma_init\<close> maps the buffer twice and checks the first map only.\<close>

definition ct_cma_init :: "env \<Rightarrow> ('a rec_st_scheme, int) io" where
  "ct_cma_init E =
     bnd (sys_open E ''/dev/cma'') (\<lambda>fd.
     thn (modify (\<lambda>s. s\<lparr>cma_fd := fd\<rparr>))
     (if fd < 1 then thn (puts_out (''cma_init: Invalid device file:/dev/cma.'' @ nl)) (ret (- 1))
      else let n = (of_int (1024 * page_size E) :: u32) in
        thn (modify (\<lambda>s. s\<lparr>dev_size := n\<rparr>))
        (case cma_alloc E n of
           None \<Rightarrow> thn (puts_err ''ioctl'') (ret 1)
         | Some addr \<Rightarrow>
             let p = sys_mmap E ''/dev/cma'' 0 (1024 * page_size E) in
             thn (modify (\<lambda>s. s\<lparr>dev_size := addr\<rparr>))
            (thn (modify (\<lambda>s. s\<lparr>cma_ptr := p\<rparr>))
            (thn (modify (\<lambda>s. s\<lparr>cma_ptr2 := sys_mmap E ''/dev/cma'' 0 (1024 * page_size E)\<rparr>))
             (if p = Map_Failed then thn (puts_out (''cma_init: mmap call failure.'' @ nl)) (ret (- 1)) else ret 0))))))"

definition row6 :: "u32 \<Rightarrow> u32 \<Rightarrow> u32 \<Rightarrow> u32 \<Rightarrow> string" where
  "row6 a b w w2 =
     fmt_wd 5 (sint (i16_of a)) @ '' '' @ fmt_wd 5 (sint (i16_of b)) @ '' '' @ fmt_wd 10 (sint w) @ '' '' @
     fmt_wd 5 (sint (i16_of (w AND 0xFFFF))) @ '' '' @ fmt_wd 5 (sint (i16_of (drop_bit 16 w))) @ '' '' @
     fmt_wd 10 (sint w2) @ nl"

definition counter_row :: "env \<Rightarrow> int \<Rightarrow> ('a rec_st_scheme, string) io" where
  "counter_row E i =
     bnd (cma_load E 2 (2 * (2 * i + 0))) (\<lambda>a.
     bnd (cma_load E 2 (2 * (2 * i + 1))) (\<lambda>b.
     bnd (cma_load E 4 (2 * (2 * i))) (\<lambda>w.
     bnd (gets cma_ptr2) (\<lambda>p2. bnd (gets buf) (\<lambda>f.
     bnd (ram_load E p2 f 4 (4 * i)) (\<lambda>w2. ret (row6 a b w w2)))))))"

definition counter_test_main :: "env \<Rightarrow> ('a rec_st_scheme, int) io" where
  "counter_test_main E =
     thn (puts_out (''ADC RECORDER test'' @ nl))
    (thn (cfg_init E)
    (thn (sts_init E)
    (thn (ct_cma_init E)
    (thn (puts_out (''Reseting counters...'' @ nl))
    (thn (uio_reset E (\<lambda>v. v AND NOT 1))
    (thn (puts_out (''Reseting tlast_gen core...'' @ nl))
    (thn (uio_reset E (\<lambda>v. v AND NOT 2))
    (thn (puts_out (''Reseting writer...'' @ nl))
    (thn (uio_reset E (\<lambda>v. v AND NOT 4))
    (thn (puts_out (''Set writer address...'' @ nl))
    (bnd (rd_reg_value E 1 CFG_WR_ADDR 0) (\<lambda>val.
     thn (puts_out (''val es: '' @ fmt_d (sint val) @ '' ...'' @ nl))
    (bnd (gets dev_size) (\<lambda>n.
     thn (puts_out (''dev_size es: '' @ fmt_d (sint n) @ '' ...'' @ nl))
    (thn (wr_reg_value E 1 CFG_WR_ADDR n 0)
    (thn (puts_out (''Set number of samples...'' @ nl))
    (thn (rd_reg_value E 1 CFG_NSAMPLES 0)
    (thn (wr_reg_value E 1 CFG_NSAMPLES 65536 0)
    (thn (uio_reset E (\<lambda>v. v OR 2))
    (thn (uio_reset E (\<lambda>v. v OR 4))
    (thn (uio_reset E (\<lambda>v. v OR 1))
    (thn (print_rows (counter_row E) 0 (2 * 65536))
    (thn (uio_reset E (\<lambda>v. v AND NOT 1))
    (bnd (gets cfg_fd) (\<lambda>cfd. bnd (gets sts_fd) (\<lambda>sfd.
     thn (sys_close cfd)
    (thn (sys_close sfd)
         (ret 0))))))))))))))))))))))))))))"

section \<open>adc\_recorder\_old\<close>

text \<open>The oldest recorder keeps the buffer at a fixed physical address, so it prints from \<^verbatim>\<open>mem_ptr\<close>.  Its \<^verbatim>\<open>cfg_init\<close> opens
  \<^verbatim>\<open>/dev/uio0\<close> but takes the size of the device \<^verbatim>\<open>uio1\<close>; the sample count is at offset 4.\<close>

definition old_cfg_init :: "env \<Rightarrow> ('a zynq_scheme, int) io" where
  "old_cfg_init E =
     thn (puts_out (''Initializing CFG device...'' @ nl))
         (uio_init E ''cfg_init'' ''/dev/uio0'' ''/sys/class/uio/uio1/maps/map0/size''
            (\<lambda>fd s. s\<lparr>cfg_fd := fd\<rparr>) (\<lambda>p s. s\<lparr>cfg_ptr := p\<rparr>))"

definition old_mem_init :: "env \<Rightarrow> ('a zynq_scheme, int) io" where
  "old_mem_init E =
     bnd (sys_open E ''/dev/mem'') (\<lambda>fd.
     thn (modify (\<lambda>s. s\<lparr>mem_fd := fd\<rparr>))
     (if fd < 1 then thn (puts_out (''mem_init: Invalid device file:/dev/mem.'' @ nl)) (ret (- 1))
      else let n = (of_int (1024 * page_size E) :: u32); p = sys_mmap E ''/dev/mem'' 0x1E000000 (uint n) in
        thn (modify (\<lambda>s. s\<lparr>dev_size := n\<rparr>))
       (thn (modify (\<lambda>s. s\<lparr>mem_ptr := p\<rparr>))
        (if p = Map_Failed then thn (puts_out (''mem_init: mmap call failure.'' @ nl)) (ret (- 1)) else ret 0))))"

definition mem_load :: "env \<Rightarrow> nat \<Rightarrow> int \<Rightarrow> ('a rec_st_scheme, u32) io" where
  "mem_load E w off = bnd (gets mem_ptr) (\<lambda>p. bnd (gets buf) (\<lambda>f. ram_load E p f w off))"

definition old_row :: "env \<Rightarrow> int \<Rightarrow> ('a rec_st_scheme, string) io" where
  "old_row E i =
     bnd (mem_load E 2 (4 * i + 0)) (\<lambda>a.
     bnd (mem_load E 2 (4 * i + 2)) (\<lambda>b.
     bnd (mem_load E 4 i) (\<lambda>w. ret (row3 a b w))))"

definition adc_recorder_old_main :: "env \<Rightarrow> ('a rec_st_scheme, int) io" where
  "adc_recorder_old_main E =
     thn (puts_out (''CFG UIO test'' @ nl))
    (thn (old_mem_init E)
    (thn (old_cfg_init E)
    (thn (puts_out (''Reseting writer...'' @ nl))
    (thn (rec_reset E (\<lambda>v. v AND NOT 4))
    (bnd (rec_reset E (\<lambda>v. v OR 4)) (\<lambda>val.
     thn (puts_out (''Reseting writer '' @ fmt_d (sint val) @ '' ...'' @ nl))
    (thn (puts_out (''Reseting fifo and filters...'' @ nl))
    (thn (rec_reset E (\<lambda>v. v AND NOT 1))
    (bnd (rec_reset E (\<lambda>v. v OR 1)) (\<lambda>val.
     thn (puts_out (''Reseting fifo and filters '' @ fmt_d (sint val) @ '' ...'' @ nl))
    (thn (puts_out (''Reseting packetizer...'' @ nl))
    (thn (rec_reset E (\<lambda>v. v AND NOT 2))
    (thn (rec_wr_reg_value E 1 0x4 (1024 * 1024 - 1))
    (bnd (rec_reset E (\<lambda>v. v OR 2)) (\<lambda>val.
     thn (puts_out (''Reseting packetizer '' @ fmt_d (sint val) @ '' ...'' @ nl))
    (thn (print_rows (old_row E) 0 (1024 * 1024))
    (bnd (gets cfg_fd) (\<lambda>fd.
     thn (sys_close fd)
         (ret 0)))))))))))))))))))"

section \<open>The single-file recorders\<close>

record direct_st = mmio +
  dbuf :: "int \<Rightarrow> u8"

definition direct_row :: "env \<Rightarrow> ptr \<Rightarrow> int \<Rightarrow> ('a direct_st_scheme, string) io" where
  "direct_row E ram i =
     bnd (gets dbuf) (\<lambda>f.
     bnd (ram_load E ram f 2 (2 * (2 * i + 0))) (\<lambda>a.
     bnd (ram_load E ram f 2 (2 * (2 * i + 1))) (\<lambda>b. ret (row2 a b))))"

text \<open>After the maps: the address and the number of samples are stored, then the three resets are pulsed in the byte \<^verbatim>\<open>*rst\<close>.\<close>

definition direct_run :: "env \<Rightarrow> port \<Rightarrow> ptr \<Rightarrow> ptr \<Rightarrow> u32 \<Rightarrow> ('a direct_st_scheme, int) io" where
  "direct_run E P cfg ram addr =
     thn (mstore E 4 cfg 4 addr)
    (thn (mstore E 4 cfg 8 (1024 * 1024 - 1))
    (thn (mupd E P 1 cfg 0 (\<lambda>v. v AND NOT 4))
    (thn (mupd E P 1 cfg 0 (\<lambda>v. v OR 4))
    (thn (mupd E P 1 cfg 0 (\<lambda>v. v AND NOT 1))
    (thn (mupd E P 1 cfg 0 (\<lambda>v. v OR 1))
    (thn (mupd E P 1 cfg 0 (\<lambda>v. v AND NOT 2))
    (thn (mupd E P 1 cfg 0 (\<lambda>v. v OR 2))
    (thn (print_rows (direct_row E ram) 0 (1024 * 1024))
         (ret 0)))))))))"

text \<open>The two copies differ in the base address of the configuration registers: \<^verbatim>\<open>0x40000000\<close> and \<^verbatim>\<open>0x40001000\<close>.\<close>

definition direct_main :: "env \<Rightarrow> port \<Rightarrow> int \<Rightarrow> ('a direct_st_scheme, int) io" where
  "direct_main E P base =
     bnd (sys_open E ''/dev/mem'') (\<lambda>fd.
     if fd < 0 then thn (perror ''open'') (ret 1)
     else let cfg = sys_mmap E ''/dev/mem'' base (page_size E) in
       thn (sys_close fd)
      (bnd (sys_open E ''/dev/cma'') (\<lambda>fd.
       if fd < 0 then thn (perror ''open'') (ret 1)
       else (case cma_alloc E (of_int (1024 * page_size E)) of
           None \<Rightarrow> thn (perror ''ioctl'') (ret 1)
         | Some addr \<Rightarrow> direct_run E P cfg (sys_mmap E ''/dev/cma'' 0 (1024 * page_size E)) addr))))"

definition old_direct_row :: "env \<Rightarrow> ptr \<Rightarrow> int \<Rightarrow> ('a direct_st_scheme, string) io" where
  "old_direct_row E ram i =
     bnd (gets dbuf) (\<lambda>f.
     bnd (ram_load E ram f 2 (4 * i + 0)) (\<lambda>a.
     bnd (ram_load E ram f 2 (4 * i + 2)) (\<lambda>b. ret (row2 a b))))"

definition old_direct_main :: "env \<Rightarrow> port \<Rightarrow> ('a direct_st_scheme, int) io" where
  "old_direct_main E P =
     bnd (sys_open E ''/dev/mem'') (\<lambda>fd.
     if fd < 0 then thn (perror ''open'') (ret 1)
     else let cfg = sys_mmap E ''/dev/mem'' 0x40000000 (page_size E);
              ram = sys_mmap E ''/dev/mem'' 0x1E000000 (1024 * page_size E) in
       thn (mupd E P 4 cfg 0 (\<lambda>v. v AND NOT 4))
      (thn (mupd E P 4 cfg 0 (\<lambda>v. v OR 4))
      (thn (mupd E P 4 cfg 0 (\<lambda>v. v AND NOT 1))
      (thn (mupd E P 4 cfg 0 (\<lambda>v. v OR 1))
      (thn (mupd E P 4 cfg 0 (\<lambda>v. v AND NOT 2))
      (thn (mstore E 4 cfg 4 (1024 * 1024 - 1))
      (thn (mupd E P 4 cfg 0 (\<lambda>v. v OR 2))
      (thn (print_rows (old_direct_row E ram) 0 (1024 * 1024))
           (ret 0)))))))))"

section \<open>Printing\<close>

lemma print_rows_text:
  assumes "\<And>t x. I t \<Longrightarrow> I (t\<lparr>out := x\<rparr>)" "\<And>i t. I t \<Longrightarrow> lo \<le> i \<Longrightarrow> i < lo + int k \<Longrightarrow> row i t = Done (txt i) t" "I s"
  shows "print_rows row lo k s = Done () (s\<lparr>out := out s @ concat (map (\<lambda>j. txt (lo + int j)) [0..<k])\<rparr>)"
  using assms
proof (induction k arbitrary: lo s)
  case (Suc k)
  have u: "print_rows row (lo + 1) k (s\<lparr>out := out s @ txt lo\<rparr>) =
      Done () (s\<lparr>out := (out s @ txt lo) @ concat (map (\<lambda>j. txt (lo + 1 + int j)) [0..<k])\<rparr>)"
    using Suc.IH [of "lo + 1" "s\<lparr>out := out s @ txt lo\<rparr>"] Suc.prems by simp
  have c: "map (\<lambda>j. txt (lo + int j)) [0..<Suc k] = txt lo # map (\<lambda>j. txt (lo + 1 + int j)) [0..<k]"
    by (simp add: upt_conv_Cons map_Suc_upt [symmetric] comp_def algebra_simps del: upt_Suc)
  have "row lo s = Done (txt lo) s" using Suc.prems by simp
  then show ?case by (simp only: print_rows.simps bnd_Done thn_Done puts_out_app u c) simp
qed simp

text \<open>The buffer is mapped: 1024 pages of 4 KiB.\<close>

fun buffer_mapped :: "env \<Rightarrow> ptr \<Rightarrow> bool" where
  "buffer_mapped E (Mapped path base len) = (len = 1024 * page_size E \<and> page_size E = 4096)"
| "buffer_mapped E Null = False"
| "buffer_mapped E Map_Failed = False"

lemma ram_load_mapped:
  "buffer_mapped E p \<Longrightarrow> 0 \<le> off \<Longrightarrow> off + int w \<le> 4194304 \<Longrightarrow> ram_load E p f w off s = Done (le_val f w off) s"
  by (cases p) (simp_all add: page_round_exact [of E 1024, simplified] page_round_def)

text \<open>The texts of the rows as functions of the bytes of the buffer.\<close>

definition uio_text :: "(int \<Rightarrow> u8) \<Rightarrow> int \<Rightarrow> string" where
  "uio_text f i = row3 (le_val f 2 (4 * i)) (le_val f 2 (4 * i + 2)) (le_val f 4 (4 * i))"

definition rec_text :: "(int \<Rightarrow> u8) \<Rightarrow> int \<Rightarrow> string" where
  "rec_text f i = row3 (le_val f 2 (2 * i)) (le_val f 2 (2 * (i + 1))) (le_val f 4 i)"

definition old_text :: "(int \<Rightarrow> u8) \<Rightarrow> int \<Rightarrow> string" where
  "old_text f i = row3 (le_val f 2 (4 * i)) (le_val f 2 (4 * i + 2)) (le_val f 4 i)"

definition direct_text :: "(int \<Rightarrow> u8) \<Rightarrow> int \<Rightarrow> string" where
  "direct_text f i = row2 (le_val f 2 (4 * i)) (le_val f 2 (4 * i + 2))"

definition all_rows :: "(int \<Rightarrow> string) \<Rightarrow> nat \<Rightarrow> string" where
  "all_rows txt n = concat (map (\<lambda>j. txt (int j)) [0..<n])"

lemma print_uio:
  "buffer_mapped E (cma_ptr s) \<Longrightarrow> k \<le> 1048576 \<Longrightarrow>
   print_rows (uio_row E) 0 k s = Done () (s\<lparr>out := out s @ all_rows (uio_text (buf s)) k\<rparr>)"
  using print_rows_text [of "\<lambda>t. buffer_mapped E (cma_ptr t) \<and> buf t = buf s" 0 k "uio_row E" "uio_text (buf s)" s]
  by (simp add: uio_row_def uio_text_def cma_load_def ram_load_mapped all_rows_def algebra_simps)

lemma print_rec:
  "buffer_mapped E (cma_ptr s) \<Longrightarrow> k \<le> 1048576 \<Longrightarrow>
   print_rows (rec_row E) 0 k s = Done () (s\<lparr>out := out s @ all_rows (rec_text (buf s)) k\<rparr>)"
  using print_rows_text [of "\<lambda>t. buffer_mapped E (cma_ptr t) \<and> buf t = buf s" 0 k "rec_row E" "rec_text (buf s)" s]
  by (simp add: rec_row_def rec_text_def cma_load_def ram_load_mapped all_rows_def algebra_simps)

lemma print_old:
  "buffer_mapped E (mem_ptr s) \<Longrightarrow> k \<le> 1048576 \<Longrightarrow>
   print_rows (old_row E) 0 k s = Done () (s\<lparr>out := out s @ all_rows (old_text (buf s)) k\<rparr>)"
  using print_rows_text [of "\<lambda>t. buffer_mapped E (mem_ptr t) \<and> buf t = buf s" 0 k "old_row E" "old_text (buf s)" s]
  by (simp add: old_row_def old_text_def mem_load_def ram_load_mapped all_rows_def algebra_simps)

lemma print_direct:
  "buffer_mapped E ram \<Longrightarrow> k \<le> 1048576 \<Longrightarrow>
   print_rows (direct_row E ram) 0 k s = Done () (s\<lparr>out := out s @ all_rows (direct_text (dbuf s)) k\<rparr>)"
  using print_rows_text [of "\<lambda>t. dbuf t = dbuf s" 0 k "direct_row E ram" "direct_text (dbuf s)" s]
  by (simp add: direct_row_def direct_text_def ram_load_mapped all_rows_def algebra_simps)

lemma old_direct_same: "old_direct_row E ram = direct_row E ram"
  by (simp add: fun_eq_iff old_direct_row_def direct_row_def algebra_simps)

section \<open>Configuration\<close>

lemma cfg_consts [simp]: "reg_offset CFG_RESET_GRAL" "reg_offset CFG_WR_ADDR" "reg_offset CFG_NSAMPLES"
  "uint CFG_RESET_GRAL = 0" "uint CFG_WR_ADDR = 4" "uint CFG_NSAMPLES = 8"
  by (simp_all add: reg_offset_def CFG_RESET_GRAL_def CFG_WR_ADDR_def CFG_NSAMPLES_def)

lemma dev_access_cfg:
  assumes "cfg_ready E s" "reg_offset off"
  shows "dev_read E (cfg_ptr s) off s = Done (bus E (hist s) cfg_dev (uint off)) (s\<lparr>hist := Rd cfg_dev (uint off) # hist s\<rparr>)"
    and "dev_write E (cfg_ptr s) off v s = Done () (s\<lparr>hist := Wr cfg_dev (uint off) v # hist s\<rparr>)"
  using cfg_read_app [OF assms] cfg_write_app [OF assms, of v] by (simp_all add: cfg_read_def cfg_write_def)

lemma rd_reg_quiet:
  "cfg_ready E s \<Longrightarrow> reg_offset off \<Longrightarrow>
   rd_reg_value E 1 off 0 s = Done (bus E (hist s) cfg_dev (uint off)) (s\<lparr>hist := Rd cfg_dev (uint off) # hist s\<rparr>)"
  by (simp add: rd_reg_value_def dev_ptr_def dev_access_cfg)

lemma wr_reg_quiet:
  "cfg_ready E s \<Longrightarrow> reg_offset off \<Longrightarrow>
   wr_reg_value E 1 off v 0 s = Done 0 (s\<lparr>hist := Wr cfg_dev (uint off) v # hist s\<rparr>)"
  by (simp add: wr_reg_value_def dev_ptr_def dev_access_cfg)

lemma uio_reset_app:
  "cfg_ready E s \<Longrightarrow> holds_writes E cfg_dev z \<Longrightarrow>
   uio_reset E f s = Done () (s\<lparr>hist := bank.rmw z cfg_dev 0 f (hist s)\<rparr>)"
  by (simp add: uio_reset_def rd_reg_quiet wr_reg_quiet holds_writes_def bank.rmw_def)

lemma cma_init_done:
  "cma_init E s = Done 0 t \<Longrightarrow>
   cma_alloc E (of_int (1024 * page_size E)) = Some (dev_size t) \<and>
   cma_ptr t = Mapped ''/dev/cma'' 0 (1024 * page_size E) \<and> cfg_ptr t = cfg_ptr s \<and> cfg_fd t = cfg_fd s \<and>
   hist t = hist s \<and> out t = out s \<and> zynq.more t = zynq.more s"
  by (auto simp: cma_init_def Let_def sys_mmap_def split: option.splits if_splits)

lemma cfg_init_done:
  "cfg_init E s = Done 0 t \<Longrightarrow>
   uio_mapped cfg_dev (cfg_ptr t) \<and> hist t = hist s \<and> out t = out s \<and> zynq.more t = zynq.more s"
  by (auto simp: cfg_init_def uio_init_def get_memory_size_def bnd_app thn_app Let_def sys_mmap_def
      split: option.splits if_splits scan.splits outcome.splits)

text \<open>The registers the recorder leaves: address, number of samples, and the three reset bits released.\<close>

definition recorder_hist :: "(int \<Rightarrow> u32) \<Rightarrow> u32 \<Rightarrow> bus_ev list \<Rightarrow> bus_ev list" where
  "recorder_hist z addr h =
     (let m = bank.rmw z cfg_dev 0 in
      m (\<lambda>v. v OR 2) (m (\<lambda>v. v AND NOT 2) (m (\<lambda>v. v OR 1) (m (\<lambda>v. v AND NOT 1) (m (\<lambda>v. v OR 4) (m (\<lambda>v. v AND NOT 4)
      (Wr cfg_dev 8 (1024 * 1024 - 1) # Rd cfg_dev 8 # Wr cfg_dev 4 addr # Rd cfg_dev 4 # h)))))))"

lemma pulses: "((((((x AND NOT 4) OR 4) AND NOT 1) OR 1) AND NOT 2) OR 2) = x OR (7 :: u32)"
proof -
  have "(4::u32) OR (1 OR 2) = 7" by simp
  then show ?thesis by (simp only: pulse or.assoc)
qed

lemma recorder_regs:
  "last_write z (recorder_hist z addr h) cfg_dev 4 = addr"
  "last_write z (recorder_hist z addr h) cfg_dev 8 = 1024 * 1024 - 1"
  "last_write z (recorder_hist z addr h) cfg_dev 0 = last_write z h cfg_dev 0 OR 7"
proof -
  show "last_write z (recorder_hist z addr h) cfg_dev 0 = last_write z h cfg_dev 0 OR 7"
    unfolding recorder_hist_def Let_def bank.rmw_fold bank.rd_rmw by (simp only: if_True refl pulses) simp
qed (simp_all add: recorder_hist_def Let_def bank.rd_rmw)

text \<open>The writes among them, oldest first.\<close>

definition recorder_writes :: "u32 \<Rightarrow> u32 \<Rightarrow> bus_ev list" where
  "recorder_writes addr r =
     [Wr cfg_dev 4 addr, Wr cfg_dev 8 1048575,
      Wr cfg_dev 0 (r AND NOT 4), Wr cfg_dev 0 (r OR 4),
      Wr cfg_dev 0 ((r OR 4) AND NOT 1), Wr cfg_dev 0 (r OR 5),
      Wr cfg_dev 0 ((r OR 5) AND NOT 2), Wr cfg_dev 0 (r OR 7)]"

lemma recorder_hist_writes:
  "rev (filter is_write (recorder_hist z addr h)) = rev (filter is_write h) @ recorder_writes addr (last_write z h cfg_dev 0)"
proof -
  have e: "((x AND NOT 4) OR 4) = x OR (4 :: u32)" "((x OR 4) AND NOT 1) OR 1 = x OR (5 :: u32)"
    "((x OR 5) AND NOT 2) OR 2 = x OR (7 :: u32)" for x
    by (simp_all only: pulse or.assoc) simp_all
  have "(x AND - 5) OR 4 = x OR (4 :: u32)" "((x OR 4) AND - 2) OR 1 = x OR (5 :: u32)" "((x OR 5) AND - 3) OR 2 = x OR (7 :: u32)" for x
    using e [of x] by simp_all
  then show ?thesis by (simp add: recorder_hist_def Let_def bank.rmw_def recorder_writes_def)
qed

lemma uio_main_run:
  assumes "cfg_init E s = Done 0 s1" "cma_init E s1 = Done 0 s2" "page_size E = 4096" "holds_writes E cfg_dev z"
  shows "adc_recorder_uio_main E s = Done 0
    (s2\<lparr>hist := recorder_hist z (dev_size s2) (hist s), out := out s @ all_rows (uio_text (buf s)) 1048576,
        closed := cfg_fd s2 # closed s2\<rparr>)"
proof -
  have r: "cfg_ready E s2" "hist s2 = hist s" "out s2 = out s" "buf s2 = buf s" "buffer_mapped E (cma_ptr s2)"
    using cfg_init_done [OF assms(1)] cma_init_done [OF assms(2)] assms(3)
    by (simp_all add: cfg_ready_def, cases s, cases s2, simp)
  show ?thesis
    unfolding adc_recorder_uio_main_def
    using assms r
    by (simp add: rd_reg_quiet wr_reg_quiet uio_reset_app [OF _ assms(4)] print_uio recorder_hist_def Let_def)
qed

section \<open>The recorder with byte offsets\<close>

text \<open>A platform on which every device opens and maps.\<close>

definition recorder_env :: "env \<Rightarrow> bool" where
  "recorder_env E \<longleftrightarrow>
     (\<forall>h p. 1 \<le> os_open E h p) \<and> (\<forall>p a l. os_mmap E p a l) \<and> cma_alloc E (of_int (1024 * page_size E)) \<noteq> None \<and> page_size E = 4096"

abbreviation mem_cfg :: ptr where "mem_cfg \<equiv> Mapped ''/dev/mem'' 0x40000000 4096"

lemma mem_cfg_access:
  assumes "page_size E = 4096" "reg_offset off" "cfg_ptr s = mem_cfg"
  shows "rec_rd_reg_value E 1 off s =
      (let v = bus E (hist s) ''/dev/mem'' (0x40000000 + uint off)
       in Done v (s\<lparr>hist := Rd ''/dev/mem'' (0x40000000 + uint off) # hist s,
                   out := out s @ ''Complete. Received data 0x'' @ fmt_0x 8 (uint v) @ nl\<rparr>))"
    and "rec_wr_reg_value E 1 off v s =
       Done 0 (s\<lparr>hist := Wr ''/dev/mem'' (0x40000000 + uint off) v # hist s,
                   out := out s @ ''Complete. Data written: 0x'' @ fmt_0x 8 (uint v) @ nl\<rparr>)"
proof -
  have "cell E mem_cfg off = Some (''/dev/mem'', 0x40000000 + uint off)"
    using assms(1,2) by (auto simp: reg_offset_def page_round_def)
  then show "rec_rd_reg_value E 1 off s =
      (let v = bus E (hist s) ''/dev/mem'' (0x40000000 + uint off)
       in Done v (s\<lparr>hist := Rd ''/dev/mem'' (0x40000000 + uint off) # hist s,
                   out := out s @ ''Complete. Received data 0x'' @ fmt_0x 8 (uint v) @ nl\<rparr>))"
    "rec_wr_reg_value E 1 off v s =
       Done 0 (s\<lparr>hist := Wr ''/dev/mem'' (0x40000000 + uint off) v # hist s,
                   out := out s @ ''Complete. Data written: 0x'' @ fmt_0x 8 (uint v) @ nl\<rparr>)"
    using assms(3)
    by (simp_all del: cell.simps add: rec_rd_reg_value_def rec_wr_reg_value_def dev_ptr_def dev_read_def dev_write_def Let_def)
qed

lemma rec_inits:
  assumes "recorder_env E"
  shows "rec_cfg_init E s = Done 0 (s\<lparr>opens := (''/dev/mem'', os_open E (opens s) ''/dev/mem'') # opens s,
      cfg_fd := os_open E (opens s) ''/dev/mem'', dev_size := 4096, cfg_ptr := mem_cfg\<rparr>)"
    and "cma_init E s = Done 0 (s\<lparr>opens := (''/dev/cma'', os_open E (opens s) ''/dev/cma'') # opens s,
      cma_fd := os_open E (opens s) ''/dev/cma'', dev_size := the (cma_alloc E 4194304),
      cma_ptr := Mapped ''/dev/cma'' 0 4194304\<rparr>)"
proof -
  have o1: "\<not> os_open E h p < 1" for h p using assms by (simp add: recorder_env_def not_less)
  have e: "page_size E = 4096" "\<And>p a l. os_mmap E p a l" using assms by (auto simp: recorder_env_def)
  obtain a where a: "cma_alloc E 4194304 = Some a" using assms by (auto simp: recorder_env_def)
  show "rec_cfg_init E s = Done 0 (s\<lparr>opens := (''/dev/mem'', os_open E (opens s) ''/dev/mem'') # opens s,
      cfg_fd := os_open E (opens s) ''/dev/mem'', dev_size := 4096, cfg_ptr := mem_cfg\<rparr>)"
    by (simp add: rec_cfg_init_def o1 e sys_mmap_def Let_def)
  show "cma_init E s = Done 0 (s\<lparr>opens := (''/dev/cma'', os_open E (opens s) ''/dev/cma'') # opens s,
      cma_fd := os_open E (opens s) ''/dev/cma'', dev_size := the (cma_alloc E 4194304),
      cma_ptr := Mapped ''/dev/cma'' 0 4194304\<rparr>)"
    by (simp add: cma_init_def o1 e a sys_mmap_def Let_def)
qed

text \<open>An effect that is blind to the contents of the buffer: it runs the same way on every buffer and leaves it as it is.\<close>

definition blind :: "('a rec_st_scheme, 'b) io \<Rightarrow> bool" where
  "blind m \<longleftrightarrow>
     (\<forall>s g. m (s\<lparr>buf := g\<rparr>) =
        (case m s of Done x t \<Rightarrow> Done x (t\<lparr>buf := g\<rparr>) | Stopped e t \<Rightarrow> Stopped e (t\<lparr>buf := g\<rparr>)))"

named_theorems blind_intros \<open>composition rules for \<open>blind\<close>\<close>

lemma blind_basic [blind_intros]:
  "blind (ret x)" "blind (halt e)" "blind (puts_out t)" "blind (puts_err t)" "blind (sys_open E p)" "blind (sys_close fd)"
  by (simp_all add: blind_def)

lemma blind_gets [blind_intros]: "(\<And>s g. f (s\<lparr>buf := g\<rparr>) = f s) \<Longrightarrow> blind (gets f)"
  by (simp add: blind_def)

lemma blind_modify [blind_intros]: "(\<And>s g. f (s\<lparr>buf := g\<rparr>) = (f s)\<lparr>buf := g\<rparr>) \<Longrightarrow> blind (modify f)"
  by (simp add: blind_def)

lemma blind_dev [blind_intros]: "blind (dev_read E p off)" "blind (dev_write E p off v)"
  by (simp_all add: blind_def dev_read_def dev_write_def split: option.split)

lemma blind_bnd [blind_intros]: "blind m \<Longrightarrow> (\<And>x. blind (f x)) \<Longrightarrow> blind (bnd m f)"
  unfolding blind_def by (simp add: bnd_app split: outcome.split)

lemma blind_thn [blind_intros]: "blind m \<Longrightarrow> blind k \<Longrightarrow> blind (thn m k)"
  by (simp add: thn_def blind_bnd)

lemma blind_if [blind_intros]: "blind m \<Longrightarrow> blind k \<Longrightarrow> blind (if b then m else k)"
  by simp

lemma blind_option [blind_intros]: "blind m \<Longrightarrow> (\<And>x. blind (f x)) \<Longrightarrow> blind (case z of None \<Rightarrow> m | Some x \<Rightarrow> f x)"
  by (cases z) simp_all

lemma blind_regs [blind_intros]: "blind (rec_rd_reg_value E n off)" "blind (rec_wr_reg_value E n off v)" "blind (rec_reset E f)"
  unfolding rec_rd_reg_value_def rec_wr_reg_value_def rec_reset_def
  by (intro blind_intros; simp add: dev_ptr_def)+

lemma blind_inits [blind_intros]: "blind (rec_cfg_init E)" "blind (cma_init E)"
  unfolding rec_cfg_init_def cma_init_def Let_def by (intro blind_intros; simp)+

lemma blind_rec_setup: "blind (rec_setup E)"
  unfolding rec_setup_def by (intro blind_intros; simp)

text \<open>The configuration succeeds and leaves the buffer mapped.\<close>

definition mapped_both :: "'a zynq_scheme \<Rightarrow> bool" where
  "mapped_both s \<longleftrightarrow> cfg_ptr s = mem_cfg \<and> cma_ptr s = Mapped ''/dev/cma'' 0 4194304"

lemma runs_regs:
  assumes "page_size E = 4096"
  shows "reg_offset off \<Longrightarrow> runs mapped_both (rec_rd_reg_value E 1 off) mapped_both"
    and "reg_offset off \<Longrightarrow> runs mapped_both (rec_wr_reg_value E 1 off v) mapped_both"
    and "runs mapped_both (rec_reset E f) mapped_both"
  by (simp_all add: runs_def mapped_both_def rec_reset_def mem_cfg_access [OF assms] Let_def)

lemma runs_puts: "runs mapped_both (puts_out t) mapped_both"
  by (simp add: runs_def mapped_both_def)

lemma rec_setup_runs:
  assumes "recorder_env E"
  shows "runs (\<lambda>s. True) (rec_setup E) mapped_both"
proof -
  have e: "page_size E = 4096" using assms by (simp add: recorder_env_def)
  have i: "runs (\<lambda>s. True) (puts_out t) (\<lambda>s. True)" "runs (\<lambda>s. True) (rec_cfg_init E) (\<lambda>s. cfg_ptr s = mem_cfg)"
    "runs (\<lambda>s. cfg_ptr s = mem_cfg) (cma_init E) mapped_both" for t
    by (simp_all add: runs_def rec_inits [OF assms] mapped_both_def)
  show ?thesis
    unfolding rec_setup_def
    by (rule runs_thn [OF i(1)], rule runs_thn [OF i(2)], rule runs_thn [OF i(3)])
       (intro runs_inv runs_ret runs_puts runs_regs [OF e]; simp)
qed

lemma adc_recorder_run:
  assumes "recorder_env E"
  shows "\<exists>pre. \<forall>g. \<exists>t. adc_recorder_main E (s\<lparr>buf := g\<rparr>) = Done 0 t \<and>
    out t = pre @ all_rows (rec_text g) 1048576 @ ''Saliendo ...'' @ nl"
proof -
  obtain t where t: "rec_setup E s = Done () t" "mapped_both t"
    using runsD [OF rec_setup_runs [OF assms], of s] by auto
  have m: "buffer_mapped E (cma_ptr (t\<lparr>buf := g\<rparr>))" for g
    using t(2) assms by (simp add: mapped_both_def recorder_env_def)
  have b: "rec_setup E (s\<lparr>buf := g\<rparr>) = Done () (t\<lparr>buf := g\<rparr>)" for g
    using blind_rec_setup [of E, unfolded blind_def, rule_format, of g s] t(1) by simp
  have "adc_recorder_main E (s\<lparr>buf := g\<rparr>) =
      Done 0 (t\<lparr>buf := g, out := out t @ all_rows (rec_text g) 1048576 @ ''Saliendo ...'' @ nl, closed := cfg_fd t # closed t\<rparr>)" for g
    unfolding adc_recorder_main_def by (simp add: b print_rec [OF m])
  then show ?thesis by (intro exI [of _ "out t"]) simp
qed

text \<open>Each sample printed in the second column is printed again in the first column of the next row, and the words end
  inside the first half of the buffer.\<close>

lemma rec_text_local:
  assumes "\<And>x. 0 \<le> x \<Longrightarrow> x < 2097154 \<Longrightarrow> f x = g x" "0 \<le> i" "i < 1048576"
  shows "rec_text f i = rec_text g i"
proof -
  have "le_val f 2 (2 * i) = le_val g 2 (2 * i)" "le_val f 2 (2 * (i + 1)) = le_val g 2 (2 * (i + 1))"
    "le_val f 4 i = le_val g 4 i"
    using assms by (auto intro!: le_val_cong)
  then show ?thesis by (simp add: rec_text_def)
qed

text \<open>The samples of a recording: 16 bits each.\<close>

definition sample :: "(int \<Rightarrow> u8) \<Rightarrow> nat \<Rightarrow> u32" where
  "sample f k = le_val f 2 (2 * int k)"

section \<open>The other recorders\<close>

lemma i16_of_halves:
  "i16_of (le_val f 4 a AND 0xFFFF) = i16_of (le_val f 2 a)"
  "i16_of (drop_bit 16 (le_val f 4 a)) = i16_of (le_val f 2 (a + 2))"
proof -
  have s: "take_bit 16 (le_val f 2 b) = le_val f 2 b" for b using le_val_small [of 2 f b] by simp
  have z: "\<not> bit (le_val f 2 b) n" if "16 \<le> n" for b n using s [of b] that by (metis bit_take_bit_iff not_less)
  have m: "(0xFFFF :: u32) = mask 16" by (simp add: mask_eq_exp_minus_1)
  show "i16_of (le_val f 4 a AND 0xFFFF) = i16_of (le_val f 2 a)"
    unfolding i16_of_def le_val_4 m
    by (rule bit_word_eqI) (auto simp: bit_ucast_iff bit_and_iff bit_or_iff bit_push_bit_iff bit_mask_iff)
  show "i16_of (drop_bit 16 (le_val f 4 a)) = i16_of (le_val f 2 (a + 2))"
    unfolding i16_of_def le_val_4
    by (rule bit_word_eqI) (auto simp: bit_ucast_iff bit_drop_bit_eq bit_or_iff bit_push_bit_iff z)
qed

text \<open>The row of \<^verbatim>\<open>counter_test\<close> shows the same word three times: as two samples, as a word split again, and through the
  second map.\<close>

lemma counter_row_text:
  assumes "buffer_mapped E (cma_ptr s)" "cma_ptr2 s = cma_ptr s" "0 \<le> i" "i < 131072"
  shows "counter_row E i s = Done
    (let a = fmt_wd 5 (sint (i16_of (le_val (buf s) 2 (4 * i)))); b = fmt_wd 5 (sint (i16_of (le_val (buf s) 2 (4 * i + 2))));
         w = fmt_wd 10 (sint (le_val (buf s) 4 (4 * i)))
     in a @ '' '' @ b @ '' '' @ w @ '' '' @ a @ '' '' @ b @ '' '' @ w @ nl) s"
  using assms
  by (simp add: counter_row_def cma_load_def ram_load_mapped row6_def i16_of_halves Let_def algebra_simps)

text \<open>The byte-wide resets of the single-file recorder change the three reset bits and nothing else.\<close>

definition byte_rmw :: "(int \<Rightarrow> u8) \<Rightarrow> int \<Rightarrow> (u32 \<Rightarrow> u32) \<Rightarrow> acc list \<Rightarrow> acc list" where
  "byte_rmw z a f h = St 1 a (take_bit 8 (f (byte_port z h 1 a))) # Ld 1 a # h"

definition direct_log :: "(int \<Rightarrow> u8) \<Rightarrow> int \<Rightarrow> u32 \<Rightarrow> acc list \<Rightarrow> acc list" where
  "direct_log z base addr h =
     (let m = byte_rmw z base in
      m (\<lambda>v. v OR 2) (m (\<lambda>v. v AND NOT 2) (m (\<lambda>v. v OR 1) (m (\<lambda>v. v AND NOT 1) (m (\<lambda>v. v OR 4) (m (\<lambda>v. v AND NOT 4)
      (St 4 (base + 8) (1024 * 1024 - 1) # St 4 (base + 4) addr # h)))))))"

lemma byte_rmw_same: "byte_port z (byte_rmw z a f h) 1 a = take_bit 8 (f (byte_port z h 1 a))"
  unfolding byte_rmw_def byte_port_same by simp

lemma byte_rmw_other: "a < b \<Longrightarrow> byte_port z (byte_rmw z a f h) w b = byte_port z h w b"
  unfolding byte_rmw_def by (subst byte_port_disjoint) simp_all

lemma byte_rmw_at: "x \<noteq> a \<Longrightarrow> byte_at z (byte_rmw z a f h) x = byte_at z h x"
  by (auto simp: byte_rmw_def)

lemma direct_run_log:
  assumes "page_size E = 4096" "holds_bytes P z base (base + 4096)" "buffer_mapped E ram"
  shows "direct_run E P (Mapped ''/dev/mem'' base 4096) ram addr s =
    Done 0 (s\<lparr>acc_log := direct_log z base addr (acc_log s), out := out s @ all_rows (direct_text (dbuf s)) 1048576\<rparr>)"
proof -
  let ?p = "Mapped ''/dev/mem'' base 4096"
  have p: "phys E ?p 4 4 = Some (base + 4)" "phys E ?p 4 8 = Some (base + 8)" "phys E ?p 1 0 = Some base"
    using assms(1) by (simp_all add: page_round_def)
  have u: "mupd E P 1 ?p 0 f s =
    Done () (s\<lparr>acc_log := byte_rmw z base f (acc_log s)\<rparr>)" for f s
    using mupd_bytes [OF p(3) assms(2)] by (simp add: byte_rmw_def)
  show ?thesis
    unfolding direct_run_def
    by (simp add: mstore_app [OF p(1)] mstore_app [OF p(2)] u print_direct [OF assms(3)] direct_log_def Let_def
        del: phys.simps One_nat_def)
qed

lemma byte_old_small: "take_bit 8 (byte_port z h 1 a) = byte_port z h 1 a"
  using le_val_small [of 1] by (simp add: byte_port_def)

lemma direct_log_regs:
  "byte_port z (direct_log z base addr h) 4 (base + 4) = addr"
  "byte_port z (direct_log z base addr h) 4 (base + 8) = 1024 * 1024 - 1"
  "byte_port z (direct_log z base addr h) 1 base = byte_port z h 1 base OR 7"
proof -
  have n: "take_bit 8 (((((((x AND NOT 4) OR 4) AND NOT 1) OR 1) AND NOT 2) OR 2)) = take_bit 8 x OR (7 :: u32)" for x
    by (simp only: pulses take_bit_or) simp
  have a: "take_bit 8 (take_bit 8 x AND NOT k) = take_bit 8 (x AND NOT k)" "take_bit 8 (take_bit 8 x OR k) = take_bit 8 (x OR k)"
    for x k :: u32
    by (rule bit_word_eqI, auto simp: bit_and_iff bit_or_iff bit_not_iff bit_take_bit_iff)+
  show "byte_port z (direct_log z base addr h) 1 base = byte_port z h 1 base OR 7"
    unfolding direct_log_def Let_def
    by (simp only: byte_rmw_same a n) (simp add: byte_port_disjoint byte_old_small del: One_nat_def)
  show "byte_port z (direct_log z base addr h) 4 (base + 4) = addr"
    "byte_port z (direct_log z base addr h) 4 (base + 8) = 1024 * 1024 - 1"
    unfolding direct_log_def Let_def by (simp_all add: byte_rmw_other byte_port_disjoint byte_port_same)
qed

lemma direct_log_frame:
  "x \<noteq> base \<Longrightarrow> \<not> (base + 4 \<le> x \<and> x < base + 12) \<Longrightarrow> byte_at z (direct_log z base addr h) x = byte_at z h x"
  by (auto simp: direct_log_def Let_def byte_rmw_at)

section \<open>Properties\<close>

definition rec0 :: rec_st where
  "rec0 = zynq.extend zynq0 \<lparr>cma_ptr2 = Null, buf = (\<lambda>i. of_int i)\<rparr>"

definition direct0 :: direct_st where
  "direct0 = mmio.extend (os.extend os0 \<lparr>acc_log = []\<rparr>) \<lparr>dbuf = (\<lambda>i. of_int i)\<rparr>"

text \<open>
  (C13) \<^verbatim>\<open>adc_recorder_uio\<close>: when its two initialisers succeed the program returns 0.  Its writes to the configuration registers are, in this
  order: the physical address of the buffer, the number of samples, and for the writer, the filters and the packetizer
  in turn the reset asserted (the bit cleared) and released (the bit set), every other bit of the reset register as it was.  Its output is one
  row for each of the 1048576 words of the buffer, in their order: the two samples of the word and the word.
\<close>

theorem adc_recorder_uio_records:
  assumes "cfg_init E s = Done 0 s1" "cma_init E s1 = Done 0 s2" "page_size E = 4096" "holds_writes E cfg_dev z"
  shows "\<exists>t a. adc_recorder_uio_main E s = Done 0 t \<and> cma_alloc E 4194304 = Some a \<and>
    rev (writes t) = rev (writes s) @ recorder_writes a (bus E (hist s) cfg_dev 0) \<and>
    out t = out s @ concat (map (\<lambda>j. let i = 4 * int j in row3 (le_val (buf s) 2 i) (le_val (buf s) 2 (i + 2)) (le_val (buf s) 4 i)) [0..<1048576])"
proof -
  have b: "bus E h cfg_dev a = last_write z h cfg_dev a" for h a using assms(4) by (simp add: holds_writes_def)
  have r: "all_rows (uio_text f) 1048576 =
      concat (map (\<lambda>j. let i = 4 * int j in row3 (le_val f 2 i) (le_val f 2 (i + 2)) (le_val f 4 i)) [0..<1048576])" for f
    by (simp only: all_rows_def uio_text_def Let_def)
  define t where "t = s2\<lparr>hist := recorder_hist z (dev_size s2) (hist s), out := out s @ all_rows (uio_text (buf s)) 1048576,
        closed := cfg_fd s2 # closed s2\<rparr>"
  have "adc_recorder_uio_main E s = Done 0 t" unfolding t_def by (rule uio_main_run [OF assms])
  moreover have "cma_alloc E 4194304 = Some (dev_size s2)" using cma_init_done [OF assms(2)] assms(3) by simp
  moreover have "rev (writes t) = rev (writes s) @ recorder_writes (dev_size s2) (bus E (hist s) cfg_dev 0)"
    by (simp add: t_def writes_def recorder_hist_writes b)
  moreover have "out t = out s @ all_rows (uio_text (buf s)) 1048576" by (simp add: t_def)
  ultimately show ?thesis unfolding r by blast
qed

theorem adc_recorder_uio_records_witness:
  "\<exists>t. adc_recorder_uio_main bench rec0 = Done 0 t \<and> rev (writes t) = recorder_writes 0x1E000000 0"
proof -
  obtain s1 where a: "cfg_init bench rec0 = Done 0 s1"
    by (simp add: cfg_init_def uio_init_def get_memory_size_def bench_def Let_def sys_mmap_def
        scan_size_def scan_hex8_def isspace_def skip_sign_def skip_0x_def is_digit_def digit_val_def horner_def)
  obtain s2 where b: "cma_init bench s1 = Done 0 s2"
    by (simp add: cma_init_def bench_def sys_mmap_def Let_def)
  have "hist rec0 = []" "writes rec0 = []" by (simp_all add: writes_def rec0_def zynq.defs zynq0_def os.defs os0_def)
  moreover obtain t a where "adc_recorder_uio_main bench rec0 = Done 0 t" "cma_alloc bench 4194304 = Some a"
    "rev (writes t) = rev (writes rec0) @ recorder_writes a (bus bench (hist rec0) cfg_dev 0)"
    using adc_recorder_uio_records [OF a b bench_simps(1,9)] by blast
  ultimately show ?thesis by (intro exI [of _ t]) simp
qed

text \<open>
  (C38) \<^verbatim>\<open>adc_recorder\<close> counts bytes where it means samples, because its \<^verbatim>\<open>cma_ptr\<close> is a \<^verbatim>\<open>void *\<close>: it runs to the end and prints
  1048576 rows, but row \<open>i\<close> shows the samples \<open>i\<close> and \<open>i + 1\<close> of the recording instead of \<open>2 * i\<close> and \<open>2 * i + 1\<close>, so that neighbouring
  rows share a sample, and beside them the word that starts at byte \<open>i\<close>.  Nothing after the first 2097154 of the 4194304 bytes is shown:
  two recordings that agree on them give the same output.
\<close>

theorem adc_recorder_shows_half:
  assumes "recorder_env E" "\<forall>x. 0 \<le> x \<and> x < 2097154 \<longrightarrow> f x = g x"
  shows "\<exists>t u pre. adc_recorder_main E (s\<lparr>buf := f\<rparr>) = Done 0 t \<and> adc_recorder_main E (s\<lparr>buf := g\<rparr>) = Done 0 u \<and> out t = out u \<and>
    out t = pre @ concat (map (\<lambda>i. row3 (sample f i) (sample f (i + 1)) (le_val f 4 (int i))) [0..<1048576]) @ ''Saliendo ...'' @ nl"
proof -
  have e: "all_rows (rec_text f) 1048576 = all_rows (rec_text g) 1048576"
    unfolding all_rows_def using rec_text_local [of f g] assms(2) by (intro arg_cong [of _ _ concat] map_cong) auto
  have "rec_text f (int i) = row3 (sample f i) (sample f (i + 1)) (le_val f 4 (int i))" for i
    by (simp add: rec_text_def sample_def algebra_simps)
  then have r: "all_rows (rec_text f) 1048576 = concat (map (\<lambda>i. row3 (sample f i) (sample f (i + 1)) (le_val f 4 (int i))) [0..<1048576])"
    by (simp only: all_rows_def)
  obtain pre where p: "\<And>h. \<exists>t. adc_recorder_main E (s\<lparr>buf := h\<rparr>) = Done 0 t \<and> out t = pre @ all_rows (rec_text h) 1048576 @ ''Saliendo ...'' @ nl"
    using adc_recorder_run [OF assms(1), of s] by blast
  obtain t where t: "adc_recorder_main E (s\<lparr>buf := f\<rparr>) = Done 0 t" "out t = pre @ all_rows (rec_text f) 1048576 @ ''Saliendo ...'' @ nl"
    using p [of f] by blast
  obtain u where u: "adc_recorder_main E (s\<lparr>buf := g\<rparr>) = Done 0 u" "out u = pre @ all_rows (rec_text g) 1048576 @ ''Saliendo ...'' @ nl"
    using p [of g] by blast
  have "out t = out u" by (simp only: t(2) u(2) e)
  with t u(1) show ?thesis unfolding r by blast
qed

theorem adc_recorder_shows_half_witness:
  "\<exists>t u. adc_recorder_main bench (rec0\<lparr>buf := \<lambda>x. 0\<rparr>) = Done 0 t \<and>
     adc_recorder_main bench (rec0\<lparr>buf := \<lambda>x. if x < 2097154 then 0 else 1\<rparr>) = Done 0 u \<and> out t = out u"
proof -
  have "recorder_env bench" "\<forall>x. 0 \<le> x \<and> x < 2097154 \<longrightarrow> (\<lambda>x. 0 :: u8) x = (\<lambda>x. if x < 2097154 then 0 else 1) (x :: int)"
    by (simp_all add: recorder_env_def)
  from adc_recorder_shows_half [OF this, of rec0] show ?thesis by blast
qed

text \<open>
  The single-file recorder reaches its registers by casts: a 32-bit store for the address and the number of samples and
  byte-wide read-modify-writes for the resets.  On registers that keep their bytes it leaves exactly that: the two words,
  the three low bits of the reset byte set, and every other byte of the device as it was.
\<close>

theorem direct_recorder_configures:
  assumes "page_size E = 4096" "holds_bytes P z base (base + 4096)" "buffer_mapped E ram"
  shows "\<exists>t. direct_run E P (Mapped ''/dev/mem'' base 4096) ram addr s = Done 0 t \<and>
    out t = out s @ all_rows (direct_text (dbuf s)) 1048576 \<and>
    byte_port z (acc_log t) 4 (base + 4) = addr \<and> byte_port z (acc_log t) 4 (base + 8) = 1048575 \<and>
    byte_port z (acc_log t) 1 base = byte_port z (acc_log s) 1 base OR 7 \<and>
    (\<forall>x. x \<noteq> base \<and> \<not> (base + 4 \<le> x \<and> x < base + 12) \<longrightarrow> byte_at z (acc_log t) x = byte_at z (acc_log s) x)"
  unfolding direct_run_log [OF assms] using direct_log_frame [of _ base z addr "acc_log s"]
  by (simp add: direct_log_regs del: One_nat_def)

theorem direct_recorder_configures_witness:
  "\<exists>t. direct_run bench (byte_port (\<lambda>a. 0xF0)) (Mapped ''/dev/mem'' 0x40001000 4096) (Mapped ''/dev/cma'' 0 4194304) 0x1E000000 direct0
      = Done 0 t \<and> byte_port (\<lambda>a. 0xF0) (acc_log t) 1 0x40001000 = 0xF7"
proof -
  have "byte_port (\<lambda>a. 0xF0) (acc_log direct0) 1 0x40001000 = 0xF0"
    by (simp add: byte_port_def direct0_def mmio.defs os.defs)
  then show ?thesis
    using direct_recorder_configures [where E = bench and P = "byte_port (\<lambda>a. 0xF0)" and z = "\<lambda>a. 0xF0" and base = "0x40001000"
      and ram = "Mapped ''/dev/cma'' 0 4194304" and addr = "0x1E000000" and s = direct0]
    by auto
qed

end
