(* ===== verification/Zynq_Variants.thy ===== *)
theory Zynq_Variants
  imports ADC_Recorder
begin

text \<open>
  The power-up configuration in the recorders' copies of \<^verbatim>\<open>zynq_io.c\<close>.  The text of \<^verbatim>\<open>init_system\<close> is that of
  \<^verbatim>\<open>lago_v1_3\<close>, but it is compiled against another header: \<^verbatim>\<open>zynq_io.h\<close> of \<^verbatim>\<open>adc_recorder\<close>, \<^verbatim>\<open>adc_recorder_uio\<close> and
  \<^verbatim>\<open>counter_test\<close> gives \<^verbatim>\<open>CFG_NSAMPLES_OFFSET\<close> and \<^verbatim>\<open>CFG_TRLVL_1_OFFSET\<close> the same value.
\<close>

definition CFG_TRLVL_1 :: u32 where "CFG_TRLVL_1 = 0x8"
definition CFG_TRLVL_2 :: u32 where "CFG_TRLVL_2 = 0xC"
definition CFG_STRLVL_1 :: u32 where "CFG_STRLVL_1 = 0x10"
definition CFG_STRLVL_2 :: u32 where "CFG_STRLVL_2 = 0x14"
definition CFG_TR_SCAL_A :: u32 where "CFG_TR_SCAL_A = 0x38"
definition CFG_TR_SCAL_B :: u32 where "CFG_TR_SCAL_B = 0x3C"
definition CFG_HV1 :: u32 where "CFG_HV1 = 0x4C"
definition CFG_HV2 :: u32 where "CFG_HV2 = 0x48"

definition uio_init_system :: "env \<Rightarrow> ('a zynq_scheme, int) io" where
  "uio_init_system E =
     thn (stmts
       [cfg_write E CFG_TRLVL_1 8190,
        cfg_write E CFG_TRLVL_2 8190,
        cfg_write E CFG_STRLVL_1 8190,
        cfg_write E CFG_STRLVL_2 8190,
        cfg_write E CFG_HV1 0,
        cfg_write E CFG_HV2 0,
        cfg_rmw E CFG_RESET_GRAL (\<lambda>v. v AND NOT 8),
        cfg_rmw E CFG_RESET_GRAL (\<lambda>v. v AND NOT 1),
        cfg_rmw E CFG_RESET_GRAL (\<lambda>v. v AND NOT 4),
        cfg_rmw E CFG_RESET_GRAL (\<lambda>v. v AND NOT 2),
        cfg_write E CFG_NSAMPLES (1024 * 1024),
        cfg_write E CFG_TR_SCAL_A 1,
        cfg_write E CFG_TR_SCAL_B 1,
        cfg_rmw E CFG_RESET_GRAL (\<lambda>v. v OR FGPS_EN_MASK),
        cfg_rmw E CFG_RESET_GRAL (\<lambda>v. v OR 8),
        cfg_rmw E CFG_RESET_GRAL (\<lambda>v. v OR 0x20)])
     (ret 0)"

text \<open>What it leaves in the registers, by offset.\<close>

definition uio_power_up :: "(int \<Rightarrow> u32) \<Rightarrow> int \<Rightarrow> u32" where
  "uio_power_up old = old
     (0x8 := 1048576, 0xC := 8190, 0x10 := 8190, 0x14 := 8190, 0x4C := 0, 0x48 := 0, 0x38 := 1, 0x3C := 1,
      0 := (old 0 AND NOT 0xF) OR 0x38)"

lemmas uio_offsets = CFG_TRLVL_1_def CFG_TRLVL_2_def CFG_STRLVL_1_def CFG_STRLVL_2_def CFG_TR_SCAL_A_def CFG_TR_SCAL_B_def
  CFG_HV1_def CFG_HV2_def CFG_RESET_GRAL_def CFG_NSAMPLES_def

lemma uio_init_hist:
  assumes "cfg_ready E s" "holds_writes E cfg_dev z"
  shows "\<exists>h. uio_init_system E s = Done 0 (s\<lparr>hist := h\<rparr>) \<and>
    (\<forall>a. last_write z h cfg_dev a = uio_power_up (last_write z (hist s) cfg_dev) a)"
proof -
  let ?w = "\<lambda>r v h. Wr cfg_dev r v # h"
  let ?m = "\<lambda>f h. bank.rmw z cfg_dev 0 f h"
  define h where "h =
    ?m (\<lambda>v. v OR 0x20) (?m (\<lambda>v. v OR 8) (?m (\<lambda>v. v OR 0x10) (?w 0x3C 1 (?w 0x38 1 (?w 0x8 (1024 * 1024)
    (?m (\<lambda>v. v AND NOT 2) (?m (\<lambda>v. v AND NOT 4) (?m (\<lambda>v. v AND NOT 1) (?m (\<lambda>v. v AND NOT 8)
    (?w 0x48 0 (?w 0x4C 0 (?w 0x14 8190 (?w 0x10 8190 (?w 0xC 8190 (?w 0x8 8190 (hist s))))))))))))))))"
  have "reg_offset 0" "reg_offset 8" "reg_offset 0xC" "reg_offset 0x10" "reg_offset 0x14" "reg_offset 0x38" "reg_offset 0x3C"
    "reg_offset 0x48" "reg_offset 0x4C" by (simp_all add: reg_offset_def)
  then have "uio_init_system E s = Done 0 (s\<lparr>hist := h\<rparr>)"
    using assms unfolding h_def by (simp add: uio_init_system_def cfg_write_app cfg_rmw_app FGPS_EN_MASK_def uio_offsets)
  moreover have "last_write z h cfg_dev a = uio_power_up (last_write z (hist s) cfg_dev) a" for a
    unfolding h_def
    by (simp only: bank.rd_rmw bank.rd_wr uio_power_up_def fun_upd_apply if_True if_False simp_thms eq_commute [of a])
      (use reset_bits [of "last_write z (hist s) cfg_dev 0"] in simp)
  ultimately show ?thesis by blast
qed

section \<open>Properties\<close>

text \<open>
  The recorders' \<^verbatim>\<open>init_system\<close> loses the first trigger level: it sets every register as the station's does
  (\<open>power_up\<close>: the levels 8190, the high voltages 0, the scalers 1, the reset bits), except that the number of
  samples is stored over the first trigger level, which ends at 1048576.
\<close>

theorem recorder_trigger_level_lost:
  assumes "cfg_ready E s" "holds_writes E cfg_dev z"
  shows "\<exists>h. uio_init_system E s = Done 0 (s\<lparr>hist := h\<rparr>) \<and>
    bus E h cfg_dev (uint CFG_TRLVL_1) = 1048576 \<and> bus E h cfg_dev (uint CFG_TRLVL_1) \<noteq> power_up (reg E s) TRLVL_1 \<and>
    (\<forall>r. r \<noteq> TRLVL_1 \<and> r \<noteq> NSAMPLES \<longrightarrow> bus E h cfg_dev (uint (cfg_off r)) = power_up (reg E s) r)"
proof -
  obtain h where h: "uio_init_system E s = Done 0 (s\<lparr>hist := h\<rparr>)"
    "\<forall>a. last_write z h cfg_dev a = uio_power_up (last_write z (hist s) cfg_dev) a"
    using uio_init_hist [OF assms] by blast
  have "r \<noteq> TRLVL_1 \<and> r \<noteq> NSAMPLES \<longrightarrow> uio_power_up (last_write z (hist s) cfg_dev) (uint (cfg_off r)) = power_up (reg E s) r" for r
    using assms(2) by (cases r) (simp_all add: uio_power_up_def power_up_def reg_def holds_writes_def)
  moreover have "uio_power_up (last_write z (hist s) cfg_dev) (uint CFG_TRLVL_1) = 1048576"
    by (simp add: uio_power_up_def CFG_TRLVL_1_def)
  moreover have "power_up (reg E s) TRLVL_1 = 8190" by (simp add: power_up_def)
  ultimately show ?thesis using h assms(2) by (intro exI [of _ h]) (simp add: holds_writes_def)
qed

theorem recorder_trigger_level_lost_witness:
  "\<exists>h. uio_init_system bench zynq0 = Done 0 (zynq0\<lparr>hist := h\<rparr>) \<and> bus bench h cfg_dev 8 = 1048576"
  using recorder_trigger_level_lost [of bench zynq0 "\<lambda>a. 0"] by (auto simp: CFG_TRLVL_1_def)

end
