(* ===== verification/ADC_Server.thy ===== *)
theory ADC_Server
  imports Mmio
begin

text \<open>
  The sample server of \<^verbatim>\<open>adc_test\<close>: \<^verbatim>\<open>adc-test-server.c\<close>.  The writer in the programmable logic fills a ring of 65536
  64-bit words (512 KiB); the server waits until one half of the ring is full and sends it while the writer fills
  the other half.  Set-up is a program on the platform; the service loop is a state machine in which the statements of
  the server, the words the writer stores (\<^verbatim>\<open>axis_ram_writer.vhd\<close>) and the signal interleave freely.  A transfer to the client copies
  one word per step, so the writer may overtake it; the ghost flag \<open>overrun\<close> records that the writer replaced a word that
  had not been sent yet.
\<close>

section \<open>Set-up\<close>

record net =
  net_socket :: int
  net_bind :: int

text \<open>The status registers, the configuration registers and the ring, or the exit code.\<close>

definition server_setup :: "env \<Rightarrow> net \<Rightarrow> ('a mmio_scheme, int + ptr \<times> ptr \<times> ptr) io" where
  "server_setup E N =
     bnd (sys_open E ''/dev/mem'') (\<lambda>fd.
     if fd < 0 then thn (perror ''open'') (ret (Inl 1))
     else let sts = sys_mmap E ''/dev/mem'' 0x40000000 (page_size E);
              cfg = sys_mmap E ''/dev/mem'' 0x40001000 (page_size E) in
       thn (sys_close fd)
      (bnd (sys_open E ''/dev/cma'') (\<lambda>fd.
       if fd < 0 then thn (perror ''open'') (ret (Inl 1))
       else (case cma_alloc E (of_int (128 * page_size E)) of
           None \<Rightarrow> thn (perror ''ioctl'') (ret (Inl 1))
         | Some addr \<Rightarrow>
             let ring = sys_mmap E ''/dev/cma'' 0 (128 * page_size E) in
             thn (mstore E 4 cfg 4 addr)
             (if net_socket N < 0 then thn (perror ''socket'') (ret (Inl 1))
              else if net_bind N < 0 then thn (perror ''bind'') (ret (Inl 1))
              else ret (Inr (sts, cfg, ring)))))))"

section \<open>State\<close>

datatype srv_pc =
    P_Loop              \<comment> \<open>\<^verbatim>\<open>while(!interrupted)\<close>, outer\<close>
  | P_Rst1              \<comment> \<open>\<^verbatim>\<open>*rx_rst &= ~1\<close>\<close>
  | P_Rst2              \<comment> \<open>\<^verbatim>\<open>*rx_rst &= ~2; *rx_rate = 4\<close>\<close>
  | P_Accept            \<comment> \<open>\<^verbatim>\<open>accept\<close>\<close>
  | P_Start             \<comment> \<open>\<^verbatim>\<open>signal; *rx_rst |= 3; limit = 32*1024\<close>\<close>
  | P_While             \<comment> \<open>\<^verbatim>\<open>while(!interrupted)\<close>, inner\<close>
  | P_Poll              \<comment> \<open>\<^verbatim>\<open>position = *rx_cntr\<close> and the test\<close>
  | P_Send nat          \<comment> \<open>inside \<^verbatim>\<open>send\<close>, so many words copied\<close>
  | P_Close             \<comment> \<open>\<^verbatim>\<open>signal(SIGINT, SIG_DFL); close(sock_client)\<close>\<close>
  | P_End1 | P_End2     \<comment> \<open>the last reset\<close>
  | P_Exit int | P_Killed

record srv =
  srv_pc :: srv_pc
  interrupted :: bool
  catches :: bool
  rx_rst :: u8
  rx_rate :: u16
  limit :: int
  position :: int
  offset :: int
  run_no :: nat
  written :: nat
  ring :: "nat \<Rightarrow> 64 word"
  sent :: "64 word list"
  overrun :: bool

datatype ev = Cpu | Accept_Fails | Send_Fails | Store | Sigint

section \<open>Steps\<close>

abbreviation half :: nat where "half \<equiv> 32768"
abbreviation ring_size :: nat where "ring_size \<equiv> 65536"

text \<open>The writer: out of reset it stores the next word at its address and increments it; the address has 16 bits and is
  the status word \<^verbatim>\<open>*rx_cntr\<close>.  In reset its address is 0.\<close>

definition writer_pos :: "srv \<Rightarrow> nat" where
  "writer_pos s = written s mod ring_size"

definition writer_store :: "(nat \<Rightarrow> nat \<Rightarrow> 64 word) \<Rightarrow> srv \<Rightarrow> srv option" where
  "writer_store samples s =
     (if bit (rx_rst s) 1
      then Some (s\<lparr>ring := (ring s)(writer_pos s := samples (run_no s) (written s)), written := Suc (written s),
                   overrun := overrun s \<or> length (sent s) + ring_size \<le> written s\<rparr>)
      else None)"

definition clear_rst2 :: "srv \<Rightarrow> srv" where
  "clear_rst2 s = s\<lparr>rx_rst := rx_rst s AND NOT 2, written := 0\<rparr>"

text \<open>The decision of the inner loop.\<close>

definition poll :: "srv \<Rightarrow> srv" where
  "poll s =
     (let s1 = s\<lparr>position := int (writer_pos s)\<rparr> in
      if (limit s1 > 0 \<and> position s1 > limit s1) \<or> (limit s1 = 0 \<and> position s1 < 32 * 1024)
      then s1\<lparr>offset := if limit s1 > 0 then 0 else 256 * 1024, limit := if limit s1 > 0 then 0 else 32 * 1024, srv_pc := P_Send 0\<rparr>
      else s1\<lparr>srv_pc := P_While\<rparr>)"

text \<open>One word of \<^verbatim>\<open>send(sock_client, ram + offset, 256*1024, MSG_NOSIGNAL)\<close>.\<close>

definition send_word :: "nat \<Rightarrow> srv \<Rightarrow> srv" where
  "send_word k s =
     s\<lparr>sent := sent s @ [ring s (nat (offset s) div 8 + k)], srv_pc := if Suc k = half then P_While else P_Send (Suc k)\<rparr>"

definition cpu :: "srv \<Rightarrow> srv option" where
  "cpu s =
     (case srv_pc s of
        P_Loop \<Rightarrow> Some (s\<lparr>srv_pc := if interrupted s then P_End1 else P_Rst1\<rparr>)
      | P_Rst1 \<Rightarrow> Some (s\<lparr>rx_rst := rx_rst s AND NOT 1, srv_pc := P_Rst2\<rparr>)
      | P_Rst2 \<Rightarrow> Some ((clear_rst2 s)\<lparr>rx_rate := 4, srv_pc := P_Accept\<rparr>)
      | P_Accept \<Rightarrow> Some (s\<lparr>sent := [], srv_pc := P_Start\<rparr>)
      | P_Start \<Rightarrow> Some (s\<lparr>catches := True, rx_rst := rx_rst s OR 3, limit := 32 * 1024, run_no := Suc (run_no s),
                           overrun := False, srv_pc := P_While\<rparr>)
      | P_While \<Rightarrow> Some (s\<lparr>srv_pc := if interrupted s then P_Close else P_Poll\<rparr>)
      | P_Poll \<Rightarrow> Some (poll s)
      | P_Send k \<Rightarrow> Some (send_word k s)
      | P_Close \<Rightarrow> Some (s\<lparr>catches := False, srv_pc := P_Loop\<rparr>)
      | P_End1 \<Rightarrow> Some (s\<lparr>rx_rst := rx_rst s AND NOT 1, srv_pc := P_End2\<rparr>)
      | P_End2 \<Rightarrow> Some ((clear_rst2 s)\<lparr>srv_pc := P_Exit 0\<rparr>)
      | P_Exit c \<Rightarrow> None
      | P_Killed \<Rightarrow> None)"

text \<open>The handler sets \<^verbatim>\<open>interrupted\<close>; without it the signal ends the process.\<close>

definition srv_signal_handler :: "srv \<Rightarrow> srv" where
  "srv_signal_handler s = s\<lparr>interrupted := True\<rparr>"

fun ended :: "srv_pc \<Rightarrow> bool" where
  "ended (P_Exit c) = True"
| "ended P_Killed = True"
| "ended _ = False"

fun srv_step :: "(nat \<Rightarrow> nat \<Rightarrow> 64 word) \<Rightarrow> ev \<Rightarrow> srv \<Rightarrow> srv option" where
  "srv_step samples Cpu s = cpu s"
| "srv_step samples Store s = writer_store samples s"
| "srv_step samples Accept_Fails s = (if srv_pc s = P_Accept then Some (s\<lparr>srv_pc := P_Exit 1\<rparr>) else None)"
| "srv_step samples Send_Fails s = (case srv_pc s of P_Send k \<Rightarrow> Some (s\<lparr>srv_pc := P_Close\<rparr>) | _ \<Rightarrow> None)"
| "srv_step samples Sigint s =
     (if ended (srv_pc s) then None else if catches s then Some (srv_signal_handler s) else Some (s\<lparr>srv_pc := P_Killed\<rparr>))"

text \<open>The events of an execution, one after the other.\<close>

fun srv_run :: "(nat \<Rightarrow> nat \<Rightarrow> 64 word) \<Rightarrow> ev list \<Rightarrow> srv \<Rightarrow> srv option" where
  "srv_run samples [] s = Some s"
| "srv_run samples (e # es) s = (case srv_step samples e s of None \<Rightarrow> None | Some t \<Rightarrow> srv_run samples es t)"

definition srv_init :: "srv \<Rightarrow> bool" where
  "srv_init s \<longleftrightarrow> srv_pc s = P_Loop \<and> \<not> interrupted s \<and> \<not> catches s \<and> sent s = []"

inductive srv_reach :: "(nat \<Rightarrow> nat \<Rightarrow> 64 word) \<Rightarrow> srv \<Rightarrow> bool" for samples where
  init: "srv_init s \<Longrightarrow> srv_reach samples s"
| step: "srv_reach samples s \<Longrightarrow> srv_step samples e s = Some t \<Longrightarrow> srv_reach samples t"

section \<open>Invariant\<close>

text \<open>While a client is served: what has been sent is a prefix of the stream, and the ring holds the words between the
  last one sent and the last one written.\<close>

definition srv_window :: "(nat \<Rightarrow> nat \<Rightarrow> 64 word) \<Rightarrow> srv \<Rightarrow> bool" where
  "srv_window samples s \<longleftrightarrow>
     length (sent s) \<le> written s \<and> written s \<le> length (sent s) + ring_size \<and>
     (\<forall>j. length (sent s) \<le> j \<and> j < written s \<longrightarrow> ring s (j mod ring_size) = samples (run_no s) j)"

fun phase :: "srv_pc \<Rightarrow> srv \<Rightarrow> bool" where
  "phase P_While s = ((limit s = 32768 \<and> length (sent s) mod ring_size = 0) \<or> (limit s = 0 \<and> length (sent s) mod ring_size = half))"
| "phase P_Poll s = ((limit s = 32768 \<and> length (sent s) mod ring_size = 0) \<or> (limit s = 0 \<and> length (sent s) mod ring_size = half))"
| "phase (P_Send k) s =
     (k < half \<and> (\<not> overrun s \<longrightarrow> length (sent s) + half \<le> written s + k) \<and>
      ((offset s = 0 \<and> limit s = 0 \<and> length (sent s) mod ring_size = k) \<or>
       (offset s = 262144 \<and> limit s = 32768 \<and> length (sent s) mod ring_size = half + k)))"
| "phase _ s = True"

fun streaming :: "srv_pc \<Rightarrow> bool" where
  "streaming P_While = True"
| "streaming P_Poll = True"
| "streaming (P_Send k) = True"
| "streaming _ = False"

fun srv_idle :: "srv_pc \<Rightarrow> bool" where
  "srv_idle P_Accept = True"
| "srv_idle P_Start = True"
| "srv_idle (P_Exit c) = True"
| "srv_idle _ = False"

text \<open>What the client got is the beginning of the stream.\<close>

definition prefix_sent :: "(nat \<Rightarrow> 64 word) \<Rightarrow> 64 word list \<Rightarrow> bool" where
  "prefix_sent stream xs \<longleftrightarrow> xs = map stream [0..<length xs]"

definition srv_inv :: "(nat \<Rightarrow> nat \<Rightarrow> 64 word) \<Rightarrow> srv \<Rightarrow> bool" where
  "srv_inv samples s \<longleftrightarrow>
     phase (srv_pc s) s \<and>
     (srv_idle (srv_pc s) \<longrightarrow> \<not> bit (rx_rst s) 0 \<and> \<not> bit (rx_rst s) 1 \<and> written s = 0) \<and>
     (srv_pc s = P_Rst2 \<or> srv_pc s = P_End2 \<longrightarrow> \<not> bit (rx_rst s) 0) \<and>
     (srv_pc s = P_Start \<longrightarrow> sent s = []) \<and>
     (streaming (srv_pc s) \<longrightarrow> bit (rx_rst s) 0 \<and> bit (rx_rst s) 1) \<and>
     (streaming (srv_pc s) \<and> \<not> overrun s \<longrightarrow> srv_window samples s) \<and>
     (\<not> overrun s \<longrightarrow> prefix_sent (samples (run_no s)) (sent s))"

lemma clear_bits8: "\<not> bit ((w :: u8) AND - 2) 0" "\<not> bit ((w :: u8) AND - 3) (Suc 0)" "bit ((w :: u8) AND - 3) 0 = bit w 0"
proof -
  have "(- 2 :: u8) = NOT 1" "(- 3 :: u8) = NOT 2" by simp_all
  then show "\<not> bit ((w :: u8) AND - 2) 0" "\<not> bit ((w :: u8) AND - 3) (Suc 0)" "bit ((w :: u8) AND - 3) 0 = bit w 0"
    by (simp_all only: bit_and_iff bit_not_iff) (simp_all add: bit_simps)
qed

lemma set_bits8: "bit ((w :: u8) OR 3) 0" "bit ((w :: u8) OR 3) (Suc 0)"
  by (simp_all add: bit_simps)

lemma prefix_sent_simps [simp]:
  "prefix_sent stream []"
  "prefix_sent stream xs \<Longrightarrow> prefix_sent stream (xs @ [x]) = (x = stream (length xs))"
  by (simp_all add: prefix_sent_def)

lemma window_store:
  assumes "srv_window samples s" "writer_store samples s = Some t" "\<not> overrun t"
  shows "srv_window samples t"
proof -
  let ?n = "length (sent s)" and ?w = "written s"
  have w: "?n \<le> ?w" "?w < ?n + ring_size" "\<And>j. ?n \<le> j \<Longrightarrow> j < ?w \<Longrightarrow> ring s (j mod ring_size) = samples (run_no s) j"
    using assms by (auto simp: srv_window_def writer_store_def split: if_splits)
  have d: "j mod ring_size \<noteq> ?w mod ring_size" if "?n \<le> j" "j < ?w" for j
  proof
    assume "j mod ring_size = ?w mod ring_size"
    then have "ring_size dvd ?w - j" using that(2) mod_eq_dvd_iff_nat [of j ?w ring_size] by simp
    then have "ring_size \<le> ?w - j" by (rule dvd_imp_le) (use that in simp)
    then show False using w(2) that by simp
  qed
  have "ring t (j mod ring_size) = samples (run_no t) j" if "?n \<le> j" "j < Suc ?w" for j
    using assms(2) d [of j] w(3) [of j] that by (cases "j = ?w") (auto simp: writer_store_def writer_pos_def split: if_splits)
  with w assms(2) show ?thesis by (auto simp: srv_window_def writer_store_def split: if_splits)
qed

lemma inv_store:
  assumes "srv_inv samples s" "writer_store samples s = Some t"
  shows "srv_inv samples t"
proof -
  have t: "srv_pc t = srv_pc s" "rx_rst t = rx_rst s" "sent t = sent s" "run_no t = run_no s" "bit (rx_rst s) 1" "overrun s \<longrightarrow> overrun t"
    "limit t = limit s" "offset t = offset s" "written t = Suc (written s)"
    using assms(2) by (auto simp: writer_store_def split: if_splits)
  have "phase (srv_pc s) t" using assms(1) t by (cases "srv_pc s") (auto simp: srv_inv_def)
  moreover have "srv_window samples t" if "streaming (srv_pc s)" "\<not> overrun t"
    using window_store [OF _ assms(2)] assms(1) that t by (auto simp: srv_inv_def)
  ultimately show ?thesis using assms(1) t unfolding srv_inv_def by auto
qed

lemma inv_send:
  assumes "srv_inv samples s" "srv_pc s = P_Send k"
  shows "srv_inv samples (send_word k s)"
proof -
  let ?n = "length (sent s)"
  have p: "k < half" "bit (rx_rst s) 0" "bit (rx_rst s) 1"
    "(offset s = 0 \<and> limit s = 0 \<and> ?n mod ring_size = k) \<or> (offset s = 262144 \<and> limit s = 32768 \<and> ?n mod ring_size = half + k)"
    using assms by (auto simp: srv_inv_def)
  have a: "nat (offset s) div 8 + k = ?n mod ring_size" using p(4) by auto
  have "?n < written s" "?n + half \<le> written s + k" "srv_window samples s" "prefix_sent (samples (run_no s)) (sent s)"
    if "\<not> overrun s"
    using assms p(1) that by (auto simp: srv_inv_def)
  then have b: "ring s (nat (offset s) div 8 + k) = samples (run_no s) ?n" "srv_window samples (send_word k s)"
    "prefix_sent (samples (run_no s)) (sent (send_word k s))" "Suc ?n + half \<le> written s + Suc k"
    if "\<not> overrun s"
    using that unfolding a srv_window_def by (auto simp: send_word_def a srv_window_def)
  have "phase (if Suc k = half then P_While else P_Send (Suc k)) (send_word k s)"
  proof (cases "Suc k = half")
    case True
    with p(4) show ?thesis by (auto simp: send_word_def mod_Suc)
  next
    case False
    with p(1,4) b(4) show ?thesis by (auto simp: send_word_def mod_Suc)
  qed
  with b p(2,3) show ?thesis
    unfolding srv_inv_def by (auto simp: send_word_def)
qed

text \<open>What the test of the position means: as long as nothing was lost it succeeds when the half to send is
  full and the writer is inside the other half.\<close>

definition half_ready :: "srv \<Rightarrow> bool" where
  "half_ready s \<longleftrightarrow>
     (limit s > 0 \<and> int (writer_pos s) > limit s) \<or> (limit s = 0 \<and> int (writer_pos s) < 32 * 1024)"

lemma mod_window:
  fixes n w :: nat
  assumes "n \<le> w" "w < n + ring_size"
  shows "w mod ring_size = (if n mod ring_size + (w - n) < ring_size then n mod ring_size + (w - n) else n mod ring_size + (w - n) - ring_size)"
proof -
  define x where "x = n mod ring_size + (w - n)"
  have "w mod ring_size = x mod ring_size"
    using assms(1) mod_add_left_eq [of n ring_size "w - n"] by (simp add: x_def)
  moreover have "x < ring_size + ring_size"
    using assms(2) mod_less_divisor [of ring_size n] unfolding x_def by linarith
  ultimately have "w mod ring_size = (if x < ring_size then x else x - ring_size)"
    by (cases "x < ring_size") (simp_all add: le_mod_geq)
  then show ?thesis by (simp only: x_def)
qed

lemma half_ready_iff:
  assumes "srv_window samples s" "phase P_Poll s"
  shows "half_ready s \<longleftrightarrow>
    (if limit s > 0 then length (sent s) + half < written s else length (sent s) + half \<le> written s) \<and>
    written s < length (sent s) + ring_size"
proof (cases "written s = length (sent s) + ring_size")
  case True
  with assms(2) show ?thesis by (auto simp: half_ready_def writer_pos_def)
next
  case False
  then have w: "length (sent s) \<le> written s" "written s < length (sent s) + ring_size"
    using assms(1) by (auto simp: srv_window_def)
  from assms(2) consider (even) "limit s = 32768" "length (sent s) mod ring_size = 0"
    | (odd) "limit s = 0" "length (sent s) mod ring_size = half" by auto
  then show ?thesis
  proof cases
    case even
    then have "writer_pos s = written s - length (sent s)"
      using mod_window [OF w] w by (simp add: writer_pos_def)
    with even w show ?thesis by (auto simp: half_ready_def)
  next
    case odd
    then have "writer_pos s = (if written s - length (sent s) < half then half + (written s - length (sent s))
        else written s - length (sent s) - half)"
      using mod_window [OF w] w by (auto simp: writer_pos_def)
    with odd w show ?thesis by (auto simp: half_ready_def split: if_splits)
  qed
qed

lemma poll_cases:
  "poll s = (if half_ready s
     then s\<lparr>position := int (writer_pos s), offset := if limit s > 0 then 0 else 262144,
            limit := if limit s > 0 then 0 else 32768, srv_pc := P_Send 0\<rparr>
     else s\<lparr>position := int (writer_pos s), srv_pc := P_While\<rparr>)"
  by (simp add: poll_def half_ready_def Let_def)

lemma inv_poll:
  assumes "srv_inv samples s" "srv_pc s = P_Poll"
  shows "srv_inv samples (poll s)"
proof -
  have p: "phase P_Poll s" "bit (rx_rst s) 0" "bit (rx_rst s) 1" using assms by (auto simp: srv_inv_def)
  have w: "srv_window samples s" if "\<not> overrun s" using assms that by (simp add: srv_inv_def)
  have "srv_window samples (poll s) = srv_window samples s" by (simp add: poll_cases srv_window_def)
  moreover have "phase (srv_pc (poll s)) (poll s)"
  proof (cases "half_ready s")
    case True
    then have "length (sent s) + half \<le> written s" if "\<not> overrun s"
      using half_ready_iff [OF w p(1)] that by (auto split: if_splits)
    with True p(1) show ?thesis by (auto simp: poll_cases)
  next
    case False
    with p(1) show ?thesis by (simp add: poll_cases)
  qed
  ultimately show ?thesis
    using assms(1) p w unfolding srv_inv_def by (auto simp: poll_cases)
qed

lemma inv_cpu:
  assumes "srv_inv samples s"
  shows "pred_option (srv_inv samples) (cpu s)"
proof (cases "srv_pc s")
  case P_Poll
  then show ?thesis using inv_poll [OF assms P_Poll] by (simp add: cpu_def)
next
  case (P_Send k)
  then show ?thesis using inv_send [OF assms P_Send] by (simp add: cpu_def)
next
  case P_While
  with assms show ?thesis by (simp add: cpu_def srv_inv_def srv_window_def)
next
  case P_Start
  with assms show ?thesis by (simp add: cpu_def srv_inv_def srv_window_def set_bits8)
qed (use assms in \<open>simp_all add: cpu_def srv_inv_def clear_rst2_def clear_bits8\<close>)

lemma inv_signal:
  assumes "srv_inv samples s"
  shows "pred_option (srv_inv samples) (srv_step samples Sigint s)"
proof -
  have p: "phase (srv_pc s) (srv_signal_handler s) = phase (srv_pc s) s" by (cases "srv_pc s") (simp_all add: srv_signal_handler_def)
  have "srv_inv samples (srv_signal_handler s)"
    using assms p unfolding srv_inv_def by (simp add: srv_signal_handler_def srv_window_def)
  moreover have "srv_inv samples (s\<lparr>srv_pc := P_Killed\<rparr>)"
    using assms unfolding srv_inv_def by simp
  ultimately show ?thesis by simp
qed

lemma inv_fails:
  assumes "srv_inv samples s"
  shows "pred_option (srv_inv samples) (srv_step samples Accept_Fails s)"
    and "pred_option (srv_inv samples) (srv_step samples Send_Fails s)"
  using assms by (cases "srv_pc s"; simp add: srv_inv_def)+

lemma inv_step: "srv_inv samples s \<Longrightarrow> srv_step samples e s = Some t \<Longrightarrow> srv_inv samples t"
  using inv_cpu [of samples s] inv_store [of samples s t] inv_signal [of samples s] inv_fails [of samples s]
  by (cases e) (simp_all del: srv_step.simps(3-5))

lemma reach_inv: "srv_reach samples s \<Longrightarrow> srv_inv samples s"
proof (induction rule: srv_reach.induct)
  case (init s)
  then show ?case by (simp add: srv_init_def srv_inv_def)
next
  case (step s e t)
  then show ?case using inv_step by blast
qed

lemma reach_run: "srv_reach samples s \<Longrightarrow> srv_run samples es s = Some t \<Longrightarrow> srv_reach samples t"
  by (induction samples es s rule: srv_run.induct) (auto split: option.splits intro: srv_reach.step)

section \<open>Properties\<close>

text \<open>Jumps over the events of whole halves, to reach concrete states.\<close>

lemma run_append: "srv_run samples (xs @ ys) s = (case srv_run samples xs s of None \<Rightarrow> None | Some t \<Rightarrow> srv_run samples ys t)"
  by (induction samples xs s rule: srv_run.induct) (auto split: option.splits)

lemma run_stores:
  assumes "bit (rx_rst s) 1" "\<not> overrun s" "written s + n \<le> length (sent s) + ring_size"
  shows "\<exists>r. srv_run samples (replicate n Store) s = Some (s\<lparr>ring := r, written := written s + n\<rparr>)"
  using assms
proof (induction n arbitrary: s)
  case 0
  then show ?case by (auto intro: exI [of _ "ring s"])
next
  case (Suc n)
  let ?t = "s\<lparr>ring := (ring s)(writer_pos s := samples (run_no s) (written s)), written := Suc (written s)\<rparr>"
  have "srv_step samples Store s = Some ?t" using Suc.prems by (simp add: writer_store_def)
  moreover have "\<exists>r. srv_run samples (replicate n Store) ?t = Some (?t\<lparr>ring := r, written := written ?t + n\<rparr>)"
    using Suc.IH [of ?t] Suc.prems by simp
  ultimately show ?case by simp
qed

lemma run_send:
  assumes "srv_pc s = P_Send k" "k + Suc n = half"
  shows "\<exists>xs. srv_run samples (replicate (Suc n) Cpu) s = Some (s\<lparr>sent := sent s @ xs, srv_pc := P_While\<rparr>) \<and> length xs = Suc n"
  using assms
proof (induction n arbitrary: s k)
  case 0
  then show ?case by (intro exI [of _ "[ring s (nat (offset s) div 8 + k)]"]) (simp add: cpu_def send_word_def)
next
  case (Suc n)
  let ?x = "ring s (nat (offset s) div 8 + k)"
  let ?t = "s\<lparr>sent := sent s @ [?x], srv_pc := P_Send (Suc k)\<rparr>"
  have c: "srv_step samples Cpu s = Some ?t" using Suc.prems by (simp add: cpu_def send_word_def)
  obtain xs where "srv_run samples (replicate (Suc n) Cpu) ?t = Some (?t\<lparr>sent := sent ?t @ xs, srv_pc := P_While\<rparr>)" "length xs = Suc n"
    using Suc.IH [of ?t "Suc k"] Suc.prems by fastforce
  then have "srv_run samples (replicate (Suc (Suc n)) Cpu) s = Some (s\<lparr>sent := sent s @ (?x # xs), srv_pc := P_While\<rparr>)
      \<and> length (?x # xs) = Suc (Suc n)"
    unfolding replicate_Suc [of "Suc n"] srv_run.simps(2) c option.case by simp
  then show ?case by blast
qed

definition srv0 :: srv where
  "srv0 = \<lparr>srv_pc = P_Loop, interrupted = False, catches = False, rx_rst = 0, rx_rate = 0, limit = 0, position = 0, offset = 0,
     run_no = 0, written = 0, ring = (\<lambda>i. 0), sent = [], overrun = False\<rparr>"

definition ramp :: "nat \<Rightarrow> nat \<Rightarrow> 64 word" where
  "ramp r n = of_nat (r * 65536 + n)"

text \<open>From start-up to a client that waits.\<close>

definition serving :: srv where
  "serving = srv0\<lparr>srv_pc := P_While, catches := True, rx_rst := 3, rx_rate := 4, limit := 32768, run_no := 1\<rparr>"

lemma run_serving: "srv_run samples [Cpu, Cpu, Cpu, Cpu, Cpu] srv0 = Some serving"
  by (simp add: srv0_def serving_def cpu_def clear_rst2_def)

lemma srv0_reach: "srv_reach samples srv0"
  by (rule srv_reach.init) (simp add: srv_init_def srv0_def)

lemma serving_reach: "srv_reach samples serving"
  using reach_run [OF srv0_reach run_serving] .

lemma serving_simps:
  "srv_pc serving = P_While" "rx_rst serving = 3" "written serving = 0" "sent serving = []" "\<not> overrun serving" "limit serving = 32768"
  "\<not> interrupted serving" "catches serving" "run_no serving = 1"
  by (simp_all add: serving_def srv0_def)

lemma run_half:
  "\<exists>t. srv_run samples (replicate 32769 Store @ [Cpu, Cpu] @ replicate 32768 Cpu) serving = Some t \<and>
     length (sent t) = 32768 \<and> \<not> overrun t \<and> srv_pc t = P_While \<and> run_no t = 1"
proof -
  obtain r where r: "srv_run samples (replicate 32769 Store) serving = Some (serving\<lparr>ring := r, written := 32769\<rparr>)"
    using run_stores [of serving 32769 samples] by (auto simp: serving_simps)
  let ?p = "serving\<lparr>ring := r, written := 32769, position := 32769, offset := 0, limit := 0, srv_pc := P_Send 0\<rparr>"
  have p: "srv_run samples [Cpu, Cpu] (serving\<lparr>ring := r, written := 32769\<rparr>) = Some ?p"
    by (simp add: cpu_def serving_simps poll_cases half_ready_def writer_pos_def)
  obtain xs where "srv_run samples (replicate 32768 Cpu) ?p = Some (?p\<lparr>sent := sent ?p @ xs, srv_pc := P_While\<rparr>)" "length xs = 32768"
    using run_send [of ?p 0 32767 samples] by auto
  then show ?thesis
    unfolding run_append r option.case p by (intro exI conjI) (assumption, simp_all add: serving_simps)
qed

text \<open>
  (C5) The sample server refines a perfect stream: in every reachable state in which the writer has not
  overtaken the transfer, what the current client has received is exactly the beginning of the sequence of words the writer
  produced since the client connected: no word is lost, repeated or reordered, whatever the interleaving
  of the writer, the server, failing transfers and the signal.
\<close>

theorem server_sends_stream:
  assumes "srv_reach samples s" "\<not> overrun s"
  shows "sent s = map (samples (run_no s)) [0..<length (sent s)]"
  using reach_inv [OF assms(1)] assms(2) by (simp add: srv_inv_def prefix_sent_def)

theorem server_sends_stream_witness:
  "\<exists>t. srv_reach ramp t \<and> \<not> overrun t \<and> sent t = map (ramp 1) [0..<32768]"
proof -
  obtain t where t: "srv_run ramp (replicate 32769 Store @ [Cpu, Cpu] @ replicate 32768 Cpu) serving = Some t"
    "length (sent t) = 32768" "\<not> overrun t" "run_no t = 1"
    using run_half by blast
  have "srv_reach ramp t" using reach_run [OF serving_reach t(1)] .
  from this t(3) server_sends_stream [OF this t(3)] t(2,4) show ?thesis by (intro exI [of _ t]) simp
qed

text \<open>
  The position test is exact: at a poll with nothing lost, the server starts to send when the whole half it
  is about to send has been written and the writer has not filled the ring, and only then; the half it sends is
  the one that holds the next words of the stream.
\<close>

theorem server_poll_exact:
  assumes "srv_reach samples s" "srv_pc s = P_Poll" "\<not> overrun s"
  shows "\<exists>t. srv_step samples Cpu s = Some t \<and>
    (srv_pc t = P_Send 0 \<longleftrightarrow>
       (if limit s > 0 then length (sent s) + half < written s else length (sent s) + half \<le> written s) \<and>
       written s < length (sent s) + ring_size) \<and>
    (srv_pc t = P_Send 0 \<longrightarrow> nat (offset t) div 8 = length (sent s) mod ring_size)"
proof -
  have i: "srv_window samples s" "phase P_Poll s" using reach_inv [OF assms(1)] assms(2,3) by (simp_all add: srv_inv_def)
  then have "half_ready s \<Longrightarrow> nat (offset (poll s)) div 8 = length (sent s) mod ring_size"
    by (auto simp: poll_cases)
  moreover have "srv_pc (poll s) = P_Send 0 \<longleftrightarrow> half_ready s" by (simp add: poll_cases)
  ultimately show ?thesis using assms(2) half_ready_iff [OF i] by (simp add: cpu_def)
qed

theorem server_poll_exact_witness:
  "\<exists>t. srv_step ramp Cpu (serving\<lparr>srv_pc := P_Poll\<rparr>) = Some t \<and> srv_pc t \<noteq> P_Send 0"
proof -
  have "srv_step ramp Cpu serving = Some (serving\<lparr>srv_pc := P_Poll\<rparr>)" by (simp add: cpu_def serving_simps)
  then have "srv_reach ramp (serving\<lparr>srv_pc := P_Poll\<rparr>)" using srv_reach.step [OF serving_reach] by blast
  from server_poll_exact [OF this] show ?thesis by (auto simp: serving_simps)
qed

text \<open>
  (C30) While the server waits for a client, and after it returned from \<^verbatim>\<open>main\<close> with either exit code, both reset
  bits are cleared and the writer stores nothing, so the buffer is never written when nobody reads it.
\<close>

theorem server_idle_in_reset:
  assumes "srv_reach samples s" "srv_pc s = P_Accept \<or> srv_pc s = P_Exit c"
  shows "\<not> bit (rx_rst s) 0 \<and> writer_store samples s = None \<and> writer_pos s = 0"
  using reach_inv [OF assms(1)] assms(2) by (auto simp: srv_inv_def writer_store_def writer_pos_def)

theorem server_idle_in_reset_witness:
  "writer_store ramp (srv0\<lparr>srv_pc := P_Accept, rx_rate := 4\<rparr>) = None"
proof -
  have "srv_run ramp [Cpu, Cpu, Cpu] srv0 = Some (srv0\<lparr>srv_pc := P_Accept, rx_rate := 4\<rparr>)"
    by (simp add: srv0_def cpu_def clear_rst2_def)
  from server_idle_in_reset [OF reach_run [OF srv0_reach this], of 0] show ?thesis by simp
qed

text \<open>
  A signal between the end of a connection and the next reset is not caught, because the handler has just been
  removed: the process ends, and its buffer is released, while the writer is still running and keeps storing words.
\<close>

theorem server_killed_while_writing:
  "\<exists>es t. srv_run samples es srv0 = Some t \<and> srv_pc t = P_Killed \<and> writer_store samples t \<noteq> None"
proof -
  obtain r where r: "srv_run samples (replicate 32769 Store) serving = Some (serving\<lparr>ring := r, written := 32769\<rparr>)"
    using run_stores [of serving 32769 samples] by (auto simp: serving_simps)
  let ?t = "serving\<lparr>ring := r, written := 32769, position := 32769, offset := 0, limit := 0, catches := False, srv_pc := P_Killed\<rparr>"
  have "srv_run samples [Cpu, Cpu, Send_Fails, Cpu, Sigint] (serving\<lparr>ring := r, written := 32769\<rparr>) = Some ?t"
    by (simp add: cpu_def serving_simps poll_cases half_ready_def writer_pos_def)
  then have "srv_run samples ([Cpu, Cpu, Cpu, Cpu, Cpu] @ replicate 32769 Store @ [Cpu, Cpu, Send_Fails, Cpu, Sigint]) srv0 = Some ?t"
    unfolding run_append run_serving r option.case .
  moreover have "writer_store samples ?t \<noteq> None" by (simp add: writer_store_def serving_simps bit_simps)
  ultimately show ?thesis by (metis srv.select_convs(1) srv.surjective srv.update_convs(1))
qed

end
