(* ===== verification/ADC_Tools.thy ===== *)
theory ADC_Tools
  imports Mmio
begin

text \<open>
  The three small programs beside the sample server of \<^verbatim>\<open>adc_test\<close>: \<^verbatim>\<open>gen.c\<close>, which sets amplitude and frequency of one of the two
  signal generators, the client \<^verbatim>\<open>adc-test-client_lnx.c\<close>, which prints the samples it receives, and the client
  \<^verbatim>\<open>adc-test-client_win.c\<close>, which discards them.  The frequency becomes
  a phase increment of 30 bits, computed in \<^verbatim>\<open>double\<close>; the theory shows that it is the exact nearest integer.
\<close>

section \<open>gen: arguments\<close>

text \<open>\<^verbatim>\<open>errno = 0; strtol(s, &end, 10)\<close> followed by the test \<^verbatim>\<open>errno != 0 || end == s\<close>: nothing when no digit was found or the
  number does not fit a \<^verbatim>\<open>long\<close>.\<close>

definition checked_strtol :: "string \<Rightarrow> int option" where
  "checked_strtol s =
     (let (sg, t) = skip_sign (dropWhile isspace s); ds = takeWhile (is_digit 10) t;
          v = (if sg then - horner 10 ds else horner 10 ds)
      in if ds = [] \<or> v < - (2 ^ 31) \<or> 2 ^ 31 - 1 < v then None else Some v)"

text \<open>One turn of the loop over the three arguments.  With another number of arguments \<^verbatim>\<open>end\<close> is not initialised, and \<open>stale\<close> says
  whether it happens to be equal to the argument pointer.\<close>

definition gen_number :: "string list \<Rightarrow> (nat \<Rightarrow> bool) \<Rightarrow> nat \<Rightarrow> int option" where
  "gen_number argv stale i =
     (if length argv = 4 then checked_strtol (argv ! (i + 1)) else if stale i then None else Some (- 1))"

definition gen_numbers :: "string list \<Rightarrow> (nat \<Rightarrow> bool) \<Rightarrow> (int \<times> int \<times> int) option" where
  "gen_numbers argv stale =
     (case gen_number argv stale 0 of None \<Rightarrow> None
      | Some n0 \<Rightarrow> (case gen_number argv stale 1 of None \<Rightarrow> None
      | Some n1 \<Rightarrow> (case gen_number argv stale 2 of None \<Rightarrow> None
      | Some n2 \<Rightarrow> Some (n0, n1, n2))))"

definition gen_ok :: "int \<Rightarrow> int \<Rightarrow> int \<Rightarrow> bool" where
  "gen_ok n0 n1 n2 \<longleftrightarrow> \<not> (n0 < 1 \<or> n0 > 2 \<or> n1 < 0 \<or> n1 > 32766 \<or> n2 < 0 \<or> n2 > 61440000)"

section \<open>gen: phase increment\<close>

text \<open>\<^verbatim>\<open>floor\<close> of a \<^verbatim>\<open>double\<close>.\<close>

definition f_floor :: "flt \<Rightarrow> flt" where
  "f_floor x = (if neg x then Fl True (- ((- num x) div den x)) 0 else Fl False (num x div den x) 0)"

definition gen_phase :: "int \<Rightarrow> u32" where
  "gen_phase n =
     f_to_u32 (f_floor (fadd double_prec
       (fmul double_prec (fdiv double_prec (f_of_int double_prec n) (f_of_int double_prec 125000000)) (f_of_int double_prec (2 ^ 30)))
       (dlit 5 10)))"

definition gen_usage :: string where
  "gen_usage = ''Usage: gen [1-2] [0-32766] [0-61440000]'' @ nl"

definition gen_set :: "env \<Rightarrow> ptr \<Rightarrow> int \<Rightarrow> int \<Rightarrow> int \<Rightarrow> ('a mmio_scheme, unit) io" where
  "gen_set E cfg n0 n1 n2 =
     (if n0 = 1 then thn (mstore E 4 cfg 8 (gen_phase n2)) (mstore E 2 cfg 16 (of_int n1))
      else if n0 = 2 then thn (mstore E 4 cfg 12 (gen_phase n2)) (mstore E 2 cfg 18 (of_int n1))
      else ret ())"

definition gen_main :: "env \<Rightarrow> string list \<Rightarrow> (nat \<Rightarrow> bool) \<Rightarrow> ('a mmio_scheme, int) io" where
  "gen_main E argv stale =
     (case gen_numbers argv stale of
        None \<Rightarrow> thn (puts_out gen_usage) (ret 1)
      | Some (n0, n1, n2) \<Rightarrow>
          if \<not> gen_ok n0 n1 n2 then thn (puts_out gen_usage) (ret 1)
          else bnd (sys_open E ''/dev/mem'') (\<lambda>fd.
            if fd < 0 then thn (puts_err (''Cannot open /dev/mem.'' @ nl)) (ret 1)
            else thn (gen_set E (sys_mmap E ''/dev/mem'' 0x40001000 (page_size E)) n0 n1 n2) (ret 0)))"

section \<open>Client\<close>

text \<open>What the calls of the socket library answer, and the results of \<^verbatim>\<open>recv\<close>, in order.\<close>

record cnet =
  c_socket :: int
  c_host :: "string \<Rightarrow> bool"
  c_connect :: "string \<Rightarrow> int \<Rightarrow> int"

datatype rcv = Got "u8 list" | Rcv_Error

definition overwrite :: "u8 list \<Rightarrow> (int \<Rightarrow> u8) \<Rightarrow> int \<Rightarrow> u8" where
  "overwrite bs f a = (if 0 \<le> a \<and> a < int (length bs) then bs ! nat a else f a)"

text \<open>\<^verbatim>\<open>printf("%f\n", (float)buffer[i]/2147483647.0)\<close>.\<close>

definition client_line :: "(int \<Rightarrow> u8) \<Rightarrow> nat \<Rightarrow> string" where
  "client_line f i =
     fmt_f 6 (fdiv double_prec (f_of_int single_prec (sint (le_val f 4 (4 * int i)))) (f_of_int double_prec 2147483647)) @ nl"

fun client_loop :: "rcv list \<Rightarrow> (int \<Rightarrow> u8) \<Rightarrow> ('a os_scheme, unit) io" where
  "client_loop [] f = halt Blocked"
| "client_loop (Rcv_Error # rs) f = client_loop rs f"
| "client_loop (Got bs # rs) f =
     thn (puts_out (concat (map (client_line (overwrite bs f)) [0..<length bs])))
         (if bs = [] then ret () else client_loop rs (overwrite bs f))"

definition client_main :: "cnet \<Rightarrow> string list \<Rightarrow> rcv list \<Rightarrow> (int \<Rightarrow> u8) \<Rightarrow> ('a os_scheme, int) io" where
  "client_main C argv rs stack =
     (if length argv < 3 then thn (puts_err (''usage '' @ argv ! 0 @ '' hostname port'' @ nl)) (halt (Exit 0))
      else if c_socket C < 0 then thn (perror ''ERROR opening socket'') (halt (Exit 0))
      else if \<not> c_host C (argv ! 1) then thn (puts_err (''ERROR, no such host'' @ nl)) (halt (Exit 0))
      else if c_connect C (argv ! 1) (atoi (argv ! 2)) < 0 then thn (perror ''connect'') (ret 1)
      else thn (client_loop rs stack) (thn (sys_close (c_socket C)) (ret 0)))"

text \<open>The client for Windows.  \<^verbatim>\<open>SOCKET\<close> is an unsigned type there; \<^verbatim>\<open>WSAStartup\<close>'s result is not used, and what \<^verbatim>\<open>connect\<close> answers
  is a function of the socket.\<close>

record wnet =
  w_socket :: u32
  w_connect :: "u32 \<Rightarrow> int"

fun win_loop :: "rcv list \<Rightarrow> (int \<Rightarrow> u8) \<Rightarrow> ('a os_scheme, unit) io" where
  "win_loop [] buffer = halt Blocked"
| "win_loop (Rcv_Error # rs) buffer = win_loop rs buffer"
| "win_loop (Got bs # rs) buffer = win_loop rs (overwrite bs buffer)"

definition client_win_main :: "wnet \<Rightarrow> rcv list \<Rightarrow> (int \<Rightarrow> u8) \<Rightarrow> ('a os_scheme, int) io" where
  "client_win_main W rs stack =
     (let sock = w_socket W in
      if uint sock < 0 then thn (perror ''socket'') (ret 1)
      else if w_connect W sock < 0 then thn (perror ''connect'') (ret 1)
      else thn (win_loop rs stack) (halt Blocked))"

section \<open>The phase increment is exact\<close>

text \<open>The nearest integer to \<open>n * 2 ^ 30 / 125000000\<close>; a tie cannot occur.\<close>

definition phase_spec :: "int \<Rightarrow> int" where
  "phase_spec n = (n * 2 ^ 25 + 1953125) div 3906250"

lemma phase_spec_gap:
  assumes "0 \<le> n"
  shows "of_int (phase_spec n) + 1 / 3906250 \<le> (of_int n * 2 ^ 24 / 1953125 + 1 / 2 :: real)"
    "(of_int n * 2 ^ 24 / 1953125 + 1 / 2 :: real) \<le> of_int (phase_spec n) + 1 - 1 / 3906250"
proof -
  define N where "N = n * 2 ^ 25 + 1953125"
  define r where "r = N mod 3906250"
  have "odd N" by (simp add: N_def)
  moreover have N: "N = phase_spec n * 3906250 + r" by (simp add: r_def N_def phase_spec_def)
  ultimately have "odd r" by simp
  then have r: "1 \<le> r" "r \<le> 3906249"
    using pos_mod_bound [of 3906250 N] pos_mod_sign [of 3906250 N] unfolding r_def [symmetric]
    by (cases "r = 0"; simp)+
  have "(of_int n * 2 ^ 24 / 1953125 + 1 / 2 :: real) = of_int N / 3906250"
    by (simp add: N_def field_simps)
  also have "\<dots> = of_int (phase_spec n) + of_int r / 3906250"
    by (subst N) (simp add: field_simps)
  finally have e: "(of_int n * 2 ^ 24 / 1953125 + 1 / 2 :: real) = of_int (phase_spec n) + of_int r / 3906250" .
  have "(1 :: real) \<le> of_int r" "of_int r \<le> (3906249 :: real)" using r by linarith+
  then have "(1 :: real) / 3906250 \<le> of_int r / 3906250" "of_int r / 3906250 \<le> (3906249 :: real) / 3906250"
    by (simp_all add: divide_right_mono)
  then show "of_int (phase_spec n) + 1 / 3906250 \<le> (of_int n * 2 ^ 24 / 1953125 + 1 / 2 :: real)"
    "(of_int n * 2 ^ 24 / 1953125 + 1 / 2 :: real) \<le> of_int (phase_spec n) + 1 - 1 / 3906250"
    unfolding e by simp_all
qed

lemma phase_spec_range: "0 \<le> n \<Longrightarrow> n \<le> 61440000 \<Longrightarrow> 0 \<le> phase_spec n \<and> phase_spec n < 2 ^ 30"
  unfolding phase_spec_def by (auto simp: pos_imp_zdiv_nonneg_iff intro: order_le_less_trans [OF zdiv_mono1])

lemma half_lit: "fpos (dlit 5 10)" "fval (dlit 5 10) = 1 / 2"
  using fround_repr [of 5 10 1 "- 1" double_prec False] by (simp_all add: dlit_def fpos_fround)

lemma gen_sum:
  assumes "0 \<le> n" "n \<le> 61440000"
  defines "a \<equiv> fadd double_prec (fmul double_prec (fdiv double_prec (f_of_int double_prec n) (f_of_int double_prec 125000000))
    (f_of_int double_prec (2 ^ 30))) (dlit 5 10)"
  shows "fpos a" "\<bar>fval a - (of_int n * 2 ^ 24 / 1953125 + 1 / 2)\<bar> < 1 / 3906250"
proof -
  define q where "q = fdiv double_prec (f_of_int double_prec n) (f_of_int double_prec 125000000)"
  define m where "m = fmul double_prec q (f_of_int double_prec (2 ^ 30))"
  have v: "fval (f_of_int double_prec n) = of_int n" "fval (f_of_int double_prec 125000000) = 125000000"
    "fval (f_of_int double_prec (2 ^ 30)) = 2 ^ 30"
    using assms f_of_int_exact [of n double_prec] f_of_int_exact [of 125000000 double_prec]
      f_of_int_exact [of "2 ^ 30" double_prec] by simp_all
  have p: "fpos (f_of_int double_prec n)" "fpos (f_of_int double_prec 125000000)" "fpos (f_of_int double_prec (2 ^ 30))"
    using assms by auto
  have pq: "fpos q" unfolding q_def by (rule fpos_ops(2) [OF p(1,2)]) (simp add: v)
  have pm: "fpos m" unfolding m_def by (rule fpos_ops(1) [OF pq p(3)])
  show "fpos a" unfolding a_def q_def [symmetric] m_def [symmetric] by (rule fpos_ops(3) [OF pm half_lit(1)])
  have nb: "0 \<le> real_of_int n" "real_of_int n \<le> 61440000" using assms by linarith+
  have eq: "\<bar>fval q - of_int n / 125000000\<bar> \<le> of_int n / 125000000 / 2 ^ 53"
    using fdiv_val(1) [OF p(1,2), of double_prec] v unfolding q_def by simp
  have em: "\<bar>fval m - fval q * 2 ^ 30\<bar> \<le> fval q * 2 ^ 30 / 2 ^ 53"
    using fmul_val(1) [OF pq p(3), of double_prec] v unfolding m_def by simp
  have ea: "\<bar>fval a - (fval m + 1 / 2)\<bar> \<le> (fval m + 1 / 2) / 2 ^ 53"
    using fadd_pos_val [OF pm half_lit(1), of double_prec] half_lit(2)
    unfolding a_def q_def [symmetric] m_def [symmetric] by simp
  show "\<bar>fval a - (of_int n * 2 ^ 24 / 1953125 + 1 / 2)\<bar> < 1 / 3906250"
    using eq [unfolded abs_le_iff] em [unfolded abs_le_iff] ea [unfolded abs_le_iff] nb
    unfolding abs_less_iff by simp
qed

lemma f_floor_pos: "fpos x \<Longrightarrow> fpos (f_floor x) \<and> f_trunc (f_floor x) = f_trunc x"
  by (simp add: fpos_def fwf_def f_floor_def f_trunc_def num_def den_def pos_imp_zdiv_nonneg_iff)

lemma gen_phase_value:
  assumes "0 \<le> n" "n \<le> 61440000"
  shows "uint (gen_phase n) = phase_spec n"
proof -
  define a where "a = fadd double_prec (fmul double_prec (fdiv double_prec (f_of_int double_prec n) (f_of_int double_prec 125000000))
    (f_of_int double_prec (2 ^ 30))) (dlit 5 10)"
  have a: "fpos a" "\<bar>fval a - (of_int n * 2 ^ 24 / 1953125 + 1 / 2)\<bar> < 1 / 3906250"
    using gen_sum [OF assms] unfolding a_def by simp_all
  have r: "0 \<le> phase_spec n" "phase_spec n < 2 ^ 30" using phase_spec_range [OF assms] by simp_all
  have "f_trunc a = phase_spec n"
    using a(1) a(2) [unfolded abs_less_iff] phase_spec_gap [OF assms(1)] r
    by (intro f_trunc_eq) (simp_all add: fpos_def)
  then have "gen_phase n = of_int (phase_spec n)"
    using f_floor_pos [OF a(1)] r unfolding gen_phase_def a_def [symmetric] f_to_u32_def by simp
  then show ?thesis using r by (simp add: unsigned_of_int take_bit_int_eq_self)
qed

section \<open>What gen does\<close>

lemma gen_rejects_run:
  assumes "\<not> (\<exists>n0 n1 n2. gen_numbers argv stale = Some (n0, n1, n2) \<and> gen_ok n0 n1 n2)"
  shows "gen_main E argv stale s = Done 1 (s\<lparr>out := out s @ gen_usage\<rparr>)"
proof (cases "gen_numbers argv stale")
  case None
  then show ?thesis by (simp add: gen_main_def)
next
  case (Some z)
  then obtain n0 n1 n2 where z: "gen_numbers argv stale = Some (n0, n1, n2)" by (cases z) auto
  with assms have "\<not> gen_ok n0 n1 n2" by blast
  then show ?thesis by (simp add: gen_main_def z)
qed

lemma gen_wrong_count: "length argv \<noteq> 4 \<Longrightarrow> gen_numbers argv stale = Some (n0, n1, n2) \<Longrightarrow> \<not> gen_ok n0 n1 n2"
  by (auto simp: gen_numbers_def gen_number_def gen_ok_def split: if_splits option.splits)

section \<open>Properties\<close>

text \<open>A socket that could not be made goes to \<^verbatim>\<open>connect\<close>; a connected client waits for ever, also after the server has closed.\<close>

lemma win_loop_blocks: "win_loop rs f s = Stopped Blocked s"
  by (induction rs f rule: win_loop.induct) simp_all

lemma client_win_outcome:
  "client_win_main W rs f s =
     (if w_connect W (w_socket W) < 0 then thn (perror ''connect'') (ret 1) s else Stopped Blocked s)"
  by (simp add: client_win_main_def win_loop_blocks not_less thn_app)

definition mmio0 :: mmio where
  "mmio0 = os.extend os0 \<lparr>acc_log = []\<rparr>"

text \<open>
  (C22) The phase increment \<^verbatim>\<open>gen\<close> computes in \<^verbatim>\<open>double\<close> is exact: for every frequency the program accepts it is the
  integer nearest to \<^verbatim>\<open>f * 2^30 / 125000000\<close>, and it fits the 30 bits of the generator.
\<close>

theorem gen_phase_exact:
  assumes "0 \<le> n" "n \<le> 61440000"
  shows "uint (gen_phase n) = (n * 2 ^ 25 + 1953125) div 3906250 \<and> uint (gen_phase n) < 2 ^ 30"
  using gen_phase_value [OF assms] phase_spec_range [OF assms] by (simp add: phase_spec_def)

theorem gen_phase_exact_witness: "uint (gen_phase 1000000) = 8589935"
  using gen_phase_exact [of 1000000] by simp

text \<open>
  \<^verbatim>\<open>gen\<close> sets what it was asked for or nothing: with the wrong number of arguments (whatever the uninitialised \<^verbatim>\<open>end\<close> holds), an
  argument that is no number, or a number out of range it prints the usage, returns 1 and touches no device; otherwise, on a
  platform that maps the registers, it returns 0 after exactly two stores, phase and amplitude of the chosen channel.
\<close>

theorem gen_all_or_nothing:
  assumes "page_size E = 4096" "0 \<le> os_open E (opens s) ''/dev/mem''" "os_mmap E ''/dev/mem'' 0x40001000 4096"
  shows "(case gen_numbers argv stale of
      Some (n0, n1, n2) \<Rightarrow>
        if length argv = 4 \<and> (n0 = 1 \<or> n0 = 2) \<and> n1 \<in> {0..32766} \<and> n2 \<in> {0..61440000}
        then \<exists>t. gen_main E argv stale s = Done 0 t \<and> out t = out s \<and>
          acc_log t = St 2 (0x4000100E + 2 * n0) (of_int n1) # St 4 (0x40001004 + 4 * n0) (of_int (phase_spec n2)) # acc_log s
        else gen_main E argv stale s = Done 1 (s\<lparr>out := out s @ gen_usage\<rparr>)
    | None \<Rightarrow> gen_main E argv stale s = Done 1 (s\<lparr>out := out s @ gen_usage\<rparr>))"
proof (cases "gen_numbers argv stale")
  case None
  then show ?thesis by (simp add: gen_rejects_run)
next
  case (Some z)
  then obtain n0 n1 n2 where z: "gen_numbers argv stale = Some (n0, n1, n2)" by (cases z) auto
  show ?thesis
  proof (cases "length argv = 4 \<and> gen_ok n0 n1 n2")
    case True
    then have ok: "n0 = 1 \<or> n0 = 2" "n1 \<in> {0..32766}" "n2 \<in> {0..61440000}" by (auto simp: gen_ok_def)
    have ph: "gen_phase n2 = of_int (phase_spec n2)"
      using gen_phase_value [of n2] ok(3) by (metis atLeastAtMost_iff word_of_int_uint)
    have am: "take_bit 16 (of_int n1 :: u32) = of_int n1"
      using ok(2) by (simp add: take_bit_of_int take_bit_int_eq_self)
    from ok(1) True z assms ok(2,3) show ?thesis
      by (auto simp: gen_main_def gen_set_def sys_mmap_def mstore_def page_round_def ph am)
  next
    case False
    then have "gen_main E argv stale s = Done 1 (s\<lparr>out := out s @ gen_usage\<rparr>)"
      using gen_wrong_count [of argv stale] z by (intro gen_rejects_run) auto
    moreover have "\<not> (length argv = 4 \<and> (n0 = 1 \<or> n0 = 2) \<and> n1 \<in> {0..32766} \<and> n2 \<in> {0..61440000})"
      using False by (auto simp: gen_ok_def)
    ultimately show ?thesis using z by simp
  qed
qed

theorem gen_all_or_nothing_witness:
  "\<exists>t. gen_main bench [''gen'', ''2'', ''100'', ''1000000''] (\<lambda>i. True) mmio0 = Done 0 t \<and>
     acc_log t = [St 2 0x40001012 100, St 4 0x4000100C 8589935]"
proof -
  have "gen_numbers [''gen'', ''2'', ''100'', ''1000000''] (\<lambda>i. True) = Some (2, 100, 1000000)" by code_simp
  then show ?thesis
    using gen_all_or_nothing [of bench mmio0 "[''gen'', ''2'', ''100'', ''1000000'']" "\<lambda>i. True"]
    by (auto simp: mmio0_def os.defs phase_spec_def)
qed

text \<open>
  (C40) The client takes a number of bytes for a number of samples: after a transfer of \<open>n\<close> bytes it prints \<open>n\<close> lines, and only the
  first quarter of them shows received data; the others show what the buffer held before.
\<close>

theorem client_prints_stale:
  assumes "bs \<noteq> []" "4 dvd length bs"
  shows "\<exists>new old. client_loop (Got bs # rs) f s = client_loop rs (overwrite bs f) (s\<lparr>out := out s @ concat new @ concat old\<rparr>) \<and>
    length new = length bs div 4 \<and> length old = 3 * (length bs div 4) \<and>
    old = map (client_line f) [length bs div 4..<length bs]"
proof -
  let ?n = "length bs" and ?q = "length bs div 4"
  have q: "?n = 4 * ?q" using assms(2) by simp
  have "client_line (overwrite bs f) i = client_line f i" if "?q \<le> i" for i
  proof -
    have "le_val (overwrite bs f) 4 (4 * int i) = le_val f 4 (4 * int i)"
      by (rule le_val_cong) (use that q in \<open>auto simp: overwrite_def\<close>)
    then show ?thesis by (simp add: client_line_def)
  qed
  then have o: "map (client_line (overwrite bs f)) [?q..<?n] = map (client_line f) [?q..<?n]" by simp
  have "[0..<?n] = [0..<?q] @ [?q..<?n]" using q upt_add_eq_append [of 0 ?q "3 * ?q"] by simp
  then have m: "map (client_line (overwrite bs f)) [0..<?n] =
      map (client_line (overwrite bs f)) [0..<?q] @ map (client_line f) [?q..<?n]"
    unfolding o [symmetric] by (metis map_append)
  have "length (map (client_line f) [?q..<?n]) = 3 * ?q" using q by simp
  with m assms(1) show ?thesis
    by (intro exI [of _ "map (client_line (overwrite bs f)) [0..<?q]"] exI [of _ "map (client_line f) [?q..<?n]"]) simp
qed

theorem client_prints_stale_witness:
  "\<exists>new old. client_loop [Got [1, 2, 3, 4], Got []] (\<lambda>a. 0) os0 =
     client_loop [Got []] (overwrite [1, 2, 3, 4] (\<lambda>a. 0)) (os0\<lparr>out := out os0 @ concat new @ concat old\<rparr>) \<and>
     length new = 1 \<and> length old = 3"
proof -
  have "[1, 2, 3, 4 :: u8] \<noteq> []" "4 dvd length [1, 2, 3, 4 :: u8]" by (simp_all add: eval_nat_numeral)
  from client_prints_stale [OF this, of "[Got []]" "\<lambda>a. 0" os0] obtain new old where
    "client_loop [Got [1, 2, 3, 4], Got []] (\<lambda>a. 0) os0 =
       client_loop [Got []] (overwrite [1, 2, 3, 4] (\<lambda>a. 0)) (os0\<lparr>out := out os0 @ concat new @ concat old\<rparr>)"
    "length new = length [1, 2, 3, 4 :: u8] div 4" "length old = 3 * (length [1, 2, 3, 4 :: u8] div 4)" by blast
  then show ?thesis by (intro exI [of _ new] exI [of _ old] conjI) simp_all
qed

end
