(* ===== verification/XADC_Tools.thy ===== *)
theory XADC_Tools
  imports Zynq_IO Mmio
begin

text \<open>
  Three command-line tools of the test projects: \<^verbatim>\<open>xadc_uio.c\<close> prints the readings of the analogue inputs and the on-chip
  sensors, \<^verbatim>\<open>xadc_test.c\<close> (devmem2) reads and writes one location of physical memory with a chosen width, and
  \<^verbatim>\<open>ramp_test.c\<close> sets the pulse width of a generator.  \<^verbatim>\<open>dev_read\<close> of \<^verbatim>\<open>xadc_uio.c\<close> is the function of \<^verbatim>\<open>zynq_io.c\<close>.
\<close>

section \<open>xadc\_uio\<close>

definition XADC_TEMPERATURE_OFFSET :: u32 where "XADC_TEMPERATURE_OFFSET = 0x200"
definition XADC_VPVN_OFFSET :: u32 where "XADC_VPVN_OFFSET = 0x20C"
definition XADC_SPLYOFF_OFFSET :: u32 where "XADC_SPLYOFF_OFFSET = 0x220"
definition XADC_RDIV_VAL :: flt where "XADC_RDIV_VAL = dlit 1798 1000"

text \<open>The result of \<^verbatim>\<open>fscanf\<close> is not looked at here: at the end of the file the size is not initialised either.\<close>

definition xadc_memory_size :: "env \<Rightarrow> string \<Rightarrow> ('a os_scheme, u32) io" where
  "xadc_memory_size E path =
     (case sysfs_file E path of
        None \<Rightarrow> thn (puts_out (''unable to open the uio size file'' @ nl)) (halt (Exit (- 1)))
      | Some t \<Rightarrow> (case scan_size t of Scan_Ok n \<Rightarrow> ret n | _ \<Rightarrow> ret (uninit E)))"

text \<open>\<^verbatim>\<open>value>>4\<close> of an \<^verbatim>\<open>int16_t\<close>, and the three conversions.\<close>

definition code12 :: "u32 \<Rightarrow> int" where
  "code12 w = drop_bit 4 (sint (ucast w :: i16))"

definition pin_volts :: "u32 \<Rightarrow> flt" where
  "pin_volts w = fmul double_prec (fmul double_prec (f_of_int double_prec (code12 w)) XADC_CONV_VAL) XADC_RDIV_VAL"

definition chip_temp :: "u32 \<Rightarrow> flt" where
  "chip_temp w =
     fsub double_prec (fdiv double_prec (fmul double_prec (f_of_int double_prec (code12 w)) (dlit 503975 1000)) (f_of_int double_prec 65536))
       (dlit 27315 100)"

definition vccint :: "u32 \<Rightarrow> flt" where
  "vccint w = fmul double_prec (f_of_int double_prec (code12 w sdiv 4096)) (f_of_int double_prec 3)"

definition pin_line :: "env \<Rightarrow> ptr \<Rightarrow> string \<Rightarrow> u32 \<Rightarrow> ('a os_scheme, unit) io" where
  "pin_line E p name off =
     bnd (dev_read E p off) (\<lambda>w. puts_out (''The Voltage at pin '' @ name @ '' is: '' @ fmt_f 6 (pin_volts w) @ '' V'' @ nl))"

definition xadc_report :: "env \<Rightarrow> ptr \<Rightarrow> ('a os_scheme, unit) io" where
  "xadc_report E p =
     stmts
       [pin_line E p ''AI0'' XADC_AI0, pin_line E p ''AI1'' XADC_AI1, pin_line E p ''AI2'' XADC_AI2, pin_line E p ''AI3'' XADC_AI3,
        bnd (dev_read E p XADC_TEMPERATURE_OFFSET) (\<lambda>w.
          thn (puts_out (''The internal temperature is: '' @ fmt_f 6 (chip_temp w) @ '' degC'' @ nl))
              (puts_out (''The internal temperature is: '' @ fmt_d (code12 w) @ '' degC'' @ nl))),
        bnd (dev_read E p XADC_SPLYOFF_OFFSET) (\<lambda>w.
          puts_out (''The supply coeff. offset is: '' @ fmt_0x 4 (uint (of_int (sint (ucast w :: i16)) :: u32)) @ '' '' @ nl)),
        bnd (dev_read E p XADC_VPVN_OFFSET) (\<lambda>w.
          puts_out (''The internal VCCINT is: '' @ fmt_f 6 (vccint w) @ '' V'' @ nl))]"

definition xadc_uio_main :: "env \<Rightarrow> ('a os_scheme, int) io" where
  "xadc_uio_main E =
     thn (puts_out (''INTC UIO int test.'' @ nl))
    (bnd (sys_open E ''/dev/uio3'') (\<lambda>fd.
     if fd < 1 then thn (puts_out (''Invalid UIO device file:/dev/uio3.'' @ nl)) (ret (- 1))
     else bnd (xadc_memory_size E ''/sys/class/uio/uio3/maps/map0/size'') (\<lambda>n.
       let p = sys_mmap E ''/dev/uio3'' 0 (uint n) in
       if p = Map_Failed then thn (puts_out (''mmap call failure.'' @ nl)) (ret (- 1))
       else thn (xadc_report E p) (thn (sys_close fd) (ret 0)))))"

section \<open>devmem2\<close>

text \<open>\<^verbatim>\<open>strtoul(s, 0, 0)\<close>: the prefix chooses the base.\<close>

definition strtoul0 :: "string \<Rightarrow> u32" where
  "strtoul0 s =
     (let (sg, t) = skip_sign (dropWhile isspace s); h = skip_0x 16 t;
          n = (if h \<noteq> t then horner 16 (takeWhile (is_digit 16) h)
               else if t \<noteq> [] \<and> hd t = CHR ''0'' then horner 8 (takeWhile (is_digit 8) t)
               else horner 10 (takeWhile (is_digit 10) t))
      in if 2 ^ 32 \<le> n then - 1 else if sg then - of_int n else of_int n)"

text \<open>\<^verbatim>\<open>tolower\<close> on letters; only \<^verbatim>\<open>B\<close>, \<^verbatim>\<open>H\<close> and \<^verbatim>\<open>W\<close> matter.\<close>

definition tolower :: "char \<Rightarrow> char" where
  "tolower c = (let n = of_char c :: nat in if 65 \<le> n \<and> n \<le> 90 then char_of (n + 32) else c)"

fun access_width :: "char \<Rightarrow> nat option" where
  "access_width c = (if c = CHR ''b'' then Some 1 else if c = CHR ''h'' then Some 2 else if c = CHR ''w'' then Some 4 else None)"

definition access_type :: "string list \<Rightarrow> char" where
  "access_type argv = (if 2 < length argv then tolower (case argv ! 2 of [] \<Rightarrow> CHR 0x00 | c # _ \<Rightarrow> c) else CHR ''w'')"

definition devmem_usage :: "string \<Rightarrow> string" where
  "devmem_usage prog =
     nl @ ''Usage:'' @ [CHR 0x09] @ prog @ '' { address } [ type [ data ] ]'' @ nl @
     [CHR 0x09] @ ''address : memory address to act upon'' @ nl @
     [CHR 0x09] @ ''type    : access operation type : [b]yte, [h]alfword, [w]ord'' @ nl @
     [CHR 0x09] @ ''data    : data to be written'' @ nl @ nl"

definition fmt_X :: "int \<Rightarrow> string" where
  "fmt_X n = map (\<lambda>c. let k = of_char c :: nat in if 97 \<le> k \<and> k \<le> 102 then char_of (k - 32) else c) (fmt_x n)"

text \<open>The text of \<^verbatim>\<open>%p\<close> for the map and an offset in it is the system's (\<open>pp\<close>), as is the message of \<^verbatim>\<open>FATAL\<close>.\<close>

definition value_line :: "u32 \<Rightarrow> string \<Rightarrow> u32 \<Rightarrow> string" where
  "value_line target virt v = ''Value at address 0x'' @ fmt_X (uint target) @ '' ('' @ virt @ ''): 0x'' @ fmt_X (uint v) @ nl"

definition readback_line :: "u32 \<Rightarrow> u32 \<Rightarrow> string" where
  "readback_line w v = ''Written 0x'' @ fmt_X (uint w) @ ''; readback 0x'' @ fmt_X (uint v) @ nl"

definition devmem_access ::
  "env \<Rightarrow> port \<Rightarrow> (int \<Rightarrow> string) \<Rightarrow> string list \<Rightarrow> u32 \<Rightarrow> ptr \<Rightarrow> int \<Rightarrow> nat \<Rightarrow> ('a mmio_scheme, unit) io" where
  "devmem_access E P pp argv target p off w =
     bnd (mload E P w p off) (\<lambda>read_result.
     thn (puts_out (value_line target (pp off) read_result))
     (if length argv \<le> 3 then ret ()
      else let writeval = strtoul0 (argv ! 3) in
        thn (mstore E w p off writeval)
       (bnd (mload E P w p off) (\<lambda>read_result.
        puts_out (readback_line writeval read_result)))))"

text \<open>\<^verbatim>\<open>target & ~MAP_MASK\<close> and \<^verbatim>\<open>target & MAP_MASK\<close>.\<close>

definition page_of :: "u32 \<Rightarrow> int" where
  "page_of target = uint (target AND NOT 0xFFF)"

definition page_offset :: "u32 \<Rightarrow> int" where
  "page_offset target = uint (target AND 0xFFF)"

text \<open>The unmapping at the end (line 116) is of the page just mapped, with the length it was mapped with: \<^verbatim>\<open>munmap\<close> fails only for an
  address or a length that is not of a page, so the branch that reports a failure is left out.\<close>

definition devmem_main :: "env \<Rightarrow> port \<Rightarrow> (int \<Rightarrow> string) \<Rightarrow> string \<Rightarrow> string list \<Rightarrow> ('a mmio_scheme, int) io" where
  "devmem_main E P pp fatal argv =
     (if length argv < 2 then thn (puts_err (devmem_usage (argv ! 0))) (halt (Exit 1))
      else let target = strtoul0 (argv ! 1) in
        bnd (sys_open E ''/dev/mem'') (\<lambda>fd.
        if fd = - 1 then thn (puts_err fatal) (halt (Exit 1))
        else thn (puts_out (''/dev/mem opened.'' @ nl))
          (let p = sys_mmap E ''/dev/mem'' (page_of target) 4096 in
           if p = Map_Failed then thn (puts_err fatal) (halt (Exit 1))
           else thn (puts_out (''Memory mapped at address '' @ pp 0 @ ''.'' @ nl))
            (case access_width (access_type argv) of
               None \<Rightarrow> thn (puts_err (''Illegal data type '' @ [CHR 0x27] @ [access_type argv] @ [CHR 0x27] @ ''.'' @ nl)) (halt (Exit 2))
             | Some w \<Rightarrow>
                 thn (devmem_access E P pp argv target p (page_offset target) w)
                (thn (sys_close fd) (ret 0))))))"

section \<open>ramp\_test\<close>

text \<open>The test \<^verbatim>\<open>argc<1\<close> never holds for a program that was started with its name; \<^verbatim>\<open>argv[1]\<close> is \<^verbatim>\<open>NULL\<close> without an argument.\<close>

definition ramp_usage :: "string \<Rightarrow> string" where
  "ramp_usage prog =
     prog @ '' version 0.1'' @ nl @
     ''The clock freq. is 143MHz and the PWM signal freq. is 1.06 Hz (T aprox. 0.93s)'' @ nl @
     ''Syntax: '' @ prog @ '' [pwm value](from 0 to 2**27-1)'' @ nl @ ''  ex: '' @ prog @ '' 10000 '' @ nl @
     ''for ~ 70 us PWM signal in state '' @ [CHR 0x27] @ ''1'' @ [CHR 0x27] @ '' and the rest in state '' @ nl @
     [CHR 0x27] @ ''0'' @ [CHR 0x27] @ '' up to ~0.94s)'' @ nl"

definition ramp_test_main :: "env \<Rightarrow> port \<Rightarrow> string list \<Rightarrow> ('a mmio_scheme, int) io" where
  "ramp_test_main E P argv =
     thn (puts_out (fmt_d (int (length argv)) @ nl))
    (if length argv < 1 then thn (puts_out (ramp_usage ''(null)'')) (halt (Exit 1))
     else bnd (sys_open E ''/dev/mem'') (\<lambda>fd.
       if fd < 0 then thn (perror ''open'') (ret 1)
       else let cfg = sys_mmap E ''/dev/mem'' 0x40000000 (page_size E) in
         thn (mupd E P 4 cfg 0 (\<lambda>v. v AND NOT 1))
        (thn (mupd E P 4 cfg 0 (\<lambda>v. v OR 1))
         (if length argv < 2 then halt Fault
          else thn (mstore E 4 cfg 4 (of_int (atoi (argv ! 1)))) (ret 0)))))"

section \<open>The sensor lines\<close>

lemma code12_range: "- 2048 \<le> code12 w" "code12 w \<le> 2047"
proof -
  have "- (2 ^ 15) \<le> sint (ucast w :: i16)" "sint (ucast w :: i16) < 2 ^ 15"
    using sint_ge [of "ucast w :: i16"] sint_lt [of "ucast w :: i16"] by simp_all
  then show "- 2048 \<le> code12 w" "code12 w \<le> 2047"
    unfolding code12_def drop_bit_eq_div by simp_all
qed

lemma code12_sdiv: "code12 w sdiv 4096 = 0"
  using code12_range [of w] by (auto simp: signed_divide_int_def sgn_if)

lemma vccint_zero: "fmt_f 6 (vccint w) = ''0.000000''"
proof -
  have "vccint w = Fl False 0 0" by (simp add: vccint_def code12_sdiv f_of_int_def fround_def fmul_def num_def Let_def split: prod.split)
  moreover have "fmt_f 6 (Fl False 0 0) = ''0.000000''" by code_simp
  ultimately show ?thesis by simp
qed

lemma dlit_error: "0 \<le> n \<Longrightarrow> 0 < d \<Longrightarrow> \<bar>fval (dlit n d) - of_int n / of_int d\<bar> \<le> of_int n / of_int d / 2 ^ 53"
  using fround_val [of n d double_prec False] by (simp add: dlit_def)

lemma chip_temp_bound: "fval (chip_temp w) < - 257"
proof -
  define c where "c = f_of_int double_prec (code12 w)"
  define m where "m = fmul double_prec c (dlit 503975 1000)"
  define d where "d = fdiv double_prec m (f_of_int double_prec 65536)"
  have c: "fval c = of_int (code12 w)" "fwf c"
    using f_of_int_exact [of "code12 w" double_prec] code12_range [of w] by (simp_all add: c_def)
  have l: "fwf (dlit 503975 1000)" "\<bar>fval (dlit 503975 1000)\<bar> \<le> 504"
    using dlit_error [of 503975 1000, unfolded abs_le_iff] unfolding abs_le_iff
    by (simp add: dlit_def fwf_fround, simp)
  have ca: "\<bar>fval c\<bar> \<le> 2048" using code12_range [of w] unfolding c(1) by linarith
  have "\<bar>fval c * fval (dlit 503975 1000)\<bar> \<le> 2048 * 504" unfolding abs_mult using ca l(2) by (intro mult_mono) simp_all
  then have m: "\<bar>fval m\<bar> \<le> 1032193"
    using fmul_error [OF c(2) l(1), of double_prec, unfolded abs_le_iff] unfolding m_def by simp
  have fm: "fwf m" unfolding m_def fmul_def by (intro fwf_fround) (simp_all add: c(2) l(1))
  have k: "fval (f_of_int double_prec 65536) = 65536" using f_of_int_exact [of 65536 double_prec] by simp
  have "\<bar>fval d - fval m / 65536\<bar> \<le> \<bar>fval m / 65536\<bar> / 2 ^ 53"
    using fdiv_error [OF fm fwf_f_of_int, of double_prec 65536 double_prec] k unfolding d_def by simp
  then have d: "fval d \<le> 15.76" "- 16 \<le> fval d" using m by (simp_all add: abs_le_iff abs_if split: if_splits)
  have "\<bar>fval (chip_temp w) - (fval d - fval (dlit 27315 100))\<bar> \<le> \<bar>fval d - fval (dlit 27315 100)\<bar> / 2 ^ 53"
    using fadd_error [of double_prec d "fneg (dlit 27315 100)"]
    unfolding chip_temp_def fsub_def c_def [symmetric] m_def [symmetric] d_def [symmetric] by simp
  moreover have "\<bar>fval (dlit 27315 100) - 273.15\<bar> \<le> 0.001" using dlit_error [of 27315 100] by simp
  ultimately show ?thesis using d by (simp add: abs_le_iff abs_if split: if_splits)
qed

section \<open>devmem2 on registers that keep their bytes\<close>

lemma mask_split: "(t AND NOT m) + (t AND m) = (t :: 'a::len word)"
proof -
  have "(t AND NOT m) AND (t AND m) = 0" by (rule bit_word_eqI) (auto simp: bit_and_iff bit_not_iff)
  moreover have "(t AND NOT m) OR (t AND m) = t" by (rule bit_word_eqI) (auto simp: bit_and_iff bit_not_iff bit_or_iff)
  ultimately show ?thesis by (simp add: disjunctive_add_eq_or)
qed

lemma page_offset_mod: "page_offset t = uint t mod 4096"
proof -
  have m: "(0xFFF :: u32) = mask 12" by (simp add: mask_eq_exp_minus_1)
  show ?thesis unfolding page_offset_def m take_bit_eq_mask [symmetric] unsigned_take_bit_eq by (simp add: take_bit_eq_mod)
qed

lemma page_of_mod: "page_of t = uint t - uint t mod 4096"
proof -
  have "t - (t AND 0xFFF) = t AND NOT 0xFFF" by (metis add_diff_cancel_right' mask_split)
  moreover have "uint t mod 4096 \<le> uint t" by (simp add: zmod_le_nonneg_dividend)
  then have "uint (t - (t AND 0xFFF)) = uint t - uint (t AND 0xFFF)"
    unfolding page_offset_mod [symmetric] page_offset_def by (rule uint_sub_lem [THEN iffD1])
  ultimately show ?thesis unfolding page_of_def page_offset_mod [symmetric] page_offset_def by simp
qed

lemma devmem_access_run:
  assumes "phys E p w off = Some a" "holds_bytes P z lo hi" "lo \<le> a" "a + int w \<le> hi" "w \<le> 4" "length argv = 4"
  shows "devmem_access E P pp argv target p off w s = Done ()
    (s\<lparr>acc_log := Ld w a # St w a (take_bit (8 * w) (strtoul0 (argv ! 3))) # Ld w a # acc_log s,
        out := out s @ value_line target (pp off) (byte_port z (acc_log s) w a) @
          readback_line (strtoul0 (argv ! 3)) (take_bit (8 * w) (strtoul0 (argv ! 3)))\<rparr>)"
proof -
  let ?v = "take_bit (8 * w) (strtoul0 (argv ! 3))"
  have "byte_port z (St w a ?v # h) w a = ?v" for h by (simp add: byte_port_same)
  then show ?thesis
    using assms(6) unfolding devmem_access_def
    by (simp add: mload_bytes [OF assms(1-5)] mstore_app [OF assms(1)] Let_def)
qed

text \<open>The access stays inside the page when the address is aligned for it.\<close>

lemma devmem_phys:
  assumes "w = 1 \<or> w = 2 \<or> w = 4" "uint t mod int w = 0" "page_size E = 4096"
  shows "phys E (Mapped path (page_of t) 4096) w (page_offset t) = Some (uint t)"
proof -
  have "int w dvd 4096" using assms(1) by auto
  then have "uint t mod 4096 mod int w = 0" using assms(2) by (simp add: mod_mod_cancel)
  moreover have "uint t mod 4096 + int w \<le> 4096"
  proof -
    have "uint t mod 4096 < 4096" by simp
    moreover have "(4096 - uint t mod 4096) mod int w = 0"
      using \<open>int w dvd 4096\<close> \<open>uint t mod 4096 mod int w = 0\<close> by (simp add: mod_eq_0_iff_dvd)
    ultimately show ?thesis using zdvd_imp_le [of "int w" "4096 - uint t mod 4096"] by (simp add: mod_eq_0_iff_dvd)
  qed
  ultimately show ?thesis using assms(3) by (simp add: page_offset_mod page_of_mod page_round_def)
qed

section \<open>Properties\<close>

definition tool0 :: mmio where
  "tool0 = os.extend os0 \<lparr>acc_log = []\<rparr>"

lemma tool0_simps [simp]: "acc_log tool0 = []" "out tool0 = []" "opens tool0 = []"
  by (simp_all add: tool0_def os.defs os0_def)

text \<open>
  Two of the sensor readings of \<^verbatim>\<open>xadc_uio\<close> are wrong whatever the converter delivers: the core voltage is divided as an integer
  and always prints as \<^verbatim>\<open>0.000000\<close>, and the temperature formula scales a 12-bit code as if it had 16 bits, so that the
  value is below -257 degrees.
\<close>

theorem xadc_sensor_lines:
  "fmt_f 6 (vccint w) = ''0.000000'' \<and> fval (chip_temp w) < - 257"
  using vccint_zero chip_temp_bound by simp

text \<open>
  (C24) devmem2 round trip: given an address aligned for the access on memory whose registers keep their bytes, and data, the program
  returns 0, the location holds the low bytes of the data afterwards and exactly they are reported as read back, and no
  other byte has changed.
\<close>

theorem devmem_write_readback:
  assumes "length argv = 4" "access_width (access_type argv) = Some w" "uint (strtoul0 (argv ! 1)) mod int w = 0"
    and "page_size E = 4096" "os_open E (opens s) ''/dev/mem'' \<noteq> - 1" "\<forall>a. os_mmap E ''/dev/mem'' a 4096"
    and "holds_bytes P z 0 (2 ^ 32)"
  shows "\<exists>t pre. devmem_main E P pp fatal argv s = Done 0 t \<and>
    byte_port z (acc_log t) w (uint (strtoul0 (argv ! 1))) = take_bit (8 * w) (strtoul0 (argv ! 3)) \<and>
    (\<forall>x. x < uint (strtoul0 (argv ! 1)) \<or> uint (strtoul0 (argv ! 1)) + int w \<le> x \<longrightarrow> byte_at z (acc_log t) x = byte_at z (acc_log s) x) \<and>
    out t = out s @ pre @ readback_line (strtoul0 (argv ! 3)) (take_bit (8 * w) (strtoul0 (argv ! 3)))"
proof -
  let ?a = "strtoul0 (argv ! 1)"
  have w: "w = 1 \<or> w = 2 \<or> w = 4" using assms(2) by (auto split: if_splits)
  note p = devmem_phys [OF w assms(3,4), of "''/dev/mem''"]
  have b: "0 \<le> uint ?a" "uint ?a + int w \<le> 2 ^ 32" "w \<le> 4"
  proof -
    have "int w dvd 2 ^ 32" "int w dvd uint ?a" using w assms(3) by auto
    then have "int w dvd 2 ^ 32 - uint ?a" by simp
    moreover have "0 < 2 ^ 32 - uint ?a" using uint_lt2p [of ?a] by simp
    ultimately show "uint ?a + int w \<le> 2 ^ 32" using zdvd_imp_le by fastforce
  qed (use w in auto)
  note r = devmem_access_run [OF p assms(7) b assms(1)]
  show ?thesis
    unfolding devmem_main_def Let_def sys_mmap_def
    using assms(1,2,5,6)
    by (simp add: r byte_port_same del: access_width.simps phys.simps One_nat_def)
qed

theorem devmem_write_readback_witness:
  "\<exists>t pre. devmem_main bench (byte_port (\<lambda>a. 0)) (\<lambda>o1. ''p'') ''f'' [''devmem2'', ''0x40001002'', ''H'', ''0x12345''] tool0 = Done 0 t \<and>
     byte_port (\<lambda>a. 0) (acc_log t) 2 0x40001002 = 0x2345 \<and> out t = pre @ readback_line 0x12345 0x2345"
proof -
  have a: "strtoul0 ''0x40001002'' = 0x40001002" "strtoul0 ''0x12345'' = 0x12345"
    "access_width (access_type [''devmem2'', ''0x40001002'', ''H'', ''0x12345'']) = Some 2"
    by code_simp+
  have t: "take_bit 16 (0x12345 :: u32) = 0x2345" by simp
  show ?thesis
    using devmem_write_readback [of "[''devmem2'', ''0x40001002'', ''H'', ''0x12345'']" 2 bench tool0 "byte_port (\<lambda>a. 0)" "\<lambda>a. 0"
        "\<lambda>o1. ''p''" "''f''"] a t
    by (auto simp del: access_width.simps)
qed

text \<open>Without an argument \<^verbatim>\<open>ramp_test\<close> resets the generator and then dereferences a null pointer; with one it sets the pulse width.\<close>

lemma ramp_test_cases:
  assumes "page_size E = 4096" "0 \<le> os_open E (opens s) ''/dev/mem''" "os_mmap E ''/dev/mem'' 0x40000000 4096"
    and "holds_bytes P z 0x40000000 0x40001000"
  shows "length argv = 1 \<Longrightarrow> \<exists>t. ramp_test_main E P argv s = Stopped Fault t \<and>
      byte_port z (acc_log t) 4 0x40000000 = byte_port z (acc_log s) 4 0x40000000 OR 1"
    and "2 \<le> length argv \<Longrightarrow> \<exists>t. ramp_test_main E P argv s = Done 0 t \<and>
      byte_port z (acc_log t) 4 0x40000004 = of_int (atoi (argv ! 1))"
proof -
  let ?p = "Mapped ''/dev/mem'' 0x40000000 4096"
  have p: "phys E ?p 4 0 = Some 0x40000000" "phys E ?p 4 4 = Some 0x40000004" using assms(1) by (simp_all add: page_round_def)
  have u: "mupd E P 4 ?p 0 f s =
    Done () (s\<lparr>acc_log := St 4 0x40000000 (f (byte_port z (acc_log s) 4 0x40000000)) # Ld 4 0x40000000 # acc_log s\<rparr>)" for f s
    using mupd_bytes [OF p(1) assms(4)] by simp
  have m: "sys_mmap E ''/dev/mem'' 0x40000000 (page_size E) = ?p" using assms by (simp add: sys_mmap_def)
  have b: "(x AND 4294967294) OR 1 = x OR (1 :: u32)" for x
  proof -
    have "(4294967294 :: u32) = NOT 1" by code_simp
    then show ?thesis by (simp only: pulse)
  qed
  show "length argv = 1 \<Longrightarrow> \<exists>t. ramp_test_main E P argv s = Stopped Fault t \<and>
      byte_port z (acc_log t) 4 0x40000000 = byte_port z (acc_log s) 4 0x40000000 OR 1"
    using assms(2) by (simp add: ramp_test_main_def m u b byte_port_same Let_def del: phys.simps)
  show "2 \<le> length argv \<Longrightarrow> \<exists>t. ramp_test_main E P argv s = Done 0 t \<and>
      byte_port z (acc_log t) 4 0x40000004 = of_int (atoi (argv ! 1))"
    using assms(2) by (cases argv; cases "tl argv") (simp_all add: ramp_test_main_def m u mstore_app [OF p(2)] byte_port_same Let_def del: phys.simps)
qed

end
