(* ===== verification/GPIO_LED.thy ===== *)
theory GPIO_LED
  imports Mmio
begin

text \<open>
  The LED exerciser, \<^verbatim>\<open>gpio_led_test.c\<close>: a loop that reads the push buttons, advances a sample number, computes a sine
  by a Taylor polynomial in \<^verbatim>\<open>double\<close> and shows it on eight LEDs.  The loop has no end; the model runs it for a given number
  of turns.  \<^verbatim>\<open>buttons_get_state\<close> reads the register but has no \<^verbatim>\<open>return\<close>: the value its caller gets is a parameter (\<open>junk\<close>).
\<close>

section \<open>State\<close>

record gpio = mmio +
  mapped_led :: "ptr \<times> int"
  mapped_button :: "ptr \<times> int"
  gpio_mapped_base :: ptr
  memfd :: int
  LED_delay_max :: int

definition GPIO_BUTTON_BASE_ADDRESS :: u32 where "GPIO_BUTTON_BASE_ADDRESS = 0x41240000"
definition GPIO_LED_BASE_ADDRESS :: u32 where "GPIO_LED_BASE_ADDRESS = 0x40000000"

text \<open>\<^verbatim>\<open>TRUE\<close> and \<^verbatim>\<open>FALSE\<close> are both 1 in this file.\<close>

definition TRUE :: int where "TRUE = 1"
definition FALSE :: int where "FALSE = 1"

definition Linux_GPIO_initialize :: "env \<Rightarrow> (ptr \<Rightarrow> string) \<Rightarrow> u32 \<Rightarrow> u32 \<Rightarrow> int \<Rightarrow> ('a gpio_scheme, ptr \<times> int) io" where
  "Linux_GPIO_initialize E pp base direction first_call =
     thn (if first_call \<noteq> 0
          then bnd (sys_open E ''/dev/mem'') (\<lambda>fd.
            thn (modify (\<lambda>s. s\<lparr>memfd := fd\<rparr>))
            (if fd = - 1 then thn (puts_out (''Can'' @ [CHR 0x27] @ ''t open /dev/mem.'' @ nl)) (halt (Exit 0))
             else puts_out (''/dev/mem opened.'' @ nl)))
          else ret ())
    (let p = sys_mmap E ''/dev/mem'' (uint (base AND NOT 0xFFF)) 4096 in
     thn (modify (\<lambda>s. s\<lparr>gpio_mapped_base := p\<rparr>))
     (if p = Map_Failed
      then thn (puts_out (''Can'' @ [CHR 0x27] @ ''t map the memory to user space for LED GPIO.'' @ nl)) (halt (Exit 0))
      else thn (puts_out (''LED GPIO memory mapped at address '' @ pp p @ ''.'' @ nl))
          (thn (mstore E 4 p (uint (base AND 0xFFF) + 4) direction)
               (ret (p, uint (base AND 0xFFF))))))"

section \<open>LEDs and buttons\<close>

definition LEDs_driver :: "env \<Rightarrow> u32 \<Rightarrow> ('a gpio_scheme, unit) io" where
  "LEDs_driver E img = bnd (gets mapped_led) (\<lambda>(p, off). mstore E 4 p (off + 0) img)"

definition buttons_get_state :: "env \<Rightarrow> port \<Rightarrow> u32 \<Rightarrow> ('a gpio_scheme, u32) io" where
  "buttons_get_state E P junk = bnd (gets mapped_button) (\<lambda>(p, off). thn (mload E P 4 p (off + 0)) (ret junk))"

definition CYLON :: int where "CYLON = 1"
definition BAR :: int where "BAR = 2"
definition BINARY :: int where "BINARY = 3"

definition bar_image :: "int \<Rightarrow> int \<Rightarrow> u32" where
  "bar_image value style =
     (if style = BAR then
        (if value = 0 then 0x00 else if value = 1 then 0x01 else if value = 2 then 0x03 else if value = 3 then 0x07
         else if value = 4 then 0x0f else if value = 5 then 0x1f else if value = 6 then 0x3f else if value = 7 then 0x7f
         else if value = 8 then 0xff else 0x55)
      else if style = CYLON then
        (if value = 0 then 0x01 else if value = 1 then 0x02 else if value = 2 then 0x04 else if value = 3 then 0x08
         else if value = 4 then 0x10 else if value = 5 then 0x20 else if value = 6 then 0x40 else if value = 7 then 0x80
         else 0x55)
      else if style = BINARY then of_int value
      else 0x69)"

definition doBarGraph :: "env \<Rightarrow> int \<Rightarrow> int \<Rightarrow> ('a gpio_scheme, unit) io" where
  "doBarGraph E value style = LEDs_driver E (bar_image value style)"

section \<open>The sine\<close>

abbreviation d_of :: "int \<Rightarrow> flt" where "d_of i \<equiv> f_of_int double_prec i"
abbreviation dmul :: "flt \<Rightarrow> flt \<Rightarrow> flt" where "dmul \<equiv> fmul double_prec"
abbreviation ddiv :: "flt \<Rightarrow> flt \<Rightarrow> flt" where "ddiv \<equiv> fdiv double_prec"
abbreviation dadd :: "flt \<Rightarrow> flt \<Rightarrow> flt" where "dadd \<equiv> fadd double_prec"
abbreviation dsub :: "flt \<Rightarrow> flt \<Rightarrow> flt" where "dsub \<equiv> fsub double_prec"

definition gpio_PI :: flt where "gpio_PI = dlit 3141592653 (10 ^ 9)"

fun factorial_from :: "flt \<Rightarrow> int \<Rightarrow> nat \<Rightarrow> flt" where
  "factorial_from r term 0 = r"
| "factorial_from r term (Suc k) = factorial_from (dmul r (d_of term)) (term + 1) k"

text \<open>\<^verbatim>\<open>for (term=2; term<=final_term; term++) result *= term\<close>.\<close>

definition factorial :: "int \<Rightarrow> flt" where
  "factorial final_term = factorial_from (d_of 1) 2 (nat (final_term - 1))"

definition reflect :: "flt \<Rightarrow> int \<times> flt" where
  "reflect x =
     (if f_less (ddiv (dmul (d_of 3) gpio_PI) (d_of 2)) x then (4, dsub (dmul (d_of 2) gpio_PI) x)
      else if f_less gpio_PI x then (3, dsub x gpio_PI)
      else if f_less (ddiv gpio_PI (d_of 2)) x then (2, dsub gpio_PI x)
      else (1, x))"

definition taylor :: "flt \<Rightarrow> flt" where
  "taylor x =
     (let X2 = dmul x x; X3 = dmul X2 x; X5 = dmul X3 X2; X7 = dmul X5 X2
      in dsub (dadd (dsub x (ddiv X3 (factorial 3))) (ddiv X5 (factorial 5))) (ddiv X7 (factorial 7)))"

definition sine :: "flt \<Rightarrow> flt" where
  "sine angle = (let (quadrant, x) = reflect angle; r = taylor x in if quadrant > 2 then dmul r (d_of (- 1)) else r)"

definition sine_value :: "int \<Rightarrow> int" where
  "sine_value loc =
     (let radian = dmul (dmul (ddiv (d_of loc) (d_of 128)) (fround single_prec False 31415927 (10 ^ 7))) (d_of 2)
      in f_to_i32 (ddiv (dmul (d_of 256) (sine radian)) (d_of 2)) + 256 div 2)"

definition n_bars :: "int \<Rightarrow> int" where
  "n_bars value = f_to_i32 (ddiv (d_of value) (d_of (256 div 8)))"

definition driveBarGraph :: "env \<Rightarrow> int \<Rightarrow> ('a gpio_scheme, unit) io" where
  "driveBarGraph E value = doBarGraph E (n_bars value) CYLON"

definition do_sine_sample :: "env \<Rightarrow> int \<Rightarrow> ('a gpio_scheme, unit) io" where
  "do_sine_sample E loc = driveBarGraph E (sine_value loc)"

section \<open>The loop\<close>

record exer =
  last_button_state :: u32
  count_direction :: int
  sample :: int

definition button_message :: "u32 \<Rightarrow> string" where
  "button_message d =
     (if d = 0 then []
      else if d AND 4 \<noteq> 0 then ''Stop counting...'' else if d AND 2 \<noteq> 0 then ''Counting down...''
      else if d AND 1 \<noteq> 0 then ''Counting up...'' else [])"

definition button_direction :: "u32 \<Rightarrow> int \<Rightarrow> int" where
  "button_direction d dir =
     (if d = 0 then dir else if d AND 4 \<noteq> 0 then 2 else if d AND 2 \<noteq> 0 then 1 else if d AND 1 \<noteq> 0 then 0 else dir)"

text \<open>\<^verbatim>\<open>if (count_direction = UP) ... else if (count_direction = DOWN) ...\<close>: both tests assign.  The first stores 0 and fails, the
  second stores 1 and succeeds.\<close>

definition next_sample :: "exer \<Rightarrow> exer" where
  "next_sample x =
     (let x1 = x\<lparr>count_direction := 0\<rparr> in
      if count_direction x1 \<noteq> 0 then x1\<lparr>sample := (sample x1 + 1) smod 128\<rparr>
      else let x2 = x1\<lparr>count_direction := 1\<rparr> in
        if count_direction x2 \<noteq> 0
        then x2\<lparr>sample := if sample x2 - 1 < - 1 then 128 - 1 else sample x2 - 1\<rparr>
        else x2)"

definition exercise_turn :: "env \<Rightarrow> port \<Rightarrow> u32 \<Rightarrow> exer \<Rightarrow> ('a gpio_scheme, exer) io" where
  "exercise_turn E P junk x =
     bnd (buttons_get_state E P junk) (\<lambda>current.
     let d = (current XOR last_button_state x) AND current in
     thn (puts_out (button_message d))
    (let y = next_sample (x\<lparr>count_direction := button_direction d (count_direction x), last_button_state := current\<rparr>) in
     thn (do_sine_sample E (sample y)) (ret y)))"

text \<open>\<^verbatim>\<open>hardware_exerciser\<close> for as many turns as there are button values.\<close>

fun exercise :: "env \<Rightarrow> port \<Rightarrow> u32 list \<Rightarrow> exer \<Rightarrow> ('a gpio_scheme, exer) io" where
  "exercise E P [] x = ret x"
| "exercise E P (junk # js) x = bnd (exercise_turn E P junk x) (exercise E P js)"

definition hardware_exerciser :: "env \<Rightarrow> port \<Rightarrow> u32 list \<Rightarrow> ('a gpio_scheme, exer) io" where
  "hardware_exerciser E P js = exercise E P js \<lparr>last_button_state = 0, count_direction = 0, sample = 0\<rparr>"

definition gpio_main :: "env \<Rightarrow> port \<Rightarrow> (ptr \<Rightarrow> string) \<Rightarrow> u32 list \<Rightarrow> ('a gpio_scheme, exer) io" where
  "gpio_main E P pp js =
     thn (puts_out (''---basic_design_zynq Exerciser---'' @ nl @ [CHR 0x0D]))
    (bnd (Linux_GPIO_initialize E pp GPIO_LED_BASE_ADDRESS 0 TRUE) (\<lambda>led.
     thn (modify (\<lambda>s. s\<lparr>mapped_led := led\<rparr>))
    (bnd (Linux_GPIO_initialize E pp GPIO_BUTTON_BASE_ADDRESS 0xFFFFFFFF FALSE) (\<lambda>button.
     thn (modify (\<lambda>s. s\<lparr>mapped_button := button, LED_delay_max := 5000000\<rparr>))
    (thn (puts_out (''running the Linux app...'' @ nl @ [CHR 0x0D]))
         (hardware_exerciser E P js))))))"

section \<open>Text\<close>

text \<open>\<^verbatim>\<open>itoa\<close>: the digits are collected in the array \<^verbatim>\<open>tmp\<close> of 33 characters, least significant first, and copied back in
  reverse.\<close>

function itoa_tmp :: "int \<Rightarrow> int \<Rightarrow> string \<Rightarrow> string" where
  "itoa_tmp radix v tmp =
     (if 1 < radix \<and> (0 < v \<or> tmp = [])
      then itoa_tmp radix (v div radix) (tmp @ [if v mod radix < 10 then char_of (48 + v mod radix) else char_of (97 + v mod radix - 10)])
      else tmp)"
  by pat_completeness auto
termination
proof (relation "measure (\<lambda>(radix, v, tmp). nat v + (if tmp = [] then 1 else 0))")
  fix radix v :: int and tmp :: string
  assume a: "1 < radix \<and> (0 < v \<or> tmp = [])"
  show "((radix, v div radix, tmp @ [if v mod radix < 10 then char_of (48 + v mod radix) else char_of (97 + v mod radix - 10)]), radix, v, tmp)
    \<in> measure (\<lambda>(radix, v, tmp). nat v + (if tmp = [] then 1 else 0))"
  proof (cases "0 < v")
    case True
    then have "v div radix < v" using a by (intro int_div_less_self) auto
    then show ?thesis using True by simp
  next
    case False
    then have "v div radix \<le> 0 div radix" using a by (intro zdiv_mono1) auto
    then show ?thesis using a False by simp
  qed
qed simp

declare itoa_tmp.simps [simp del]

text \<open>The result is the text left in the caller's buffer; \<^verbatim>\<open>string == 0\<close>, where the function allocates one with \<^verbatim>\<open>malloc\<close>, is not
  modelled: no call in the program passes it.  \<^verbatim>\<open>v = -value\<close> is the two's complement negation that the target computes; for
  the most negative value, where C leaves it undefined, it gives the value itself, read as unsigned.\<close>

definition itoa :: "i32 \<Rightarrow> int \<Rightarrow> string option" where
  "itoa value radix =
     (if radix > 36 \<or> radix \<le> 1 then None
      else let sign = (radix = 10 \<and> sint value < 0);
               v = (if sign then uint (- value) else uint value)
           in Some ((if sign then ''-'' else []) @ rev (itoa_tmp radix v [])))"

text \<open>\<^verbatim>\<open>strcat\<close> on two NUL-terminated strings in a buffer with room for both.\<close>

definition strcat :: "string \<Rightarrow> string \<Rightarrow> string" where
  "strcat destination source = cstr destination @ cstr source"

section \<open>The printed number\<close>

text \<open>The loop computes the digits of the reference printer, in reverse.\<close>

lemma itoa_tmp_more:
  "2 \<le> r \<Longrightarrow> 0 \<le> v \<Longrightarrow> tmp \<noteq> [] \<Longrightarrow> itoa_tmp r v tmp = (if v = 0 then tmp else tmp @ rev (to_base r v))"
proof (induction r v tmp rule: itoa_tmp.induct)
  case (1 r v tmp)
  show ?case
  proof (cases "v = 0")
    case True
    then show ?thesis using "1.prems" by (subst itoa_tmp.simps) simp
  next
    case False
    let ?d = "if v mod r < 10 then char_of (48 + v mod r) else char_of (97 + v mod r - 10) :: char"
    have d: "?d = digit_chr (v mod r)" by (simp add: digit_chr_def)
    have q: "0 \<le> v div r" using "1.prems" by (simp add: pos_imp_zdiv_nonneg_iff)
    have "itoa_tmp r v tmp = itoa_tmp r (v div r) (tmp @ [?d])"
      using False "1.prems" by (subst itoa_tmp.simps) simp
    also have "\<dots> = (if v div r = 0 then tmp @ [?d] else (tmp @ [?d]) @ rev (to_base r (v div r)))"
      using False "1.prems" q by (intro "1.IH") auto
    also have "\<dots> = tmp @ rev (to_base r v)"
    proof (cases "v < r")
      case True
      then show ?thesis unfolding d using False "1.prems" by (simp add: to_base.simps [of r v])
    next
      case False
      then have "0 < v div r" using "1.prems" by (simp add: pos_imp_zdiv_pos_iff)
      then show ?thesis unfolding d using False "1.prems" by (simp add: to_base.simps [of r v])
    qed
    finally show ?thesis using False by simp
  qed
qed

lemma itoa_tmp_base:
  assumes "2 \<le> r" "0 \<le> v"
  shows "rev (itoa_tmp r v []) = to_base r v"
proof -
  let ?d = "if v mod r < 10 then char_of (48 + v mod r) else char_of (97 + v mod r - 10) :: char"
  have d: "?d = digit_chr (v mod r)" by (simp add: digit_chr_def)
  have q: "0 \<le> v div r" using assms by (simp add: pos_imp_zdiv_nonneg_iff)
  have "itoa_tmp r v [] = itoa_tmp r (v div r) [?d]" using assms by (subst itoa_tmp.simps) simp
  also have "\<dots> = (if v div r = 0 then [?d] else [?d] @ rev (to_base r (v div r)))"
    using itoa_tmp_more [OF assms(1) q, of "[?d]"] by simp
  finally have e: "itoa_tmp r v [] = (if v div r = 0 then [?d] else [?d] @ rev (to_base r (v div r)))" .
  show ?thesis
  proof (cases "v < r")
    case True
    then show ?thesis unfolding e d using assms by (simp add: to_base.simps [of r v])
  next
    case False
    then have "0 < v div r" using assms by (simp add: pos_imp_zdiv_pos_iff)
    then show ?thesis unfolding e d using False assms by (simp add: to_base.simps [of r v])
  qed
qed

lemma to_base_room: "2 \<le> b \<Longrightarrow> n < 2 ^ k \<Longrightarrow> 0 < k \<Longrightarrow> length (to_base b n) \<le> k"
proof (induction k arbitrary: n)
  case (Suc k)
  show ?case
  proof (cases "n < b")
    case True
    then show ?thesis by (simp add: to_base.simps [of b n])
  next
    case False
    have "n div b \<le> n div 2" using False Suc.prems by (intro zdiv_mono2) auto
    moreover have "n div 2 < 2 ^ k" using Suc.prems(2) by (simp add: div_less_iff_less_mult mult.commute)
    moreover have "0 < k" using False Suc.prems by (cases k) auto
    ultimately have "length (to_base b (n div b)) \<le> k" using Suc by simp
    then show ?thesis using False Suc.prems(1) by (simp add: to_base.simps [of b n])
  qed
qed simp

lemma uint_of_small: "0 \<le> x \<Longrightarrow> x < 2 ^ 32 \<Longrightarrow> uint (of_int x :: i32) = x"
  by (simp add: unsigned_of_int take_bit_int_eq_self)

lemma uint_neg_sint: "sint (v :: i32) < 0 \<Longrightarrow> uint (- v) = - sint v"
  using uint_of_small [of "- sint v"] sint_ge [of v] by simp

lemma uint_sint_nonneg: "0 \<le> sint (v :: i32) \<Longrightarrow> uint v = sint v"
  using uint_of_small [of "sint v"] sint_lt [of v] by simp

lemma itoa_dec: "itoa v 10 = Some (fmt_d (sint v))"
  by (simp add: itoa_def itoa_tmp_base fmt_d_def fmt_u_def uint_neg_sint uint_sint_nonneg Let_def)

section \<open>The counting sequence\<close>

definition gpio_ready :: "env \<Rightarrow> 'a gpio_scheme \<Rightarrow> bool" where
  "gpio_ready E s \<longleftrightarrow>
     (\<exists>a. phys E (fst (mapped_led s)) 4 (snd (mapped_led s)) = Some a) \<and>
     (\<exists>a. phys E (fst (mapped_button s)) 4 (snd (mapped_button s)) = Some a)"

lemma next_sample_down:
  "sample (next_sample x) = (if sample x < 0 then 127 else sample x - 1) \<and> count_direction (next_sample x) = 1"
  by (simp add: next_sample_def Let_def)

lemma gpio_ready_upd [simp]:
  "gpio_ready E (s\<lparr>out := x\<rparr>) = gpio_ready E s" "gpio_ready E (s\<lparr>acc_log := h\<rparr>) = gpio_ready E s"
  by (simp_all add: gpio_ready_def)

lemma gpio_accesses:
  assumes "gpio_ready E s"
  shows "\<exists>h. LEDs_driver E v s = Done () (s\<lparr>acc_log := h\<rparr>)" "\<exists>h. buttons_get_state E P junk s = Done junk (s\<lparr>acc_log := h\<rparr>)"
  using assms by (auto simp: gpio_ready_def LEDs_driver_def buttons_get_state_def mload_def mstore_def split: prod.split)

lemma exercise_turn_run:
  assumes "gpio_ready E s"
  shows "\<exists>y t. exercise_turn E P junk x s = Done y t \<and> gpio_ready E t \<and> count_direction y = 1 \<and>
    sample y = (if sample x < 0 then 127 else sample x - 1)"
proof -
  define d where "d = (junk XOR last_button_state x) AND junk"
  define y where "y = next_sample (x\<lparr>count_direction := button_direction d (count_direction x), last_button_state := junk\<rparr>)"
  obtain h where h: "buttons_get_state E P junk s = Done junk (s\<lparr>acc_log := h\<rparr>)" using gpio_accesses(2) [OF assms] by blast
  let ?u = "s\<lparr>acc_log := h, out := out s @ button_message d\<rparr>"
  have "gpio_ready E ?u" using assms by simp
  then obtain k where k: "do_sine_sample E (sample y) ?u = Done () (?u\<lparr>acc_log := k\<rparr>)"
    using gpio_accesses(1) unfolding do_sine_sample_def driveBarGraph_def doBarGraph_def by blast
  have "exercise_turn E P junk x s = Done y (?u\<lparr>acc_log := k\<rparr>)"
    unfolding exercise_turn_def Let_def using h k by (simp add: d_def [symmetric] y_def [symmetric])
  moreover have "gpio_ready E (?u\<lparr>acc_log := k\<rparr>)" using assms by simp
  ultimately show ?thesis using next_sample_down unfolding y_def by fastforce
qed

definition down_sample :: "nat \<Rightarrow> int" where
  "down_sample n = 127 - int ((n + 127) mod 129)"

lemma down_sample_Suc: "down_sample (Suc n) = (if down_sample n < 0 then 127 else down_sample n - 1)"
proof -
  have "(Suc n + 127) mod 129 = (if Suc ((n + 127) mod 129) = 129 then 0 else Suc ((n + 127) mod 129))"
    using mod_Suc [of "n + 127" 129] by simp
  moreover have "(n + 127) mod 129 < 129" by simp
  ultimately show ?thesis unfolding down_sample_def by (auto split: if_splits)
qed

lemma exercise_run:
  assumes "gpio_ready E s" "sample x = down_sample n"
  shows "\<exists>y t. exercise E P js x s = Done y t \<and> gpio_ready E t \<and> sample y = down_sample (n + length js)"
  using assms
proof (induction js arbitrary: n x s)
  case (Cons junk js)
  obtain y t where y: "exercise_turn E P junk x s = Done y t" "gpio_ready E t" "sample y = down_sample (Suc n)"
    using exercise_turn_run [OF Cons.prems(1), of P junk x] Cons.prems(2) by (auto simp: down_sample_Suc)
  show ?case using Cons.IH [OF y(2,3)] y(1) by (simp add: bnd_Done)
qed auto

section \<open>Properties\<close>

definition gpio0 :: gpio where
  "gpio0 = mmio.extend (os.extend os0 \<lparr>acc_log = []\<rparr>)
     \<lparr>mapped_led = (Mapped ''/dev/mem'' 0x40000000 4096, 0), mapped_button = (Mapped ''/dev/mem'' 0x41240000 4096, 0),
      gpio_mapped_base = Null, memfd = 3, LED_delay_max = 0\<rparr>"

text \<open>
  The exerciser never counts up and never stops: its direction tests assign instead of comparing, so with any history of
  button values, and any device behind the pins, after \<open>n\<close> turns it is at the \<open>n\<close>-th number of the sequence 0, -1, 127, 126, ...,
  which has period 129 and stays between -1 and 127.
\<close>

theorem exerciser_counts_down:
  assumes "gpio_ready E s"
  shows "\<exists>y t. hardware_exerciser E P js s = Done y t \<and> sample y = 127 - int ((length js + 127) mod 129) \<and>
    - 1 \<le> sample y \<and> sample y \<le> 127"
proof -
  have "sample \<lparr>last_button_state = 0, count_direction = 0, sample = 0\<rparr> = down_sample 0" by (simp add: down_sample_def)
  from exercise_run [OF assms this, of P js] obtain y t where
    "hardware_exerciser E P js s = Done y t" "sample y = 127 - int ((length js + 127) mod 129)"
    by (auto simp: hardware_exerciser_def down_sample_def)
  moreover from this(2) have "- 1 \<le> sample y" "sample y \<le> 127"
    using mod_less_divisor [of 129 "length js + 127"] by linarith+
  ultimately show ?thesis by blast
qed

theorem exerciser_counts_down_witness:
  "\<exists>y t. hardware_exerciser bench (byte_port (\<lambda>a. 0)) [1, 0, 1] gpio0 = Done y t \<and> sample y = 126"
proof -
  have "gpio_ready bench gpio0" by (simp add: gpio_ready_def gpio0_def mmio.defs os.defs page_round_def)
  from exerciser_counts_down [OF this, of "byte_port (\<lambda>a. 0)" "[1, 0, 1]"] show ?thesis by auto
qed

text \<open>
  (C25) \<^verbatim>\<open>itoa\<close> agrees with the C library: in base ten it prints the number as \<^verbatim>\<open>printf("%d")\<close> does and \<^verbatim>\<open>atoi\<close> reads it back, for every
  32-bit value, the smallest one included; in every base it accepts, the 33 characters of its work array are enough; outside
  2..36 it returns \<^verbatim>\<open>NULL\<close>.
\<close>

theorem itoa_atoi_roundtrip:
  "itoa v 10 = Some (fmt_d (sint v)) \<and> atoi (the (itoa v 10)) = sint v \<and>
   (if 2 \<le> r \<and> r \<le> 36 then length (itoa_tmp r (uint v) []) \<le> 32 else itoa v r = None)"
proof (intro conjI)
  have "- (2 ^ 31) \<le> sint v" "sint v < 2 ^ 31" using sint_ge [of v] sint_lt [of v] by simp_all
  then show "atoi (the (itoa v 10)) = sint v" using atoi_fmt_d [of "sint v" "[]"] by (simp add: itoa_dec)
  have "length (itoa_tmp r (uint v) []) \<le> 32" if "2 \<le> r"
  proof -
    have "length (to_base r (uint v)) \<le> 32" using to_base_room [OF that, of "uint v" 32] uint_lt2p [of v] by simp
    then show ?thesis using itoa_tmp_base [OF that, of "uint v"] by (metis length_rev unsigned_greater_eq)
  qed
  then show "if 2 \<le> r \<and> r \<le> 36 then length (itoa_tmp r (uint v) []) \<le> 32 else itoa v r = None"
    by (auto simp: itoa_def)
qed (rule itoa_dec)

text \<open>The LED styles: \<open>BAR\<close> lights the first \<open>v\<close> LEDs, \<open>CYLON\<close> LED number \<open>v\<close> only; a value out of range shows \<open>0x55\<close>.\<close>

lemma bar_style: "0 \<le> v \<Longrightarrow> v \<le> 8 \<Longrightarrow> bar_image v BAR = mask (nat v)"
proof -
  assume v: "0 \<le> v" "v \<le> 8"
  then have "v \<in> {0, 1, 2, 3, 4, 5, 6, 7, 8}" by auto
  then show ?thesis by (auto simp: bar_image_def mask_eq_exp_minus_1)
qed

lemma cylon_style: "0 \<le> v \<Longrightarrow> v \<le> 7 \<Longrightarrow> bar_image v CYLON = 2 ^ nat v"
proof -
  assume v: "0 \<le> v" "v \<le> 7"
  then have "v \<in> {0, 1, 2, 3, 4, 5, 6, 7}" by auto
  then show ?thesis by (auto simp: bar_image_def BAR_def CYLON_def)
qed

end
