(* ===== verification/Venus_GPS.thy ===== *)
theory Venus_GPS
  imports GPS_RP
begin

text \<open>
  The GPS logger of \<^verbatim>\<open>src/apps/rp_venusGPS\<close>: \<^verbatim>\<open>nmea_rp.c\<close> with its comma counter and its two field
  parsers, the collecting loop of \<^verbatim>\<open>gps_rp.c\<close> and the endless loop of \<^verbatim>\<open>gpsLogger.c\<close>.  The serial line, the
  checksum, the classification of a message and the conversion to decimal degrees have the text of the
  copies under \<^verbatim>\<open>lago_v1_3\<close> and are the definitions of \<^verbatim>\<open>UART_RP\<close>, \<^verbatim>\<open>NMEA_RP\<close> and \<^verbatim>\<open>GPS_RP\<close>.

  The RMC parser indexes the buffer of 256 bytes by position, so the buffer is the list of its bytes: the line,
  its terminator and what lies behind it.  \<open>addr\<close> is the address of the buffer: when there are too few commas
  \<^verbatim>\<open>rp_GetComma\<close> returns \<^verbatim>\<open>NULL - line\<close>, and an access at that index is an access through \<^verbatim>\<open>NULL\<close>.
\<close>

section \<open>Data\<close>

record date_time =
  year :: int
  month :: int
  day :: int
  hour :: int
  minute :: int
  second :: int

text \<open>\<^verbatim>\<open>gprmc_t\<close> and \<^verbatim>\<open>loc_t\<close> have the same members.\<close>

record venus_t =
  v_latitude :: flt
  v_longitude :: flt
  latitude_Degree :: int
  latitude_Cent :: int
  latitude_Second :: int
  longitude_Degree :: int
  longitude_Cent :: int
  longitude_Second :: int
  v_speed :: flt
  v_course :: flt
  v_height :: flt
  v_satellite :: int
  v_NS :: char
  v_EW :: char
  v_D :: date_time

record venus_gga =
  vg_gtime :: flt
  vg_latitude :: flt
  vg_longitude :: flt
  vg_quality :: u8
  vg_satellites :: u8
  vg_height :: flt
  vg_NS :: char
  vg_EW :: char

text \<open>The locals of \<^verbatim>\<open>gps_location\<close> and of \<^verbatim>\<open>main\<close> before anything is stored in them.\<close>

definition blank_venus :: "env \<Rightarrow> venus_t" where
  "blank_venus E =
     (let i = sint (uninit E); u = dbl (uint (uninit E)); f = f_of_int single_prec (uint (uninit E));
          c = char_of (uint (uninit E) mod 256)
      in \<lparr>v_latitude = u, v_longitude = u, latitude_Degree = i, latitude_Cent = i, latitude_Second = i,
          longitude_Degree = i, longitude_Cent = i, longitude_Second = i, v_speed = f, v_course = f, v_height = f,
          v_satellite = i, v_NS = c, v_EW = c,
          v_D = \<lparr>year = i, month = i, day = i, hour = i, minute = i, second = i\<rparr>\<rparr>)"

definition blank_venus_gga :: "env \<Rightarrow> venus_gga" where
  "blank_venus_gga E =
     (let u = dbl (uint (uninit E)); w = ucast (uninit E); c = char_of (uint (uninit E) mod 256)
      in \<lparr>vg_gtime = u, vg_latitude = u, vg_longitude = u, vg_quality = w, vg_satellites = w,
          vg_height = f_of_int single_prec (uint (uninit E)), vg_NS = c, vg_EW = c\<rparr>)"

definition buffer_of :: "env \<Rightarrow> string \<Rightarrow> string" where
  "buffer_of E l = take 256 (l @ NUL # replicate 256 (char_of (uint (uninit E) mod 256)))"

section \<open>The parsers\<close>

definition buf_at :: "u32 \<Rightarrow> string \<Rightarrow> int \<Rightarrow> stop + char" where
  "buf_at addr buf i =
     (if 0 \<le> i \<and> i < int (length buf) then Inr (buf ! nat i)
      else if addr + of_int i = 0 then Inl Fault else Inl Overrun)"

text \<open>The loop of \<^verbatim>\<open>rp_GetComma\<close>: \<open>off\<close> is \<^verbatim>\<open>ptr - line\<close>.\<close>

function comma_loop :: "int \<Rightarrow> int \<Rightarrow> int \<Rightarrow> string \<Rightarrow> int option" where
  "comma_loop k count off ptr =
     (if count = k then Some off
      else case strstr ptr '','' of
        None \<Rightarrow> None
      | Some t \<Rightarrow> comma_loop k (count + 1) (off + int (length ptr - length t) + 1) (drop 1 t))"
  by pat_completeness auto

lemma strstr_char: "strstr s [c] = strchr s c"
  by (induction s) (simp_all add: strchr_def)

lemma strchr_shorter: "strchr s c = Some t \<Longrightarrow> length t - Suc 0 < length s"
  using strchr_Some_suffix [of s c t] by (cases t) auto

termination comma_loop
  by (relation "measure (\<lambda>(k, count, off, ptr). length ptr)")
    (auto simp: strstr_char dest: strchr_shorter)

declare comma_loop.simps [simp del]

definition rp_GetComma :: "u32 \<Rightarrow> int \<Rightarrow> string \<Rightarrow> int" where
  "rp_GetComma addr k line = (case comma_loop k 0 0 line of Some off \<Rightarrow> off | None \<Rightarrow> sint (- addr))"

text \<open>\<^verbatim>\<open>(buf[i] - '0') * 10 + (buf[i + 1] - '0')\<close>\<close>

definition two_digits :: "u32 \<Rightarrow> string \<Rightarrow> int \<Rightarrow> stop + int" where
  "two_digits addr buf i =
     andThen (buf_at addr buf i) (\<lambda>a. andThen (buf_at addr buf (i + 1)) (\<lambda>b. Inr ((code a - 48) * 10 + (code b - 48))))"

text \<open>The separation of \<open>ddmm.mmmm\<close> into degrees, minutes and seconds; the temporaries are \<^verbatim>\<open>float\<close>.\<close>

definition split_dms :: "flt \<Rightarrow> int \<times> int \<times> int" where
  "split_dms x =
     (let degree = f_to_i32 x sdiv 100;
          cent_tmp = fconv single_prec (fsub double_prec x (dbl (degree * 100)));
          cent = f_to_i32 cent_tmp;
          second_tmp = fmul single_prec (fsub single_prec cent_tmp (f_of_int single_prec cent)) (f_of_int single_prec 60)
      in (degree, cent, f_to_i32 second_tmp))"

text \<open>\<^verbatim>\<open>rp_NmeaParseGprmc\<close>.  The assignments of the latitude and the longitude are commented out in the source; the
  offset of the date is kept in a \<^verbatim>\<open>uint8_t\<close>.\<close>

definition venus_ParseGprmc :: "u32 \<Rightarrow> string \<Rightarrow> venus_t \<Rightarrow> stop + venus_t" where
  "venus_ParseGprmc addr buf g =
     (let line = cstr buf; rd = buf_at addr buf in
      andThen (rd 5) (\<lambda>ch.
      andThen (rd (rp_GetComma addr 2 line)) (\<lambda>status.
      andThen (rd (rp_GetComma addr 4 line)) (\<lambda>ns.
      andThen (rd (rp_GetComma addr 6 line)) (\<lambda>ew.
      let (lad, lac, las) = split_dms (v_latitude g);
          (lod, loc, los) = split_dms (v_longitude g);
          g1 = g\<lparr>v_NS := ns, v_EW := ew, latitude_Degree := lad, latitude_Cent := lac, latitude_Second := las,
                 longitude_Degree := lod, longitude_Cent := loc, longitude_Second := los,
                 v_speed := fconv single_prec (fmul double_prec (f_of_int single_prec 0) (dlit 185 100))\<rparr> in
      andThen (two_digits addr buf 7) (\<lambda>h.
      andThen (two_digits addr buf 9) (\<lambda>mi.
      andThen (two_digits addr buf 11) (\<lambda>se.
      let tmp = uint (of_int (rp_GetComma addr 9 line) :: u8) in
      andThen (two_digits addr buf tmp) (\<lambda>d.
      andThen (two_digits addr buf (tmp + 2)) (\<lambda>mo.
      andThen (two_digits addr buf (tmp + 4)) (\<lambda>y.
      Inr (g1\<lparr>v_D := \<lparr>year = y + 2000, month = mo, day = d, hour = h, minute = mi, second = se\<rparr>\<rparr>))))))))))))"

definition venus_ParseGpgga :: "string \<Rightarrow> venus_gga \<Rightarrow> stop + venus_gga" where
  "venus_ParseGpgga nmea g0 =
     andThen (next_field nmea) (\<lambda>p1.
     andThen (next_field p1) (\<lambda>p2. let g2 = g0\<lparr>vg_latitude := atof p2\<rparr> in
     andThen (next_field p2) (\<lambda>p3. let g3 = g2\<lparr>vg_NS := hemisphere (CHR ''N'') (CHR ''S'') p3 (vg_NS g2)\<rparr> in
     andThen (next_field p3) (\<lambda>p4. let g4 = g3\<lparr>vg_longitude := atof p4\<rparr> in
     andThen (next_field p4) (\<lambda>p5. let g5 = g4\<lparr>vg_EW := hemisphere (CHR ''W'') (CHR ''E'') p5 (vg_EW g4)\<rparr> in
     andThen (next_field p5) (\<lambda>p6. let g6 = g5\<lparr>vg_quality := of_int (atoi p6)\<rparr> in
     andThen (next_field p6) (\<lambda>p7. let g7 = g6\<lparr>vg_satellites := of_int (atoi p7)\<rparr> in
     andThen (next_field p7) (\<lambda>p8.
     andThen (next_field p8) (\<lambda>p9. Inr (g7\<lparr>vg_height := fconv single_prec (atof p9)\<rparr>))))))))))"

section \<open>Collecting a location\<close>

definition store_gga :: "venus_gga \<Rightarrow> venus_t \<Rightarrow> venus_t" where
  "store_gga g coord =
     (let (la, lo) = gps_convert_deg_to_dec (vg_latitude g) (vg_NS g) (vg_longitude g) (vg_EW g)
      in coord\<lparr>v_latitude := la, v_longitude := lo, v_height := vg_height g\<rparr>)"

definition store_rmc :: "venus_t \<Rightarrow> venus_t \<Rightarrow> venus_t" where
  "store_rmc g coord =
     (let (la, lo) = gps_convert_deg_to_dec (v_latitude g) (v_NS g) (v_longitude g) (v_EW g)
      in coord\<lparr>v_latitude := la, v_longitude := lo, v_height := v_height g, v_speed := v_speed g,
               v_course := v_course g, v_D := v_D g\<rparr>)"

definition venus_line :: "env \<Rightarrow> u32 \<Rightarrow> string \<Rightarrow> u8 \<times> venus_t \<Rightarrow> stop + u8 \<times> venus_t" where
  "venus_line E addr l st =
     (let buffer = buffer_of E l in
      andThen (rp_NmeaGetMessageType (cstr buffer)) (\<lambda>ty.
        if ty = NMEA_GPGGA then
          andThen (venus_ParseGpgga (cstr buffer) (blank_venus_gga E)) (\<lambda>g. Inr (fst st OR NMEA_GPGGA, store_gga g (snd st)))
        else if ty = NMEA_GPRMC then
          andThen (venus_ParseGprmc addr buffer (blank_venus E)) (\<lambda>g. Inr (fst st OR NMEA_GPRMC, store_rmc g (snd st)))
        else Inr st))"

text \<open>The loop of \<^verbatim>\<open>gps_location\<close>: the location, or what stopped it, and the input that is left.\<close>

function venus_location :: "env \<Rightarrow> u32 \<Rightarrow> u8 \<times> venus_t \<Rightarrow> rx list \<Rightarrow> (stop + venus_t) \<times> rx list" where
  "venus_location E addr st xs =
     (if fst st = NMEA_COMPLETED then (Inr (snd st), xs)
      else case uart_line 256 [] xs of
        Starved \<Rightarrow> (Inl Blocked, [])
      | No_Room r \<Rightarrow> (Inl Overrun, r)
      | Line l r \<Rightarrow>
          (case venus_line E addr l st of
             Inl e \<Rightarrow> (Inl e, r)
           | Inr st' \<Rightarrow> venus_location E addr st' r))"
  by pat_completeness auto
termination
  by (relation "measure (\<lambda>(E, addr, st, xs). length xs)") (auto dest!: uart_line_room)

declare venus_location.simps [simp del]

lemma venus_location_consumes:
  "venus_location E addr st xs = (Inr c, r) \<Longrightarrow> fst st \<noteq> NMEA_COMPLETED \<Longrightarrow> length r < length xs"
proof (induction E addr st xs rule: venus_location.induct)
  case (1 E addr st xs)
  obtain l r' st' where l: "uart_line 256 [] xs = Line l r'" "venus_line E addr l st = Inr st'"
    "venus_location E addr st' r' = (Inr c, r)"
    using "1.prems" unfolding venus_location.simps [of E addr st xs] by (simp split: line.splits sum.splits)
  have "length r' < length xs" using uart_line_room [OF l(1)] by auto
  moreover have "length r \<le> length r'"
  proof (cases "fst st' = NMEA_COMPLETED")
    case True
    with l(3) show ?thesis by (simp add: venus_location.simps [of E addr st'])
  next
    case False
    then show ?thesis using "1.IH" [OF "1.prems"(2) l(1,2,3)] by simp
  qed
  ultimately show ?case by simp
qed

section \<open>The logger\<close>

definition log_line :: "venus_t \<Rightarrow> string" where
  "log_line data = fmt_f 6 (v_latitude data) @ '' '' @ fmt_f 6 (v_longitude data) @ '' '' @
     fmt_0d 2 (hour (v_D data)) @ '':'' @ fmt_0d 2 (minute (v_D data)) @ '':'' @ fmt_0d 2 (second (v_D data)) @ '' '' @
     fmt_0d 2 (day (v_D data)) @ ''/'' @ fmt_0d 2 (month (v_D data)) @ ''/'' @ fmt_0d 4 (year (v_D data)) @ nl"

text \<open>The endless loop of \<^verbatim>\<open>main\<close> on what the line will deliver: the lines it prints and what stops it in the end.\<close>

function logger_loop :: "env \<Rightarrow> u32 \<Rightarrow> venus_t \<Rightarrow> rx list \<Rightarrow> string list \<times> stop \<times> rx list" where
  "logger_loop E addr data xs =
     (case venus_location E addr (NMEA_EMPTY, data) xs of
        (Inl e, r) \<Rightarrow> ([], e, r)
      | (Inr c, r) \<Rightarrow> (let (ls, e, r') = logger_loop E addr c r in (log_line c # ls, e, r')))"
  by pat_completeness auto
termination
  by (relation "measure (\<lambda>(E, addr, data, xs). length xs)")
    (auto dest!: venus_location_consumes [OF sym] simp: NMEA_EMPTY_def NMEA_COMPLETED_def)

declare logger_loop.simps [simp del]

definition gpsLogger_main :: "env \<Rightarrow> u32 \<Rightarrow> ('a uart_st_scheme, int) io" where
  "gpsLogger_main E addr =
     thn (gps_init E)
     (\<lambda>s. let (ls, e, r) = logger_loop E addr (blank_venus E) (rx_line s)
          in Stopped e (s\<lparr>out := out s @ concat ls, rx_line := r\<rparr>))"

section \<open>Positions in a line\<close>

lemma comma_step:
  "comma \<notin> set f \<Longrightarrow> count \<noteq> k \<Longrightarrow>
   comma_loop k count off (f @ comma # r) = comma_loop k (count + 1) (off + int (length f) + 1) r"
  by (simp add: comma_loop.simps [of k count off "f @ comma # r"] strstr_char)

lemma comma_loop_fields:
  "\<forall>f \<in> set (take k fs). comma \<notin> set f \<Longrightarrow> k < length fs \<Longrightarrow>
   \<exists>u. commas fs = u @ commas (drop k fs) \<and> comma_loop (count + int k) count off (commas fs) = Some (off + int (length u))"
proof (induction k arbitrary: fs count off)
  case 0
  then show ?case by (simp add: comma_loop.simps [of count])
next
  case (Suc k)
  then obtain f fs' where f: "fs = f # fs'" "comma \<notin> set f" "fs' \<noteq> []" by (cases fs) fastforce+
  with Suc.prems obtain u where u: "commas fs' = u @ commas (drop k fs')"
    "comma_loop (count + 1 + int k) (count + 1) (off + int (length f) + 1) (commas fs') = Some (off + int (length f) + 1 + int (length u))"
    using Suc.IH [of fs' "count + 1" "off + int (length f) + 1"] by auto
  have c: "commas fs = f @ comma # commas fs'" using f by (cases fs') auto
  have "comma_loop (count + int (Suc k)) count off (commas fs) = Some (off + int (length (f @ comma # u)))"
    using u(2) f(2) by (simp add: c comma_step algebra_simps)
  with u(1) show ?case unfolding f(1) c [unfolded f(1)] by (intro exI [of _ "f @ comma # u"]) simp
qed

text \<open>\<^verbatim>\<open>rp_GetComma\<close>: the offset behind the comma number \<open>k\<close> is where field \<open>k\<close> starts.\<close>

lemma rp_GetComma_field:
  assumes "\<forall>f \<in> set (take k fs). comma \<notin> set f" "k < length fs"
  obtains u where "commas fs = u @ commas (drop k fs)" "rp_GetComma addr (int k) (commas fs) = int (length u)"
  using comma_loop_fields [OF assms, of 0 0] by (auto simp: rp_GetComma_def)

lemma buffer_length [simp]: "length l < 256 \<Longrightarrow> length (buffer_of E l) = 256"
  by (simp add: buffer_of_def)

lemma buffer_string: "sendable l \<Longrightarrow> cstr (buffer_of E l) = l"
proof -
  assume l: "sendable l"
  then obtain k where "256 - length l = Suc k" by (cases "256 - length l") (auto simp: sendable_def)
  then have "buffer_of E l = l @ NUL # take k (replicate 256 (char_of (uint (uninit E) mod 256)))"
    using l by (simp add: buffer_of_def sendable_def)
  then show ?thesis using l by (simp add: cstr_def sendable_def takeWhile_append)
qed

lemma buf_at_line:
  assumes "l = u @ v" "length l < 256" "j < length v"
  shows "buf_at addr (buffer_of E l) (int (length u) + int j) = Inr (v ! j)"
proof -
  have "buffer_of E l ! (length u + j) = (l @ NUL # replicate 256 (char_of (uint (uninit E) mod 256))) ! (length u + j)"
    using assms unfolding buffer_of_def by (intro nth_take) simp
  also have "\<dots> = v ! j" using assms by (simp add: nth_append)
  finally show ?thesis using assms by (simp add: buf_at_def flip: of_nat_add)
qed

lemma zero_chr: "digit_chr 0 = CHR ''0''"
  by code_simp

lemma fmt_02: "0 \<le> n \<Longrightarrow> n < 100 \<Longrightarrow> fmt_0d 2 n = [digit_chr (n div 10), digit_chr (n mod 10)]"
proof (cases "n < 10")
  case True
  assume "0 \<le> n"
  with True show ?thesis by (simp add: fmt_0d_def pad_def fmt_u_def to_base.simps [of 10 n] zero_chr)
next
  case False
  assume "0 \<le> n" "n < 100"
  with False have "n div 10 < 10" by (simp add: div_less_iff_less_mult)
  with False show ?thesis
    using \<open>0 \<le> n\<close> by (simp add: fmt_0d_def pad_def fmt_u_def to_base.simps [of 10 n] to_base.simps [of 10 "n div 10"])
qed

lemma two_digits_line:
  assumes "l = u @ fmt_0d 2 n @ v" "length l < 256" "0 \<le> n" "n < 100" "i = int (length u)"
  shows "two_digits addr (buffer_of E l) i = Inr n"
proof -
  have v: "l = u @ digit_chr (n div 10) # digit_chr (n mod 10) # v" using assms by (simp add: fmt_02)
  have "n div 10 < 10" using assms by (simp add: div_less_iff_less_mult)
  then have c: "code (digit_chr (n div 10)) = 48 + n div 10" "code (digit_chr (n mod 10)) = 48 + n mod 10"
    using assms code_digit_chr [of "n div 10"] code_digit_chr [of "n mod 10"] by (auto simp: pos_imp_zdiv_nonneg_iff)
  show ?thesis
    using buf_at_line [OF v assms(2), of 0 addr E] buf_at_line [OF v assms(2), of 1 addr E] assms(5)
    by (simp add: two_digits_def c add.commute)
qed

section \<open>An RMC sentence\<close>

text \<open>A sentence as the receiver sends it, field by field: time, status, latitude, hemisphere, longitude,
  hemisphere, speed, course and date, then whatever follows.\<close>

definition rmc_sentence :: "int \<times> int \<times> int \<Rightarrow> int \<times> int \<times> int \<Rightarrow> string list \<Rightarrow> string \<Rightarrow> string \<Rightarrow> string list \<Rightarrow> string" where
  "rmc_sentence hms dmy fs cents behind others =
     (let (h, mi, se) = hms; (d, mo, y) = dmy
      in commas (''$GPRMC'' # (fmt_0d 2 h @ fmt_0d 2 mi @ fmt_0d 2 se @ cents) # fs @
                 (fmt_0d 2 d @ fmt_0d 2 mo @ fmt_0d 2 y @ behind) # others))"

lemma fmt_02_comma: "0 \<le> n \<Longrightarrow> n < 100 \<Longrightarrow> comma \<notin> set (fmt_0d 2 n)"
proof -
  assume n: "0 \<le> n" "n < 100"
  have "n div 10 < 10" using n by (simp add: div_less_iff_less_mult)
  then have "code (digit_chr (n div 10)) \<ge> 48" "code (digit_chr (n mod 10)) \<ge> 48"
    using n code_digit_chr [of "n div 10"] code_digit_chr [of "n mod 10"] by (auto simp: pos_imp_zdiv_nonneg_iff)
  then have "comma \<noteq> digit_chr (n div 10)" "comma \<noteq> digit_chr (n mod 10)"
    by (auto dest!: arg_cong [where f = code])
  then show ?thesis using n by (simp add: fmt_02)
qed

lemma field_read:
  assumes "\<forall>f \<in> set (take k fs). comma \<notin> set f" "Suc k < length fs" "l = commas fs" "sendable l"
  shows "buf_at addr (buffer_of E l) (rp_GetComma addr (int k) l) = Inr (hd (fs ! k @ '',''))"
proof -
  obtain u where u: "commas fs = u @ commas (drop k fs)" "rp_GetComma addr (int k) (commas fs) = int (length u)"
    using rp_GetComma_field assms by (metis Suc_lessD)
  have "drop k fs = fs ! k # drop (Suc k) fs" "drop (Suc k) fs \<noteq> []" using assms(2) by (auto simp: Cons_nth_drop_Suc)
  then have c: "commas (drop k fs) = fs ! k @ comma # commas (drop (Suc k) fs)"
    by (cases "drop (Suc k) fs") auto
  have "buf_at addr (buffer_of E l) (int (length u) + int 0) = Inr (commas (drop k fs) ! 0)"
    using assms u by (intro buf_at_line) (auto simp: sendable_def c)
  then show ?thesis using u assms(3) by (simp add: c) (cases "fs ! k"; simp)
qed

lemma triple_digits:
  assumes "l = u @ fmt_0d 2 a @ fmt_0d 2 b @ fmt_0d 2 c @ v" "length l < 256" "i = int (length u)"
    "\<forall>n \<in> {a, b, c}. 0 \<le> n \<and> n < 100"
  shows "two_digits addr (buffer_of E l) i = Inr a" "two_digits addr (buffer_of E l) (i + 2) = Inr b"
    "two_digits addr (buffer_of E l) (i + 4) = Inr c"
proof -
  have n: "length (fmt_0d 2 a) = 2" "length (fmt_0d 2 b) = 2" using assms(4) by (simp_all add: fmt_02)
  show "two_digits addr (buffer_of E l) i = Inr a"
    by (rule two_digits_line [where u = u]) (use assms in auto)
  show "two_digits addr (buffer_of E l) (i + 2) = Inr b"
    by (rule two_digits_line [where u = "u @ fmt_0d 2 a"]) (use assms n in auto)
  show "two_digits addr (buffer_of E l) (i + 4) = Inr c"
    by (rule two_digits_line [where u = "u @ fmt_0d 2 a @ fmt_0d 2 b"]) (use assms n in auto)
qed

lemma rmc_read:
  assumes l: "l = rmc_sentence (h, mi, se) (d, mo, y) fs cents behind others" "sendable l"
    and n: "\<forall>n \<in> {h, mi, se, d, mo, y}. 0 \<le> n \<and> n < 100"
    and f: "length fs = 7" "\<forall>f \<in> set fs. comma \<notin> set f" "comma \<notin> set cents"
  shows "\<exists>g'. venus_ParseGprmc addr (buffer_of E l) g = Inr g' \<and>
    v_D g' = \<lparr>year = y + 2000, month = mo, day = d, hour = h, minute = mi, second = se\<rparr> \<and>
    v_NS g' = hd (fs ! 2 @ '','') \<and> v_EW g' = hd (fs ! 4 @ '','') \<and>
    v_latitude g' = v_latitude g \<and> v_longitude g' = v_longitude g \<and> v_height g' = v_height g \<and> v_course g' = v_course g"
proof -
  define ts where "ts = fmt_0d 2 h @ fmt_0d 2 mi @ fmt_0d 2 se @ cents"
  define ds where "ds = fmt_0d 2 d @ fmt_0d 2 mo @ fmt_0d 2 y @ behind"
  define gs where "gs = ''$GPRMC'' # ts # fs @ ds # others"
  have lc: "l = commas gs" using l(1) by (simp add: rmc_sentence_def gs_def ts_def ds_def)
  have len: "length l < 256" using l(2) by (simp add: sendable_def)
  have "comma \<notin> set ts" using n f(3) by (auto simp: ts_def fmt_02_comma)
  then have nc: "\<forall>f \<in> set (take 9 gs). comma \<notin> set f" using f by (auto simp: gs_def)
  have nc': "k \<le> 9 \<Longrightarrow> \<forall>f \<in> set (take k gs). comma \<notin> set f" for k
    using nc set_take_subset_set_take [of k 9 gs] by blast
  have g9: "9 < length gs" "drop 9 gs = ds # others" using f(1) by (auto simp: gs_def)
  have fr: "buf_at addr (buffer_of E l) (rp_GetComma addr (int k) l) = Inr (hd (gs ! k @ '',''))" if "k < 9" for k
    using field_read [OF nc' _ lc l(2), of k addr E] that g9(1) by simp
  have gk: "gs ! 4 = fs ! 2" "gs ! 6 = fs ! 4" using f(1) by (simp_all add: gs_def nth_append)
  obtain u where u: "l = u @ commas (ds # others)" "rp_GetComma addr 9 l = int (length u)"
    using rp_GetComma_field [OF nc g9(1), of addr thesis] g9(2) lc by auto
  have "length u < 256" using len u(1) by simp
  then have tmp: "uint (of_int (rp_GetComma addr 9 l) :: u8) = int (length u)"
    by (simp add: u(2) unsigned_of_nat take_bit_nat_eq_self flip: of_nat_mod)
  obtain w where w: "commas (ds # others) = ds @ w" by (cases others) auto
  have date: "two_digits addr (buffer_of E l) (int (length u)) = Inr d" "two_digits addr (buffer_of E l) (int (length u) + 2) = Inr mo"
    "two_digits addr (buffer_of E l) (int (length u) + 4) = Inr y"
    using triple_digits [of l u d mo y "behind @ w" "int (length u)" addr E] u(1) w len n by (simp_all add: ds_def)
  obtain v where v: "commas (fs @ ds # others) = v" by simp
  have "fs @ ds # others \<noteq> []" by simp
  then have "l = ''$GPRMC,'' @ ts @ comma # v" using lc v unfolding gs_def by (cases "fs @ ds # others") auto
  then have time: "two_digits addr (buffer_of E l) 7 = Inr h" "two_digits addr (buffer_of E l) 9 = Inr mi" "two_digits addr (buffer_of E l) 11 = Inr se"
    using triple_digits [of l "''$GPRMC,''" h mi se "cents @ comma # v" 7 addr E] len n by (simp_all add: ts_def)
  have five: "buf_at addr (buffer_of E l) 5 = Inr (CHR ''C'')"
    using buf_at_line [of l "[]" l 5 addr E] len \<open>l = _ @ ts @ comma # v\<close> by simp
  show ?thesis
    using fr [of 2] fr [of 4] fr [of 6] gk
    by (simp add: venus_ParseGprmc_def buffer_string [OF l(2)] five time date tmp Let_def split: prod.splits)
qed

text \<open>Too few commas: the parser reads through \<^verbatim>\<open>NULL\<close>.\<close>

lemma comma_loop_short: "n_commas s + nat count < nat k \<Longrightarrow> 0 \<le> count \<Longrightarrow> comma_loop k count off s = None"
proof (induction k count off s rule: comma_loop.induct)
  case (1 k count off s)
  show ?case
  proof (cases "comma \<in> set s")
    case True
    then obtain u v where s: "s = u @ comma # v" "comma \<notin> set u" by (meson split_list_first)
    have "filter (\<lambda>c. c = comma) u = []" using s(2) by (induction u) auto
    then have "n_commas s = Suc (n_commas v)" by (simp add: s(1) n_commas_def)
    then show ?thesis using 1 s by (auto simp: comma_loop.simps [of k count off "u @ comma # v"] strstr_char)
  qed (use 1 in \<open>simp add: comma_loop.simps [of k count off s] strstr_char strchr_None\<close>)
qed

lemma comma_loop_range: "comma_loop k count off s = Some i \<Longrightarrow> off \<le> i \<and> i \<le> off + int (length s)"
proof (induction k count off s rule: comma_loop.induct)
  case (1 k count off s)
  show ?case
  proof (cases "strstr s '','' = None \<or> count = k")
    case False
    then obtain t where t: "strstr s '','' = Some t" "count \<noteq> k" by auto
    then have "length t \<le> length s" "t \<noteq> []" by (auto simp: strstr_char dest: strchr_Some_suffix)
    then have "off + int (length s - length t) + 1 \<le> i \<and> i \<le> off + int (length s - length t) + 1 + int (length (drop 1 t))"
      using "1.IH" [OF t(2,1)] "1.prems" t unfolding comma_loop.simps [of k count off s] by simp
    then show ?thesis using \<open>length t \<le> length s\<close> \<open>t \<noteq> []\<close> by (cases t) (auto simp: of_nat_diff)
  qed (use "1.prems" in \<open>auto simp: comma_loop.simps [of k count off s] split: if_splits\<close>)
qed

lemma sint_neg_or_uint: "sint (w :: u32) < 0 \<or> sint w = uint w"
proof (cases "uint w < 2 ^ 31")
  case True
  then show ?thesis using sint_of_int_range [of "uint w"] order_trans [OF _ uint_ge_0, of "- (2 ^ 31)" w] by simp
next
  case False
  have "(of_int (uint w - 2 ^ 32) :: u32) = w" by simp
  then have "sint w = uint w - 2 ^ 32"
    using sint_of_int_range [of "uint w - 2 ^ 32"] uint_bounded [of w] False by (simp del: of_int_diff)
  then show ?thesis using uint_bounded [of w] by simp
qed

lemma comma_read:
  assumes "sendable l" "256 \<le> uint (- addr)"
  shows "buf_at addr (buffer_of E l) (rp_GetComma addr k l) = Inl Fault \<and> comma_loop k 0 0 l = None \<or>
    comma_loop k 0 0 l \<noteq> None \<and> (\<exists>c. buf_at addr (buffer_of E l) (rp_GetComma addr k l) = Inr c)"
proof (cases "comma_loop k 0 0 l")
  case None
  have "sint (- addr) < 0 \<or> sint (- addr) = uint (- addr)" by (rule sint_neg_or_uint)
  with None assms show ?thesis by (auto simp: rp_GetComma_def buf_at_def sendable_def)
next
  case (Some i)
  with comma_loop_range [OF Some] assms(1) show ?thesis by (simp add: rp_GetComma_def buf_at_def sendable_def)
qed

lemma venus_rmc_fault:
  assumes "sendable l" "n_commas l < 6" "256 \<le> uint (- addr)"
  shows "venus_ParseGprmc addr (buffer_of E l) g = Inl Fault"
proof -
  have "comma_loop 6 0 0 l = None" using comma_loop_short [of l 0 6] assms(2) by simp
  then have six: "buf_at addr (buffer_of E l) (rp_GetComma addr 6 l) = Inl Fault"
    using comma_read [OF assms(1,3), of E 6] by simp
  have "\<exists>c. buf_at addr (buffer_of E l) 5 = Inr c" using assms(1) by (simp add: buf_at_def sendable_def)
  with six comma_read [OF assms(1,3), of E 2] comma_read [OF assms(1,3), of E 4] show ?thesis
    by (auto simp: venus_ParseGprmc_def buffer_string [OF assms(1)])
qed

section \<open>The order of the sentences\<close>

lemma venus_send:
  "sendable l \<Longrightarrow> fst st \<noteq> NMEA_COMPLETED \<Longrightarrow>
   venus_location E addr st (send l @ r) = (case venus_line E addr l st of Inl e \<Rightarrow> (Inl e, r) | Inr st' \<Rightarrow> venus_location E addr st' r)"
  by (simp add: venus_location.simps [of E addr st] uart_line_send)

lemma venus_done: "fst st = NMEA_COMPLETED \<Longrightarrow> venus_location E addr st xs = (Inr (snd st), xs)"
  by (simp add: venus_location.simps [of E addr st])

lemma store_rmc_gga: "store_rmc g (store_gga h coord) = store_rmc g coord"
  by (simp add: store_rmc_def store_gga_def Let_def split: prod.splits)

lemma venus_order:
  assumes "sendable l" "rp_NmeaGetMessageType l = Inr NMEA_GPGGA" "venus_ParseGpgga l (blank_venus_gga E) = Inr h"
    and "sendable m" "rp_NmeaGetMessageType m = Inr NMEA_GPRMC" "venus_ParseGprmc addr (buffer_of E m) (blank_venus E) = Inr g"
  shows "venus_location E addr (NMEA_EMPTY, coord) (send l @ send m @ r) = (Inr (store_rmc g coord), r)"
    "venus_location E addr (NMEA_EMPTY, coord) (send m @ send l @ r) = (Inr (store_gga h (store_rmc g coord)), r)"
proof -
  have d: "NMEA_GPRMC \<noteq> NMEA_GPGGA" "NMEA_EMPTY \<noteq> NMEA_COMPLETED" "NMEA_GPGGA \<noteq> NMEA_COMPLETED" "NMEA_GPRMC \<noteq> NMEA_COMPLETED"
    "NMEA_EMPTY OR NMEA_GPGGA = NMEA_GPGGA" "NMEA_EMPTY OR NMEA_GPRMC = NMEA_GPRMC"
    "NMEA_GPGGA OR NMEA_GPRMC = NMEA_COMPLETED" "NMEA_GPRMC OR NMEA_GPGGA = NMEA_COMPLETED"
    by (simp_all add: NMEA_GPGGA_def NMEA_GPRMC_def NMEA_EMPTY_def NMEA_COMPLETED_def)
  show "venus_location E addr (NMEA_EMPTY, coord) (send l @ send m @ r) = (Inr (store_rmc g coord), r)"
    "venus_location E addr (NMEA_EMPTY, coord) (send m @ send l @ r) = (Inr (store_gga h (store_rmc g coord)), r)"
    using assms d by (simp_all add: venus_send venus_line_def buffer_string Let_def venus_done store_rmc_gga)
qed

lemma venus_gga_returns: "9 \<le> n_commas l \<Longrightarrow> \<exists>g. venus_ParseGpgga l a = Inr g"
proof -
  have "e \<noteq> Fault \<Longrightarrow> venus_ParseGpgga l a \<noteq> Inl e" for e
    unfolding venus_ParseGpgga_def Let_def by (rule next_field_Inl)+ simp_all
  moreover have "venus_ParseGpgga l a = Inl Fault \<longleftrightarrow> n_commas l < 9"
    unfolding venus_ParseGpgga_def Let_def nine by (rule field_chain)+ simp
  ultimately show "9 \<le> n_commas l \<Longrightarrow> \<exists>g. venus_ParseGpgga l a = Inr g"
    by (cases "venus_ParseGpgga l a") auto
qed

section \<open>Properties\<close>

text \<open>The sentences of the examples.\<close>

definition venus_rmc_sample :: string where
  "venus_rmc_sample = rmc_sentence (12, 35, 19) (23, 3, 94) [''A'', ''4807.038'', ''N'', ''01131.000'', ''E'', ''022.4'', ''084.4'']
     [] [] [''003.1'', ''W*6A'' @ cr]"

lemma venus_sample: "sendable venus_rmc_sample" "rp_NmeaGetMessageType venus_rmc_sample = Inr NMEA_GPRMC"
  by code_simp+

lemma gga_sample_parses: "\<exists>h. venus_ParseGpgga gga_sample a = Inr h"
  using venus_gga_returns [of gga_sample a] samples(1,3) by (simp add: readable_def NMEA_GPGGA_def)

text \<open>
  (C23) Time and date round trip of the logger: of an RMC sentence that fits the buffer, with two-digit numbers in
  its time and date fields and no other stray commas, the parser stores exactly those numbers (the year from
  2000) and the two hemisphere letters, whatever the other fields hold and wherever the date is; it stores
  neither a latitude nor a longitude, nor a height or a course.
\<close>

theorem venus_rmc_roundtrip:
  assumes "l = rmc_sentence (h, mi, se) (d, mo, y) fs cents behind others" "sendable l"
    and "\<forall>n \<in> {h, mi, se, d, mo, y}. 0 \<le> n \<and> n < 100"
    and "length fs = 7" "\<forall>f \<in> set fs. comma \<notin> set f" "comma \<notin> set cents"
  shows "\<exists>g'. venus_ParseGprmc addr (buffer_of E l) g = Inr g' \<and>
    v_D g' = \<lparr>year = y + 2000, month = mo, day = d, hour = h, minute = mi, second = se\<rparr> \<and>
    v_NS g' = hd (fs ! 2 @ '','') \<and> v_EW g' = hd (fs ! 4 @ '','') \<and>
    v_latitude g' = v_latitude g \<and> v_longitude g' = v_longitude g \<and> v_height g' = v_height g \<and> v_course g' = v_course g"
  by (rule rmc_read [OF assms])

theorem venus_rmc_roundtrip_witness:
  "\<exists>g'. venus_ParseGprmc 0x7EFF0000 (buffer_of bench venus_rmc_sample) (blank_venus bench) = Inr g' \<and>
    v_D g' = \<lparr>year = 2094, month = 3, day = 23, hour = 12, minute = 35, second = 19\<rparr> \<and>
    v_NS g' = CHR ''N'' \<and> v_EW g' = CHR ''E''"
  using venus_rmc_roundtrip [OF venus_rmc_sample_def venus_sample(1), of "0x7EFF0000" bench "blank_venus bench"] by auto

text \<open>
  (C37) The order of the sentences decides what the logger shows.  When the GGA sentence comes first, the RMC
  sentence overwrites the position, the height and the course with values computed from members of its
  structure that were never assigned: the result does not depend on the GGA sentence at all.  In the opposite
  order the position and the height are those of the GGA sentence.
\<close>

theorem venus_position_lost:
  assumes "sendable l" "rp_NmeaGetMessageType l = Inr NMEA_GPGGA" "venus_ParseGpgga l (blank_venus_gga E) = Inr h"
    and "m = rmc_sentence (hh, mi, se) (d, mo, y) fs cents behind others" "sendable m" "rp_NmeaGetMessageType m = Inr NMEA_GPRMC"
    and "\<forall>n \<in> {hh, mi, se, d, mo, y}. 0 \<le> n \<and> n < 100"
    and "length fs = 7" "\<forall>f \<in> set fs. comma \<notin> set f" "comma \<notin> set cents"
  shows "\<exists>g. v_latitude g = v_latitude (blank_venus E) \<and> v_longitude g = v_longitude (blank_venus E) \<and>
    v_height g = v_height (blank_venus E) \<and>
    venus_location E addr (NMEA_EMPTY, coord) (send l @ send m @ r) = (Inr (store_rmc g coord), r) \<and>
    venus_location E addr (NMEA_EMPTY, coord) (send m @ send l @ r) = (Inr (store_gga h (store_rmc g coord)), r)"
proof -
  obtain g where g: "venus_ParseGprmc addr (buffer_of E m) (blank_venus E) = Inr g" "v_latitude g = v_latitude (blank_venus E)"
    "v_longitude g = v_longitude (blank_venus E)" "v_height g = v_height (blank_venus E)"
    using rmc_read [OF assms(4,5,7-10), of addr E "blank_venus E"] by blast
  with venus_order [OF assms(1-3) assms(5,6) g(1)] show ?thesis by (intro exI [of _ g]) simp
qed

theorem venus_position_lost_witness:
  "\<exists>g. v_latitude g = v_latitude (blank_venus bench) \<and>
    venus_location bench 0x7EFF0000 (NMEA_EMPTY, blank_venus bench) (send gga_sample @ send venus_rmc_sample @ []) =
      (Inr (store_rmc g (blank_venus bench)), [])"
proof -
  obtain h where h: "venus_ParseGpgga gga_sample (blank_venus_gga bench) = Inr h" using gga_sample_parses by blast
  have "sendable gga_sample" using samples(1) by (simp add: readable_def)
  from venus_position_lost [OF this samples(5) h venus_rmc_sample_def venus_sample(1,2), of "0x7EFF0000" "blank_venus bench" "[]"]
  show ?thesis by auto
qed

end
