(* ===== verification/Spec2Isabelle.thy ===== *)
theory Spec2Isabelle
  imports Lago_Run TinyGPS Devcfg_Probe Devcfg_Transfer Zynq_OCM CMA Zynq_Variants ADC_Server ADC_Tools XADC_Tools GPIO_LED
    Venus_GPS
begin

text \<open>
  Verification of the C code of the Red Pitaya ecosystem of the LAGO project: the acquisition program \<^verbatim>\<open>lago\<close> with its drivers in
  user space, the GPS programs, the recorders, servers and tools of the test bench, and the three kernel drivers the board needs.

  \<^bold>\<open>The program.\<close>  \<^verbatim>\<open>src/projects/lago_v1_3/src\<close> holds \<^verbatim>\<open>lago.c\<close>, which parses its command line into global flags, maps the
  devices, and reads or writes one register, prints the configuration, the sensors or the GPS position, initialises the
  registers, or acquires: a second thread waits for interrupts and keeps the writer's position, the main thread waits too and calls
  \<^verbatim>\<open>read_buffer\<close>, which prints the new words of a ring in contiguous memory (samples, counters, second marks) to standard output or to a
  file per hour.  It stands on \<^verbatim>\<open>zynq_io.c\<close> (devices mapped through UIO, register access, conversion of voltages),
  \<^verbatim>\<open>bmp180.c\<close> (pressure sensor on I2C), \<^verbatim>\<open>uart_rp.c\<close>, \<^verbatim>\<open>nmea_rp.c\<close> and \<^verbatim>\<open>gps_rp.c\<close> (GPS receiver on a serial line).
  \<^verbatim>\<open>src/apps/rp_tinygps\<close> is another program for the receiver, with a parser that takes one character at a time.
  \<^verbatim>\<open>src/patches\<close> holds the kernel drivers: \<^verbatim>\<open>cma.c\<close> hands out the contiguous memory the ring is in, \<^verbatim>\<open>xilinx_devcfg.c\<close> takes the
  bitstream of the FPGA, \<^verbatim>\<open>zynq_ocm.c\<close> gives the on-chip memory to an allocator.
  The other directories of \<^verbatim>\<open>src/projects\<close> hold the programs of the bench: recorders that let the logic fill a buffer and print it
  (\<^verbatim>\<open>adc_recorder\<close>, \<^verbatim>\<open>adc_recorder_uio\<close>, \<^verbatim>\<open>adc_recorder_old\<close>, \<^verbatim>\<open>counter_test\<close>), a server that streams a ring of samples to a client, with its client
  and a signal generator (\<^verbatim>\<open>adc_test\<close>), tools for the converter and the registers (\<^verbatim>\<open>xadc_test\<close>, \<^verbatim>\<open>ramp_test\<close>) and an exerciser of LEDs and buttons
  (\<^verbatim>\<open>gpio_led_test\<close>).  \<^verbatim>\<open>src/apps/rp_venusGPS\<close> logs positions of another receiver and \<^verbatim>\<open>src/apps/rp_bmp180\<close> tests the pressure sensor; both use
  earlier copies of the station's files.

  \<^bold>\<open>How C is modelled.\<close>  (\<open>C_Prelude\<close>, \<open>C_Lib\<close>, \<open>C_Float\<close>, \<open>C_Time\<close>)  A C function is a value of \<open>('s, 'a) io\<close>: it takes the state and
  returns a value with the new state, or stops the process with a reason (\<^verbatim>\<open>exit\<close>, an access through an invalid pointer,
  a write past an array, a wait that never ends, a division by zero).  Machine integers are words where they wrap or are used bitwise,
  integers of the mathematical kind where the code cannot leave their range.  Floating point numbers are computed exactly and rounded
  to the format.  The parts of the C library the code uses (\<^verbatim>\<open>printf\<close> formats, \<^verbatim>\<open>strtol\<close>, \<^verbatim>\<open>atof\<close>, \<^verbatim>\<open>strchr\<close>, \<^verbatim>\<open>timegm\<close>, \<^verbatim>\<open>gmtime\<close>) are
  defined and their laws proved; \<open>C_Time\<close> states the calendar as a locale.  \<open>C_Prelude\<close> also holds the logic of the development:
  evaluation of straight-line code (\<open>io_eval\<close>), invariants (\<open>keeps\<close>), frames (\<open>stable\<close>), and total correctness (\<open>runs\<close>, \<open>achieves\<close>).

  \<^bold>\<open>What is a parameter.\<close>  The operating system, the devices and the mathematical library (the record \<open>env\<close> of \<open>Platform\<close>), the Linux kernel
  (the record \<open>kern\<close> of \<open>Kernel\<close>) and the clock and functions behind \<open>libm\<close> in \<open>TinyGPS\<close>.  What they answer is a function of
  what was done to them before; the theorems name what they rely on (\<open>holds_writes\<close>: a register keeps what is written;
  \<open>locked_regs\<close>: so do the control and the lock register of the configuration port, as far as the locks allow;
  \<open>clock_runs\<close>: \<^verbatim>\<open>jiffies\<close> never goes back and moves within any \<open>P\<close> looks; \<open>init_follows\<close>: the status bit follows the program signal), and
  each is shown to be satisfiable by a
  concrete instance (\<open>bench\<close>, \<open>daq_env\<close>, \<open>station_env\<close>, \<open>bench_kernel\<close>, \<open>lock_kernel\<close>, \<open>yes_kernel\<close>).

  \<^bold>\<open>The theories and what they show.\<close>
  \<^item> \<open>Platform\<close>, \<open>Zynq_IO\<close> (\<^verbatim>\<open>zynq_io.c\<close>): pointers with bounds, the register bank as a locale interpreted on the history of
    accesses; \<^verbatim>\<open>init_system\<close> refines the table of power-up values, voltages are monotone and calibrated, \<^verbatim>\<open>cfg_init\<close> is truthful, and
    \<^verbatim>\<open>disable_interrupt\<close> does not disable.
  \<^item> \<open>BMP180\<close> (\<^verbatim>\<open>bmp180.c\<close>): calibration data survive the byte order of the bus, the integer arithmetic of the pressure does not
    overflow and agrees with the data sheet's algorithm up to one unit of one intermediate value where the product of \<^verbatim>\<open>b2\<close> fits 32 bits (it need
    not: \<open>pressure_product_overflows\<close>), and no path of the constructor leaks.
  \<^item> \<open>UART_RP\<close>, \<open>NMEA_RP\<close>, \<open>GPS_RP\<close> (\<^verbatim>\<open>uart_rp.c\<close>, \<^verbatim>\<open>nmea_rp.c\<close>, \<^verbatim>\<open>gps_rp.c\<close>): lines, checksums, fields; when \<^verbatim>\<open>gps_location\<close> returns, which
    fields of the two sentences it returns, and when the parsers fault.
  \<^item> \<open>Lago_Args\<close>, \<open>Lago_File\<close>, \<open>Lago_Reader\<close> (\<^verbatim>\<open>lago.c\<close>): the command line, the data files and every kind of word of the ring;
    \<open>Lago_Cursor\<close>, \<open>Lago_Online\<close>, \<open>Lago_Clock\<close> hold the lemmas on the cursor, on total correctness and on the clock of the
    acquisition; \<open>Lago_Main\<close> has the threads, the step relation of their interleavings, the acquisition and \<^verbatim>\<open>main\<close>.  They show that every
    interleaving stays in the mapped memory, that an acquisition ends on the signal with the registers restored, where the reader
    skips a word and where it sticks, and how the clock runs without GPS.
  \<^item> \<open>Lago_Run\<close> (\<^verbatim>\<open>main\<close> as a whole): on a board where the sensor, the devices and the contiguous memory answer (\<open>board\<close>), every run of the program
    from its command line to the closed devices; what the statements before the action leave in the registers, that settings survive
    from one process to the next and are reported by \<^verbatim>\<open>lago -a\<close>, and that an acquisition to a file or to standard output, on logic that an
    earlier run has initialised, ends with the registers restored.  The run that finds the logic in reset creates the second thread; \<^verbatim>\<open>main\<close> is
    sequential here and records only that, and the thread's interleavings with the acquisition are those of \<open>daq_step\<close> in \<open>Lago_Main\<close>.
  \<^item> \<open>TinyGPS\<close> (\<^verbatim>\<open>tinygps.c\<close>, \<^verbatim>\<open>rp_gps.c\<close>): the array of the parser is never left, its checksum test is that of \<^verbatim>\<open>nmea_rp.c\<close>, a corrupted
    sentence leaves the fix alone, positions are converted exactly, the program ends.
  \<^item> \<open>Kernel\<close>, \<open>Devcfg\<close>, \<open>Devcfg_Transfer\<close>, \<open>Devcfg_Sysfs\<close>, \<open>Devcfg_Probe\<close> (\<^verbatim>\<open>xilinx_devcfg.c\<close>): transfers return and give back
    what they hold, the words that reach the port (what the controller fetches through the registers the driver programs) do not depend on how
    the bitstream is cut after its first piece, which has the synchronisation word, the device has one user, the attributes
    (the locale \<open>bit_attribute\<close>, interpreted for each of them) show what was stored unless a lock protects them; and the faults of the error paths.
  \<^item> \<open>Zynq_OCM\<close> (\<^verbatim>\<open>zynq_ocm.c\<close>) and \<open>CMA\<close> (\<^verbatim>\<open>cma.c\<close>): the allocator owns the on-chip memory once, the contiguous-memory driver holds
    at most one buffer in every reachable state.
  \<^item> \<open>Mmio\<close>: physical memory behind \<^verbatim>\<open>/dev/mem\<close>, with accesses of one to four bytes in a log; the register bank is interpreted once more, on
    bytes.  On it stand \<open>ADC_Recorder\<close> (the seven recorders: what they program and which samples they print), \<open>Zynq_Variants\<close> (their
    power-up function), \<open>ADC_Server\<close> (\<^verbatim>\<open>adc-test-server.c\<close> as a state machine that interleaves with the writer and the signal: the client
    receives a prefix of the stream unless the writer overtakes it), \<open>ADC_Tools\<close> (\<^verbatim>\<open>gen.c\<close>: the phase increment is exact; the two clients),
    \<open>XADC_Tools\<close> (\<^verbatim>\<open>xadc_uio.c\<close>, \<^verbatim>\<open>xadc_test.c\<close>, \<^verbatim>\<open>ramp_test.c\<close>) and \<open>GPIO_LED\<close> (\<^verbatim>\<open>gpio_led_test.c\<close>: \<^verbatim>\<open>itoa\<close>, the sine table, the exerciser).
  \<^item> \<open>Venus_GPS\<close> (\<^verbatim>\<open>rp_venusGPS\<close>) and \<open>BMP180_App\<close> (\<^verbatim>\<open>rp_bmp180\<close>): what differs from the station's files is defined, the rest reused; the date
    survives, the position does not, and the sensor test prints exact readings.
  \<^item> This theory joins the contiguous-memory driver to the recorder that programs the writer with its buffer; the driver's positive result after a failed copy is taken for a success by the programs.

  \<^bold>\<open>Bounds and fuel.\<close>  Loops over data are recursive functions on the data.  The endless loops of the threads run on as many
  turns as there are waits to consume; the acquisition loop of \<open>daq_run\<close> has two turns more than there are waits, which is enough because
  every turn consumes one (\<open>acquire_returns\<close>).  The endless loop of the GPS logger recurses on the input that is left, that of
  the exerciser runs for a given number of turns, and the service loop of \<open>ADC_Server\<close> is a step relation and needs none.  The loop of \<^verbatim>\<open>rp_gps\<close> has fuel 11, one more than its own bound.
  The busy-wait loops of
  \<^verbatim>\<open>xilinx_devcfg.c\<close> take their fuel as an argument: with at most \<open>P\<close> looks at the clock in a tick, \<open>P\<close> times the ticks of the timeout and one more
  is enough for a transfer, and the number of looks
  after which the status bit follows is enough for the reset.  Running out of fuel is \<open>Stopped Blocked\<close> and no theorem holds because
  of it.

  \<^bold>\<open>Not modelled.\<close>  The serial line settings and signal masks (no effect on the modelled state); messages to the kernel log; the
  contents of memory behind a freed pointer (an access to it is a fault); pre-emption inside a kernel driver other than by its own interrupt
  handler (the mutex and the spinlock exclude it).  Functions of the copies of \<^verbatim>\<open>zynq_io.c\<close>, \<^verbatim>\<open>bmp180.c\<close>, \<^verbatim>\<open>nmea_rp.c\<close> and \<^verbatim>\<open>uart_rp.c\<close> outside
  \<^verbatim>\<open>lago_v1_3\<close> that have its text are not defined a second time.  The FPGA designs, boot files and scripts are not C; of the designs only the
  address counter of \<^verbatim>\<open>axis_ram_writer.vhd\<close> appears, in \<open>ADC_Server\<close>.
\<close>

section \<open>From the kernel driver to the writer\<close>

text \<open>The programs see the contiguous-memory driver through the word their \<^verbatim>\<open>ioctl\<close> leaves behind, and take every result that is
  not negative for a success.\<close>

definition driver_alloc :: "kern \<Rightarrow> cma \<Rightarrow> u32 \<Rightarrow> u32 option" where
  "driver_alloc K k n =
     (case cma_ioctl K CMA_ALLOC n k of Done (rc, w) t \<Rightarrow> (if rc < 0 then None else Some w) | Stopped e t \<Rightarrow> None)"

text \<open>The kernel reaches the word of the caller, and the codes in its error pointers are negative.\<close>

definition copies :: "kern \<Rightarrow> bool" where
  "copies K \<longleftrightarrow> (\<forall>h n. k_rc K h (Copy_From_User n) = 0 \<and> k_rc K h (Copy_To_User n) = 0) \<and>
     (\<forall>h n e. k_ptr K h (Dma_Alloc n) = Err_Ptr e \<longrightarrow> e < 0)"

lemma cma_ioctl_rc:
  assumes "one_buffer k" "copies K" "cma_ioctl K cmd n k = Done (rc, w) t"
  shows "rc \<le> 0"
proof -
  have "one_buffer (log_ev (Copy_From_User 4) k)" using assms(1) by (simp add: one_buffer_log_ev)
  from cma_free_frees [OF this] obtain u where "cma_free (log_ev (Copy_From_User 4) k) = Done () u" by blast
  with assms(2,3) show ?thesis
    by (auto simp: cma_ioctl_def io_eval copies_def dma_alloc_coherent_def errno_defs split: kptr.splits if_splits)
      (meson less_imp_le)+
qed

lemma driver_alloc_live:
  assumes "cma_reach K k" "copies K" "driver_alloc K k n = Some a"
  shows "\<exists>t. cma_ioctl K CMA_ALLOC n k = Done (0, a) t \<and> dma_live t = [a] \<and> dma_size t = n"
proof -
  have o: "one_buffer k" by (rule cma_reach_one [OF assms(1)])
  obtain rc w t where t: "cma_ioctl K CMA_ALLOC n k = Done (rc, w) t" "one_buffer t" "rc = 0 \<longrightarrow> dma_size t = n \<and> cpu_addr t = Some w"
    using cma_ioctl_one [OF o, of K CMA_ALLOC n] by auto
  moreover from this assms(3) have "0 \<le> rc" "w = a" by (auto simp: driver_alloc_def split: if_splits)
  ultimately show ?thesis using cma_ioctl_rc [OF o assms(2) t(1)] by (auto simp: one_buffer_def)
qed

text \<open>The driver just loaded, and the platform on which the programs use it.\<close>

definition loaded :: cma where
  "loaded = log_ev Misc_Register cma0"

definition loaded_env :: "kern \<Rightarrow> env" where
  "loaded_env K = bench\<lparr>cma_alloc := driver_alloc K loaded\<rparr>"

lemma loaded_reach: "k_rc K [] Misc_Register = r \<Longrightarrow> cma_reach K loaded"
  by (rule cma_load [where r = r]) (simp add: cma_module_init_def io_eval cma0_def kst.extend_def loaded_def)

text \<open>
  (C14) From the driver to the logic: when the recorder on UIO starts with the contiguous-memory driver in any state it can
  reach, and the devices answer, the address it has programmed in the writer is that of the one buffer the driver holds, and the
  last sample it has programmed, counted from 0, ends exactly at the end of that buffer.
\<close>

theorem recorder_fills_driver_buffer:
  assumes "cma_reach K k" "copies K" "cma_alloc E = driver_alloc K k"
    and "cfg_init E s = Done 0 s1" "cma_init E s1 = Done 0 s2" "page_size E = 4096" "holds_writes E cfg_dev z"
  shows "\<exists>t a u. adc_recorder_uio_main E s = Done 0 t \<and> bus E (hist t) cfg_dev 4 = a \<and>
    cma_ioctl K CMA_ALLOC 4194304 k = Done (0, a) u \<and> dma_live u = [a] \<and>
    (uint (bus E (hist t) cfg_dev 8) + 1) * 4 = uint (dma_size u)"
proof -
  have b: "bus E h cfg_dev a = last_write z h cfg_dev a" for h a using assms(7) by (simp add: holds_writes_def)
  obtain t where t: "adc_recorder_uio_main E s = Done 0 t" "cma_alloc E 4194304 = Some (bus E (hist t) cfg_dev 4)"
    "bus E (hist t) cfg_dev 8 = 1048575"
    using uio_main_run [OF assms(4-7)] cma_init_done [OF assms(5)] assms(6) by (auto simp: b recorder_regs)
  then show ?thesis using driver_alloc_live [OF assms(1,2), of 4194304] assms(3) by auto
qed

lemma loaded_ioctl:
  "\<exists>t. cma_ioctl yes_kernel CMA_ALLOC 4194304 loaded = Done (0, 0x1E000000) t \<and> dma_size t = 4194304"
  by (simp add: cma_ioctl_def io_eval dma_alloc_coherent_def cma_free_def loaded_def cma0_def kst.extend_def yes_kernel_def log_ev_def)

theorem recorder_fills_driver_buffer_witness:
  "\<exists>t (u :: cma). adc_recorder_uio_main (loaded_env yes_kernel) rec0 = Done 0 t \<and> dma_live u = [bus (loaded_env yes_kernel) (hist t) cfg_dev 4] \<and>
     uint (dma_size u) = 4194304"
proof -
  let ?E = "loaded_env yes_kernel"
  have k: "cma_reach yes_kernel loaded" "copies yes_kernel"
    using loaded_reach [of yes_kernel 0] by (simp_all add: yes_kernel_def copies_def)
  obtain s1 where a: "cfg_init ?E rec0 = Done 0 s1"
    by (simp add: cfg_init_def uio_init_def get_memory_size_def bench_def loaded_env_def Let_def sys_mmap_def
        scan_size_def scan_hex8_def isspace_def skip_sign_def skip_0x_def is_digit_def digit_val_def horner_def)
  have "driver_alloc yes_kernel loaded 4194304 = Some 0x1E000000" using loaded_ioctl by (auto simp: driver_alloc_def)
  then obtain s2 where b: "cma_init ?E s1 = Done 0 s2"
    by (simp add: cma_init_def loaded_env_def sys_mmap_def Let_def)
  have "page_size ?E = 4096" "holds_writes ?E cfg_dev (\<lambda>a. 0)" "cma_alloc ?E = driver_alloc yes_kernel loaded"
    using bench_simps(9) by (simp_all add: loaded_env_def holds_writes_def)
  from recorder_fills_driver_buffer [OF k this(3) a b this(1,2)] obtain t a u where
    t: "adc_recorder_uio_main ?E rec0 = Done 0 t" "bus ?E (hist t) cfg_dev 4 = a"
      "cma_ioctl yes_kernel CMA_ALLOC 4194304 loaded = Done (0, a) u" "dma_live u = [a]" by blast
  have "dma_size u = 4194304" using t(3) loaded_ioctl by auto
  with t show ?thesis by (intro exI [of _ t] exI [of _ u]) simp
qed

text \<open>
  (C39) A failed copy is taken for a success: when the kernel cannot store the address in the caller's word, the driver returns the
  number of bytes left, which is positive; \<^verbatim>\<open>cma_init\<close> tests for a negative result only, returns 0 and keeps the size of the
  buffer as its address.
\<close>

theorem cma_copy_failure_missed:
  assumes "cma_reach K k" "cma_alloc E = driver_alloc K k" "page_size E = 4096"
    and "\<forall>h. k_rc K h (Copy_From_User 4) = 0" "\<forall>h. k_rc K h (Copy_To_User 4) = 4" "\<forall>h n. \<exists>a. k_ptr K h (Dma_Alloc n) = Good a"
    and "1 \<le> os_open E (opens s) ''/dev/cma''" "os_mmap E ''/dev/cma'' 0 4194304"
  shows "\<exists>t. cma_init E s = Done 0 t \<and> dev_size t = 4194304"
proof -
  have o: "one_buffer (log_ev (Copy_From_User 4) k)" using cma_reach_one [OF assms(1)] by (simp add: one_buffer_log_ev)
  from cma_free_frees [OF o] obtain u where u: "cma_free (log_ev (Copy_From_User 4) k) = Done () u" by blast
  obtain a where "k_ptr K (klog u) (Dma_Alloc 4194304) = Good a" using assms(6) by blast
  with u assms(4,5) have "cma_alloc E 4194304 = Some 4194304"
    by (simp add: assms(2) driver_alloc_def cma_ioctl_def io_eval dma_alloc_coherent_def)
  then show ?thesis using assms(3,7,8) by (auto simp: cma_init_def sys_mmap_def Let_def)
qed

definition deaf_kernel :: kern where
  "deaf_kernel = yes_kernel\<lparr>k_rc := \<lambda>h e. if e = Copy_To_User 4 then 4 else 0\<rparr>"

lemma deaf_kernel_answers: "k_rc deaf_kernel h e = (if e = Copy_To_User 4 then 4 else 0)" "k_ptr deaf_kernel h e = Good 0x1E000000"
  by (simp_all add: deaf_kernel_def yes_kernel_def)

theorem cma_copy_failure_missed_witness:
  "\<exists>t. cma_init (loaded_env deaf_kernel) rec0 = Done 0 t \<and> dev_size t = 4194304"
  by (rule cma_copy_failure_missed [OF loaded_reach [of deaf_kernel, OF refl]]) (simp_all add: deaf_kernel_answers loaded_env_def)

end
